(* ===== verification/Demo_Prelude.thy ===== *)
theory Demo_Prelude
  imports Main "HOL-Library.Word"
begin

text \<open>
  Shared vocabulary of the development: the machine-integer and byte types of the Rust code, the
  result type, generic lemmas on lists and results, and the two generic interfaces the components
  are checked against (an invariant of a step relation, and an encoder with its decoder).
\<close>

section \<open>Types\<close>

type_synonym u64 = "64 word"
type_synonym i64 = "64 word"
type_synonym i32 = "32 word"
type_synonym byte = "8 word"

text \<open>
  A Rust \<open>String\<close> or \<open>&str\<close> is the list of the bytes of its UTF-8 encoding: a
  \<^typ>\<open>char\<close> of HOL is one byte. \<open>Bytes\<close> and \<open>&[u8]\<close> are lists of 8-bit words.
  A \<open>Result<T, E>\<close> is \<open>'e + 't\<close>, with \<open>Inl\<close> for \<open>Err\<close>.
\<close>

type_synonym bytes = "byte list"

named_theorems call_simps \<open>which library calls an operation makes\<close>

lemma unat_u64_bound: "unat (i :: u64) < 2 ^ 64"
  using unsigned_less [of i, where ?'a = nat] by simp

section \<open>Results\<close>

definition bind_res :: "'e + 'a \<Rightarrow> ('a \<Rightarrow> 'e + 'b) \<Rightarrow> 'e + 'b" where
  "bind_res r f = (case r of Inl e \<Rightarrow> Inl e | Inr x \<Rightarrow> f x)"

definition map_err :: "('e \<Rightarrow> 'f) \<Rightarrow> 'e + 'a \<Rightarrow> 'f + 'a" where
  "map_err g r = (case r of Inl e \<Rightarrow> Inl (g e) | Inr x \<Rightarrow> Inr x)"

definition ok_or :: "'e \<Rightarrow> 'a option \<Rightarrow> 'e + 'a" where
  "ok_or e x = (case x of None \<Rightarrow> Inl e | Some y \<Rightarrow> Inr y)"

definition is_ok :: "'e + 'a \<Rightarrow> bool" where
  "is_ok r = (case r of Inl _ \<Rightarrow> False | Inr _ \<Rightarrow> True)"

lemma bind_res_simps [simp]:
  "bind_res (Inl e) f = Inl e"
  "bind_res (Inr x) f = f x"
  by (simp_all add: bind_res_def)

lemma map_err_simps [simp]:
  "map_err g (Inl e) = Inl (g e)"
  "map_err g (Inr x) = Inr x"
  by (simp_all add: map_err_def)

lemma ok_or_simps [simp]:
  "ok_or e None = Inl e"
  "ok_or e (Some x) = Inr x"
  by (simp_all add: ok_or_def)

lemma is_ok_simps [simp]:
  "is_ok (Inl e) = False"
  "is_ok (Inr x) = True"
  by (simp_all add: is_ok_def)

lemma bind_res_eq_Inr [simp]: "bind_res r f = Inr y \<longleftrightarrow> (\<exists>x. r = Inr x \<and> f x = Inr y)"
  by (cases r) simp_all

lemma map_err_eq_Inr [simp]: "map_err g r = Inr y \<longleftrightarrow> r = Inr y"
  by (cases r) simp_all

lemma map_err_eq_Inl [simp]: "map_err g r = Inl e \<longleftrightarrow> (\<exists>d. r = Inl d \<and> e = g d)"
  by (cases r) auto

lemma is_ok_map_err [simp]: "is_ok (map_err g r) = is_ok r"
  by (cases r) simp_all

section \<open>Lists\<close>

lemma length_le_card_keys:
  assumes "distinct (map f xs)" and "f ` set xs \<subseteq> K" and "finite K"
  shows "length xs \<le> card K"
proof -
  have "length xs = card (set (map f xs))"
    using distinct_card [OF assms(1)] by simp
  also have "\<dots> \<le> card K"
    using assms(2,3) by (auto intro: card_mono)
  finally show ?thesis .
qed

lemma remove1_set_distinct_map:
  assumes "distinct (map f xs)" and "x \<in> set xs"
  shows "f ` set (remove1 x xs) = f ` set xs - {f x}"
  using assms by (induction xs) (auto simp: distinct_map)

lemma distinct_map_remove1: "distinct (map f xs) \<Longrightarrow> distinct (map f (remove1 x xs))"
  by (auto simp: distinct_map intro: inj_on_diff)

section \<open>Step relations and their invariants\<close>

text \<open>
  The states a step relation can reach from its initial states. The components with a state
  (the producer's admission loop, the consumer's poll loop) are step relations over it.
\<close>

inductive reachable :: "('s \<Rightarrow> bool) \<Rightarrow> ('s \<Rightarrow> 's \<Rightarrow> bool) \<Rightarrow> 's \<Rightarrow> bool"
  for init :: "'s \<Rightarrow> bool" and step :: "'s \<Rightarrow> 's \<Rightarrow> bool" where
  reach_init: "init s \<Longrightarrow> reachable init step s"
| reach_step: "reachable init step s \<Longrightarrow> step s t \<Longrightarrow> reachable init step t"

locale invariant_system =
  fixes init :: "'s \<Rightarrow> bool"
    and step :: "'s \<Rightarrow> 's \<Rightarrow> bool"
    and inv :: "'s \<Rightarrow> bool"
  assumes inv_init: "init s \<Longrightarrow> inv s"
    and inv_step: "inv s \<Longrightarrow> step s t \<Longrightarrow> inv t"
begin

lemma inv_reachable: "reachable init step s \<Longrightarrow> inv s"
  by (induction rule: reachable.induct) (auto intro: inv_init inv_step)

end

section \<open>Encoders\<close>

text \<open>An encoder whose decoder reads back every valid value; so it never maps two to one.\<close>

locale codec =
  fixes encode :: "'a \<Rightarrow> 'w"
    and decode :: "'w \<Rightarrow> 'b option"
    and view :: "'a \<Rightarrow> 'b"
    and valid :: "'a \<Rightarrow> bool"
  assumes decode_encode: "valid x \<Longrightarrow> decode (encode x) = Some (view x)"
begin

lemma encode_determines:
  assumes "valid x" and "valid y" and "encode x = encode y"
  shows "view x = view y"
  using decode_encode [OF assms(1)] decode_encode [OF assms(2)] assms(3) by simp

end

end
