(* ===== verification/Float64.thy ===== *)
theory Float64
  imports Demo_Prelude "HOL-Library.Log_Nat" Complex_Main
begin

text \<open>
  The \<open>f64\<close> values and operations the program uses: IEEE 754 binary64 with rounding to nearest,
  ties to even. A finite value is its sign and its exact magnitude, a rational number; the
  operations compute the exact rational result and round it once. The second half proves what the
  rest of the development needs of rounding (it is monotone, exact on small multiples of powers of
  two, and close), packs it as an interface, and interprets the interface on this model.
\<close>

section \<open>Values\<close>

datatype f64 = F64_NaN | F64_Inf bool | F64_Num bool rat

text \<open>Integer part of the binary logarithm of a positive rational, from the bit lengths.\<close>

definition ilog2 :: "rat \<Rightarrow> int" where
  "ilog2 x = (let (n, d) = quotient_of x; k = bitlen n - bitlen d
              in if x < 2 powi k then k - 1 else k)"

text \<open>The spacing of the binary64 values around \<open>x > 0\<close> is \<open>2 powi quantum x\<close>.\<close>

definition quantum :: "rat \<Rightarrow> int" where
  "quantum x = max (- 1074) (ilog2 x - 52)"

definition round_half_even :: "rat \<Rightarrow> int" where
  "round_half_even q =
     (let f = \<lfloor>q\<rfloor>; r = q - of_int f
      in if r < 1 / 2 then f else if 1 / 2 < r then f + 1 else if even f then f else f + 1)"

text \<open>The magnitude \<open>x \<ge> 0\<close> rounded to 53 significant bits, the exponent unbounded above.\<close>

definition round_mag :: "rat \<Rightarrow> rat" where
  "round_mag x = (if x = 0 then 0
     else of_int (round_half_even (x / 2 powi quantum x)) * 2 powi quantum x)"

definition f64_overflow :: rat where
  "f64_overflow = 2 ^ 1024"

definition round64 :: "rat \<Rightarrow> f64" where
  "round64 x = (let r = round_mag \<bar>x\<bar>
     in if r < f64_overflow then F64_Num (x < 0) r else F64_Inf (x < 0))"

section \<open>Operations\<close>

fun f64_val :: "f64 \<Rightarrow> rat" where
  "f64_val (F64_Num s m) = (if s then - m else m)"
| "f64_val _ = 0"

text \<open>\<open>a < b\<close> and \<open>a <= b\<close>: false as soon as one side is NaN; the two zeros are equal.\<close>

fun lt64 :: "f64 \<Rightarrow> f64 \<Rightarrow> bool" where
  "lt64 F64_NaN _ = False"
| "lt64 _ F64_NaN = False"
| "lt64 (F64_Inf s) (F64_Inf t) = (s \<and> \<not> t)"
| "lt64 (F64_Inf s) (F64_Num _ _) = s"
| "lt64 (F64_Num _ _) (F64_Inf t) = (\<not> t)"
| "lt64 (F64_Num s m) (F64_Num t n) = (f64_val (F64_Num s m) < f64_val (F64_Num t n))"

fun le64 :: "f64 \<Rightarrow> f64 \<Rightarrow> bool" where
  "le64 F64_NaN _ = False"
| "le64 _ F64_NaN = False"
| "le64 (F64_Inf s) (F64_Inf t) = (t \<longrightarrow> s)"
| "le64 (F64_Inf s) (F64_Num _ _) = s"
| "le64 (F64_Num _ _) (F64_Inf t) = (\<not> t)"
| "le64 (F64_Num s m) (F64_Num t n) = (f64_val (F64_Num s m) \<le> f64_val (F64_Num t n))"

fun abs64 :: "f64 \<Rightarrow> f64" where
  "abs64 F64_NaN = F64_NaN"
| "abs64 (F64_Inf _) = F64_Inf False"
| "abs64 (F64_Num _ m) = F64_Num False m"

text \<open>A sum that is exactly zero is \<open>+0\<close> unless both operands are negative zeros.\<close>

fun add64 :: "f64 \<Rightarrow> f64 \<Rightarrow> f64" where
  "add64 F64_NaN _ = F64_NaN"
| "add64 _ F64_NaN = F64_NaN"
| "add64 (F64_Inf s) (F64_Inf t) = (if s = t then F64_Inf s else F64_NaN)"
| "add64 (F64_Inf s) (F64_Num _ _) = F64_Inf s"
| "add64 (F64_Num _ _) (F64_Inf t) = F64_Inf t"
| "add64 (F64_Num s m) (F64_Num t n) =
     (let x = f64_val (F64_Num s m) + f64_val (F64_Num t n)
      in if x = 0 then F64_Num (s \<and> t) 0 else round64 x)"

text \<open>A quotient whose exact value is not zero but rounds to zero keeps the sign of the quotient.\<close>

fun div64 :: "f64 \<Rightarrow> f64 \<Rightarrow> f64" where
  "div64 F64_NaN _ = F64_NaN"
| "div64 _ F64_NaN = F64_NaN"
| "div64 (F64_Inf s) (F64_Inf t) = F64_NaN"
| "div64 (F64_Inf s) (F64_Num t _) = F64_Inf (s \<noteq> t)"
| "div64 (F64_Num s _) (F64_Inf t) = F64_Num (s \<noteq> t) 0"
| "div64 (F64_Num s m) (F64_Num t n) =
     (if n = 0 then (if m = 0 then F64_NaN else F64_Inf (s \<noteq> t))
      else let r = round_mag (m / n)
           in if r < f64_overflow then F64_Num (s \<noteq> t) r else F64_Inf (s \<noteq> t))"

text \<open>\<open>f64::max\<close>: the other operand when one is NaN.\<close>

definition max64 :: "f64 \<Rightarrow> f64 \<Rightarrow> f64" where
  "max64 a b = (if a = F64_NaN then b else if b = F64_NaN then a else if lt64 a b then b else a)"

text \<open>\<open>f64::clamp\<close>: \<open>if self < min { min } else if self > max { max } else { self }\<close>.\<close>

definition clamp64 :: "f64 \<Rightarrow> f64 \<Rightarrow> f64 \<Rightarrow> f64" where
  "clamp64 x lo hi = (if lt64 x lo then lo else if lt64 hi x then hi else x)"

text \<open>A decimal literal is the value nearest to it; an integer conversion rounds the same way.\<close>

definition f64_lit :: "rat \<Rightarrow> f64" where
  "f64_lit x = round64 x"

definition f64_of_nat :: "nat \<Rightarrow> f64" where
  "f64_of_nat n = round64 (of_nat n)"

definition f64_epsilon :: f64 where
  "f64_epsilon = F64_Num False (1 / 2 ^ 52)"

definition f64_zero :: f64 where
  "f64_zero = F64_Num False 0"

definition is_finite64 :: "f64 \<Rightarrow> bool" where
  "is_finite64 x = (case x of F64_Num _ _ \<Rightarrow> True | _ \<Rightarrow> False)"

section \<open>Logarithm and quantum\<close>

lemma powi_add_two: "(2::rat) powi (i + j) = 2 powi i * 2 powi j"
  by (simp add: power_int_add)

lemma powi_mono_two: "i \<le> j \<Longrightarrow> (2::rat) powi i \<le> 2 powi j"
  by (simp add: power_int_increasing)

lemma powi_pos_two [simp]: "0 < (2::rat) powi i"
  by simp

lemma bitlen_pos: "0 < n \<Longrightarrow> 0 < bitlen n"
  using bitlen_eq_zero_iff [of n] bitlen_nonneg [of n] by linarith

lemma bitlen_powi:
  assumes "0 < n"
  shows "2 powi (bitlen n - 1) \<le> (of_int n :: rat)" and "(of_int n :: rat) < 2 powi bitlen n"
proof -
  have p: "0 < bitlen n" using assms by (rule bitlen_pos)
  have b: "2 ^ nat (bitlen n - 1) \<le> n" "n < 2 ^ nat (bitlen n)"
    using bitlen_bounds [OF assms] by auto
  have "(of_int (2 ^ nat (bitlen n - 1)) :: rat) \<le> of_int n"
    using b(1) by (simp only: of_int_le_iff)
  then show "2 powi (bitlen n - 1) \<le> (of_int n :: rat)"
    using p by (simp add: power_int_def)
  have "(of_int n :: rat) < of_int (2 ^ nat (bitlen n))"
    using b(2) by (simp only: of_int_less_iff)
  then show "(of_int n :: rat) < 2 powi bitlen n"
    using p by (simp add: power_int_def)
qed

lemma ilog2_bounds:
  assumes "0 < x"
  shows "2 powi ilog2 x \<le> x" and "x < 2 powi (ilog2 x + 1)"
proof -
  obtain n d where q: "quotient_of x = (n, d)" by (cases "quotient_of x")
  have d: "0 < d" using q by (rule quotient_of_denom_pos)
  have x: "x = of_int n / of_int d" using q by (rule quotient_of_div)
  have n: "0 < n" using assms x d by (simp add: zero_less_divide_iff)
  define k where "k = bitlen n - bitlen d"
  have il: "ilog2 x = (if x < 2 powi k then k - 1 else k)"
    by (simp add: ilog2_def q k_def Let_def)
  have dp: "0 < (of_int d :: rat)" using d by simp
  have "2 powi (k - 1) * (of_int d :: rat) \<le> 2 powi (k - 1) * 2 powi bitlen d"
    using bitlen_powi(2) [OF d] by (intro mult_left_mono) auto
  also have "\<dots> = 2 powi (bitlen n - 1)"
    by (simp add: powi_add_two [symmetric] k_def)
  also have "\<dots> \<le> of_int n" by (rule bitlen_powi(1) [OF n])
  finally have lo: "2 powi (k - 1) \<le> x"
    using dp by (simp add: x pos_le_divide_eq)
  have "(of_int n :: rat) < 2 powi bitlen n" by (rule bitlen_powi(2) [OF n])
  also have "\<dots> = 2 powi (k + 1) * 2 powi (bitlen d - 1)"
    by (simp add: powi_add_two [symmetric] k_def)
  also have "\<dots> \<le> 2 powi (k + 1) * of_int d"
    using bitlen_powi(1) [OF d] by (intro mult_left_mono) auto
  finally have hi: "x < 2 powi (k + 1)"
    using dp by (simp add: x pos_divide_less_eq)
  show "2 powi ilog2 x \<le> x" using lo by (simp add: il)
  show "x < 2 powi (ilog2 x + 1)" using hi by (simp add: il)
qed

lemma ilog2_mono:
  assumes "0 < x" and "x \<le> y"
  shows "ilog2 x \<le> ilog2 y"
proof -
  have "2 powi ilog2 x < (2::rat) powi (ilog2 y + 1)"
    using ilog2_bounds(1) [OF assms(1)] ilog2_bounds(2) [of y] assms by linarith
  then have "ilog2 x < ilog2 y + 1"
    using powi_mono_two [of "ilog2 y + 1" "ilog2 x"] by linarith
  then show ?thesis by linarith
qed

lemma quantum_mono: "0 < x \<Longrightarrow> x \<le> y \<Longrightarrow> quantum x \<le> quantum y"
  using ilog2_mono [of x y] by (simp add: quantum_def)

section \<open>Rounding to the nearest even multiple\<close>

lemma round_half_even_bounds:
  "of_int (round_half_even q) - 1 / 2 \<le> q" "q \<le> of_int (round_half_even q) + 1 / 2"
proof -
  define k where "k = \<lfloor>q\<rfloor>"
  have f: "of_int k \<le> q" "q < of_int k + 1"
    using floor_correct [of q] by (simp_all add: k_def)
  show "of_int (round_half_even q) - 1 / 2 \<le> q" "q \<le> of_int (round_half_even q) + 1 / 2"
    using f by (auto simp: round_half_even_def Let_def field_simps simp flip: k_def)
qed

lemma round_half_even_mono:
  assumes "p \<le> q"
  shows "round_half_even p \<le> round_half_even q"
proof (cases "\<lfloor>p\<rfloor> = \<lfloor>q\<rfloor>")
  case True
  then show ?thesis using assms by (auto simp: round_half_even_def Let_def)
next
  case False
  with floor_mono [OF assms] have "\<lfloor>p\<rfloor> + 1 \<le> \<lfloor>q\<rfloor>" by linarith
  moreover have "round_half_even p \<le> \<lfloor>p\<rfloor> + 1" "\<lfloor>q\<rfloor> \<le> round_half_even q"
    by (auto simp: round_half_even_def Let_def)
  ultimately show ?thesis by linarith
qed

lemma round_half_even_of_int [simp]: "round_half_even (of_int i) = i"
  by (simp add: round_half_even_def)

lemma round_half_even_le_int: "q \<le> of_int i \<Longrightarrow> round_half_even q \<le> i"
  using round_half_even_mono [of q "of_int i"] by simp

lemma round_half_even_ge_int: "of_int i \<le> q \<Longrightarrow> i \<le> round_half_even q"
  using round_half_even_mono [of "of_int i" q] by simp

section \<open>Rounding a magnitude\<close>

lemma round_mag_zero [simp]: "round_mag 0 = 0"
  by (simp add: round_mag_def)

lemma round_mag_nonneg: "0 \<le> x \<Longrightarrow> 0 \<le> round_mag x"
  using round_half_even_ge_int [of 0 "x / 2 powi quantum x"]
  by (simp add: round_mag_def)

text \<open>The error is at most half a quantum.\<close>

lemma round_mag_error:
  assumes "0 < x"
  shows "\<bar>round_mag x - x\<bar> \<le> 2 powi quantum x / 2"
proof -
  define u where "u = (2::rat) powi quantum x"
  define m where "m = round_half_even (x / u)"
  have u: "0 < u" by (simp add: u_def)
  have r: "round_mag x = of_int m * u" using assms by (simp add: round_mag_def u_def m_def)
  have "of_int m - 1 / 2 \<le> x / u" "x / u \<le> of_int m + 1 / 2"
    using round_half_even_bounds [of "x / u"] by (simp_all add: m_def)
  then have "(of_int m - 1 / 2) * u \<le> x" "x \<le> (of_int m + 1 / 2) * u"
    using u by (simp_all add: pos_le_divide_eq pos_divide_le_eq)
  then have "\<bar>of_int m * u - x\<bar> \<le> u / 2"
    unfolding abs_le_iff by (simp add: algebra_simps)
  then show ?thesis by (simp add: r flip: u_def)
qed

text \<open>
  A multiple of a power of two that is no finer than the quantum is never crossed by rounding, and
  is rounded to itself.
\<close>

lemma powi_multiple: "j \<le> k \<Longrightarrow> (2::rat) powi k = of_int (2 ^ nat (k - j)) * 2 powi j"
  using powi_add_two [of "k - j" j] by (simp add: power_int_def [of 2 "k - j"])

lemma grid_quotient:
  assumes "quantum x \<le> j"
  shows "of_int i * 2 powi j / (2::rat) powi quantum x = of_int (i * 2 ^ nat (j - quantum x))"
  using powi_multiple [OF assms] by simp

lemma round_mag_le_grid:
  assumes "0 < x" and "quantum x \<le> j" and "x \<le> of_int i * 2 powi j"
  shows "round_mag x \<le> of_int i * 2 powi j"
proof -
  define u where "u = (2::rat) powi quantum x"
  define k where "k = i * 2 ^ nat (j - quantum x)"
  have u: "0 < u" by (simp add: u_def)
  have y: "of_int i * 2 powi j = of_int k * u"
    using grid_quotient [OF assms(2), of i] u by (simp add: k_def u_def nonzero_divide_eq_eq)
  have "x / u \<le> of_int k" using assms(3) u by (simp add: y pos_divide_le_eq)
  then have "of_int (round_half_even (x / u)) * u \<le> of_int k * u"
    using u by (intro mult_right_mono) (simp_all add: round_half_even_le_int)
  then show ?thesis using assms(1) by (simp add: round_mag_def y flip: u_def)
qed

lemma round_mag_ge_grid:
  assumes "0 < x" and "quantum x \<le> j" and "of_int i * 2 powi j \<le> x"
  shows "of_int i * 2 powi j \<le> round_mag x"
proof -
  define u where "u = (2::rat) powi quantum x"
  define k where "k = i * 2 ^ nat (j - quantum x)"
  have u: "0 < u" by (simp add: u_def)
  have y: "of_int i * 2 powi j = of_int k * u"
    using grid_quotient [OF assms(2), of i] u by (simp add: k_def u_def nonzero_divide_eq_eq)
  have "of_int k \<le> x / u" using assms(3) u by (simp add: y pos_le_divide_eq)
  then have "of_int k * u \<le> of_int (round_half_even (x / u)) * u"
    using u by (intro mult_right_mono) (simp_all add: round_half_even_ge_int)
  then show ?thesis using assms(1) by (simp add: round_mag_def y flip: u_def)
qed

lemma round_mag_grid_exact:
  assumes "0 < of_int i * (2::rat) powi j" and "quantum (of_int i * 2 powi j) \<le> j"
  shows "round_mag (of_int i * 2 powi j) = of_int i * 2 powi j"
  using round_mag_le_grid [OF assms order_refl] round_mag_ge_grid [OF assms order_refl]
  by (rule antisym)

lemma round_mag_mono:
  assumes "0 \<le> x" and "x \<le> y"
  shows "round_mag x \<le> round_mag y"
proof (cases "x = 0")
  case True
  then show ?thesis using assms round_mag_nonneg [of y] by simp
next
  case False
  then have x: "0 < x" and y: "0 < y" using assms by auto
  show ?thesis
  proof (cases "quantum x = quantum y")
    case True
    then have "round_half_even (x / 2 powi quantum y) \<le> round_half_even (y / 2 powi quantum y)"
      using assms(2) by (intro round_half_even_mono divide_right_mono) auto
    then show ?thesis
      using x y True by (simp add: round_mag_def mult_right_mono)
  next
    case neq: False
    with quantum_mono [OF x assms(2)] have lt: "quantum x < quantum y" by simp
    then have q: "quantum y = ilog2 y - 52" by (auto simp: quantum_def)
    have "ilog2 x + 1 \<le> quantum y + 52" using lt by (auto simp: quantum_def)
    then have "x \<le> of_int 1 * 2 powi (quantum y + 52)"
      using ilog2_bounds(2) [OF x] powi_mono_two [of "ilog2 x + 1" "quantum y + 52"] by simp
    moreover have "of_int 1 * 2 powi (quantum y + 52) \<le> y"
      using ilog2_bounds(1) [OF y] by (simp add: q)
    ultimately have "round_mag x \<le> of_int 1 * 2 powi (quantum y + 52)"
      and "of_int 1 * 2 powi (quantum y + 52) \<le> round_mag y"
      using lt round_mag_le_grid [OF x, of _ 1] round_mag_ge_grid [OF y, of _ 1] by auto
    then show ?thesis by linarith
  qed
qed

lemma quantum_below_powi: "0 < x \<Longrightarrow> x < 2 powi k \<Longrightarrow> quantum x \<le> max (- 1074) (k - 53)"
proof -
  assume x: "0 < x" "x < 2 powi k"
  then have "2 powi ilog2 x < (2::rat) powi k" using ilog2_bounds(1) [of x] by linarith
  then have "ilog2 x < k" using powi_mono_two [of k "ilog2 x"] by linarith
  then show ?thesis by (auto simp: quantum_def)
qed

lemma round_mag_of_nat [simp]:
  assumes "n < 2 ^ 53"
  shows "round_mag (of_nat n) = of_nat n"
proof (cases "n = 0")
  case False
  have "(of_nat n :: rat) < of_nat (2 ^ 53)" using assms by (simp only: of_nat_less_iff)
  then have "quantum (of_nat n) \<le> 0"
    using quantum_below_powi [of "of_nat n" 53] False by (simp add: power_int_def)
  then show ?thesis
    using round_mag_grid_exact [of "int n" 0] False by simp
qed simp

text \<open>Below one the error is at most \<open>2 powi -54\<close>.\<close>

lemma round_mag_error_unit:
  assumes "0 \<le> x" and "x < 1"
  shows "\<bar>round_mag x - x\<bar> \<le> 1 / 2 ^ 54"
proof (cases "x = 0")
  case False
  with assms have x: "0 < x" by simp
  have "quantum x \<le> - 53" using quantum_below_powi [of x 0] x assms by simp
  then have "2 powi quantum x \<le> (2::rat) powi - 53" by (rule powi_mono_two)
  then have "2 powi quantum x / 2 \<le> (2::rat) powi - 53 / 2" by simp
  also have "\<dots> = 1 / 2 ^ 54" by (simp add: power_int_def power_one_over)
  finally show ?thesis using round_mag_error [OF x] by linarith
qed simp

text \<open>Every fraction with a power of two below it and a 53-bit numerator is a binary64 value.\<close>

lemma round_mag_dyadic:
  assumes "n < 2 ^ 53" and "k \<le> 1074"
  shows "round_mag (of_nat n / 2 ^ k) = of_nat n / 2 ^ k"
proof (cases "n = 0")
  case False
  have p: "(2::rat) powi - int k = 1 / 2 ^ k"
    by (simp add: power_int_minus divide_inverse)
  have eq: "of_nat n / 2 ^ k = of_int (int n) * (2::rat) powi - int k"
    by (simp add: p)
  have "(of_nat n :: rat) < of_nat (2 ^ 53)" using assms(1) by (simp only: of_nat_less_iff)
  then have "of_nat n * (2::rat) powi - int k < 2 powi 53 * 2 powi - int k"
    by (intro mult_strict_right_mono) (simp_all add: power_int_def)
  also have "2 powi 53 * 2 powi - int k = (2::rat) powi (53 - int k)"
    by (simp only: powi_add_two [symmetric] diff_conv_add_uminus)
  finally have "of_int (int n) * (2::rat) powi - int k < 2 powi (53 - int k)"
    by simp
  then have "quantum (of_int (int n) * 2 powi - int k) \<le> - int k"
    using quantum_below_powi [of "of_int (int n) * 2 powi - int k" "53 - int k"] False assms(2)
    by simp
  then show ?thesis
    unfolding eq using False by (intro round_mag_grid_exact) simp_all
qed simp

section \<open>The interface of rounding\<close>

text \<open>
  What the order generator and the latency injection rely on: a rounding of magnitudes that is
  monotone, exact on short dyadic fractions, and close below one.
\<close>

locale nearest_rounding =
  fixes R :: "rat \<Rightarrow> rat"
  assumes R_mono: "0 \<le> x \<Longrightarrow> x \<le> y \<Longrightarrow> R x \<le> R y"
    and R_dyadic: "n < 2 ^ 53 \<Longrightarrow> k \<le> 1074 \<Longrightarrow> R (of_nat n / 2 ^ k) = of_nat n / 2 ^ k"
    and R_close: "0 \<le> x \<Longrightarrow> x < 1 \<Longrightarrow> \<bar>R x - x\<bar> \<le> 1 / 2 ^ 54"
begin

lemma R_of_nat: "n < 2 ^ 53 \<Longrightarrow> R (of_nat n) = of_nat n"
  using R_dyadic [of n 0] by simp

lemma R_half: "n < 2 ^ 53 \<Longrightarrow> R (of_nat n / 2) = of_nat n / 2"
  using R_dyadic [of n 1] by simp

lemma R_le_of_nat: "0 \<le> x \<Longrightarrow> x \<le> of_nat n \<Longrightarrow> n < 2 ^ 53 \<Longrightarrow> R x \<le> of_nat n"
  using R_mono [of x "of_nat n"] R_of_nat [of n] by simp

lemma R_ge_half: "of_nat n / 2 \<le> x \<Longrightarrow> n < 2 ^ 53 \<Longrightarrow> of_nat n / 2 \<le> R x"
  using R_mono [of "of_nat n / 2" x] R_half [of n] by simp

text \<open>Two magnitudes further apart than the two errors stay in order, strictly.\<close>

lemma R_strict:
  assumes "0 \<le> x" and "y < 1" and "x + 1 / 2 ^ 52 \<le> y"
  shows "R x < R y"
proof -
  have "0 \<le> y" and "x < 1" using assms by auto
  then have "\<bar>R x - x\<bar> \<le> 1 / 2 ^ 54" and "\<bar>R y - y\<bar> \<le> 1 / 2 ^ 54"
    using R_close assms by auto
  then have "R x \<le> x + 1 / 2 ^ 54" and "y - 1 / 2 ^ 54 \<le> R y" by linarith+
  moreover have "(1::rat) / 2 ^ 54 + 1 / 2 ^ 54 < 1 / 2 ^ 52" by simp
  ultimately show ?thesis using assms(3) by linarith
qed

lemma R_strict_one:
  assumes "0 \<le> x" and "x + 1 / 2 ^ 52 \<le> 1"
  shows "R x < 1"
proof -
  have "x < 1" using assms(2) by simp
  then have "R x \<le> x + 1 / 2 ^ 54" using R_close [of x] assms(1) by linarith
  moreover have "(1::rat) / 2 ^ 54 < 1 / 2 ^ 52" by simp
  ultimately show ?thesis using assms(2) by linarith
qed

end

interpretation binary64: nearest_rounding round_mag
  by unfold_locales (rule round_mag_mono round_mag_dyadic round_mag_error_unit; assumption)+

section \<open>Finite results\<close>

lemma round_mag_no_overflow:
  assumes "0 \<le> x" and "x \<le> 2 ^ 1023"
  shows "round_mag x < f64_overflow"
proof (cases "x = 0")
  case True
  then show ?thesis by (simp add: f64_overflow_def)
next
  case False
  then have x: "0 < x" using assms by simp
  have le: "x \<le> of_int 1 * 2 powi 1023" using assms(2) by (simp add: power_int_def)
  have lt: "of_int 1 * 2 powi 1023 < (2::rat) powi 1024" by (simp add: power_int_def)
  have "quantum x \<le> 1023"
    using quantum_below_powi [OF x order_le_less_trans [OF le lt]] by simp
  then have "round_mag x \<le> of_int 1 * 2 powi 1023" using le by (rule round_mag_le_grid [OF x])
  with lt show ?thesis by (simp add: f64_overflow_def power_int_def)
qed

lemma round64_num:
  "0 \<le> x \<Longrightarrow> x \<le> 2 ^ 1023 \<Longrightarrow> round64 x = F64_Num False (round_mag x)"
  by (simp add: round64_def Let_def round_mag_no_overflow)

lemma f64_of_nat_num: "n < 2 ^ 53 \<Longrightarrow> f64_of_nat n = F64_Num False (of_nat n)"
proof -
  assume n: "n < 2 ^ 53"
  then have "(of_nat n :: rat) < of_nat (2 ^ 53)" by (simp only: of_nat_less_iff)
  also have "\<dots> \<le> (2::rat) ^ 1023" by simp
  finally show ?thesis using n by (simp add: f64_of_nat_def round64_num)
qed

lemma div64_num:
  assumes "0 \<le> m" and "0 < n" and "m / n \<le> 2 ^ 1023"
  shows "div64 (F64_Num False m) (F64_Num False n) = F64_Num False (round_mag (m / n))"
  using assms by (simp add: Let_def round_mag_no_overflow)

lemma add64_num:
  assumes "0 \<le> m" and "0 < n" and "m + n \<le> 2 ^ 1023"
  shows "add64 (F64_Num False m) (F64_Num False n) = F64_Num False (round_mag (m + n))"
  using assms by (simp add: Let_def round64_num)

text \<open>
  \<open><\<close> and \<open>\<le>\<close> on \<^typ>\<open>f64\<close> are the comparisons of the language; they are no linear order
  (NaN is not comparable with anything), so the instance stops at class \<open>ord\<close>.
\<close>

instantiation f64 :: ord
begin

definition less_f64 :: "f64 \<Rightarrow> f64 \<Rightarrow> bool" where
  "less_f64 = lt64"

definition less_eq_f64 :: "f64 \<Rightarrow> f64 \<Rightarrow> bool" where
  "less_eq_f64 = le64"

instance ..

end

lemma f64_num_less [simp]:
  "F64_Num s m < F64_Num t n \<longleftrightarrow> f64_val (F64_Num s m) < f64_val (F64_Num t n)"
  by (simp add: less_f64_def)

lemma f64_num_le [simp]:
  "F64_Num s m \<le> F64_Num t n \<longleftrightarrow> f64_val (F64_Num s m) \<le> f64_val (F64_Num t n)"
  by (simp add: less_eq_f64_def)

lemma f64_nan_less [simp]: "\<not> F64_NaN < x" "\<not> x < F64_NaN"
  by (simp_all add: less_f64_def) (cases x; simp)

lemma f64_nan_le [simp]: "\<not> F64_NaN \<le> x" "\<not> x \<le> F64_NaN"
  by (simp_all add: less_eq_f64_def) (cases x; simp)

lemma f64_less_irrefl [simp]: "\<not> x < (x :: f64)"
  by (cases x) (auto simp: less_f64_def)

lemma f64_less_trans: "x < y \<Longrightarrow> y < z \<Longrightarrow> x < (z :: f64)"
  by (cases x; cases y; cases z) (auto simp: less_f64_def)

lemma f64_inf_less_num [simp]:
  "F64_Inf s < F64_Num t m \<longleftrightarrow> s"
  "F64_Num t m < F64_Inf s \<longleftrightarrow> \<not> s"
  "F64_Inf s < F64_Inf u \<longleftrightarrow> s \<and> \<not> u"
  by (simp_all add: less_f64_def)

lemma f64_inf_le_num [simp]:
  "F64_Inf s \<le> F64_Num t m \<longleftrightarrow> s"
  "F64_Num t m \<le> F64_Inf s \<longleftrightarrow> \<not> s"
  "F64_Inf s \<le> F64_Inf u \<longleftrightarrow> (u \<longrightarrow> s)"
  by (simp_all add: less_eq_f64_def)

text \<open>Literals.\<close>

lemma f64_lit_small: "0 \<le> x \<Longrightarrow> x \<le> 2 ^ 53 \<Longrightarrow> f64_lit x = F64_Num False (round_mag x)"
proof -
  assume "0 \<le> x" and le: "x \<le> 2 ^ 53"
  moreover from le have "x \<le> 2 ^ 1023" by (rule order_trans) simp
  ultimately show ?thesis by (simp add: f64_lit_def round64_num)
qed

lemma f64_lit_nat: "n < 2 ^ 53 \<Longrightarrow> f64_lit (of_nat n) = F64_Num False (of_nat n)"
  using f64_of_nat_num [of n] by (simp add: f64_lit_def f64_of_nat_def)

end
