(* ===== verification/Rust_Std.thy ===== *)
theory Rust_Std
  imports Float64
begin

text \<open>
  What the program uses of Rust's standard library besides \<open>f64\<close>: decimal formatting and the
  integer parsers with their error kinds, \<open>str::strip_prefix\<close>, UTF-8 validation
  (\<open>std::str::from_utf8\<close>), \<open>Duration\<close> with its panicking addition, \<open>i64::try_from\<close>, and
  \<open>std::io::Error\<close>. The decimal printer and the UTF-8 encoder are interpretations of the encoder
  interface.
\<close>

section \<open>Decimal numbers\<close>

definition digit_char :: "nat \<Rightarrow> char" where
  "digit_char d = char_of (48 + d)"

definition char_digit :: "char \<Rightarrow> nat option" where
  "char_digit c = (let n = of_char c in if 48 \<le> n \<and> n \<le> 57 then Some (n - 48) else None)"

lemma char_digit_digit_char [simp]: "d < 10 \<Longrightarrow> char_digit (digit_char d) = Some d"
  by (simp add: char_digit_def digit_char_def)

text \<open>\<open>{i}\<close>: the decimal digits, no leading zero.\<close>

fun show_nat :: "nat \<Rightarrow> string" where
  "show_nat n = (if n < 10 then [digit_char n] else show_nat (n div 10) @ [digit_char (n mod 10)])"

declare show_nat.simps [simp del]

text \<open>\<open>{i:010}\<close>: padded with zeros on the left to the width.\<close>

definition show_padded :: "nat \<Rightarrow> nat \<Rightarrow> string" where
  "show_padded w n = replicate (w - length (show_nat n)) CHR ''0'' @ show_nat n"

datatype int_error = Empty | InvalidDigit | PosOverflow | Zero

text \<open>\<open>ParseIntError\<close>'s messages.\<close>

fun int_error_text :: "int_error \<Rightarrow> string" where
  "int_error_text Empty = ''cannot parse integer from empty string''"
| "int_error_text InvalidDigit = ''invalid digit found in string''"
| "int_error_text PosOverflow = ''number too large to fit in target type''"
| "int_error_text Zero = ''number would be zero for non-zero type''"

text \<open>The digit loop of \<open>u64::from_str\<close>: the first bad digit or overflow decides.\<close>

fun parse_digits :: "nat \<Rightarrow> string \<Rightarrow> int_error + nat" where
  "parse_digits acc [] = Inr acc"
| "parse_digits acc (c # cs) =
     (case char_digit c of None \<Rightarrow> Inl InvalidDigit
      | Some d \<Rightarrow> if 10 * acc + d < 2 ^ 64 then parse_digits (10 * acc + d) cs else Inl PosOverflow)"

definition parse_unsigned :: "string \<Rightarrow> int_error + nat" where
  "parse_unsigned s =
     (case s of [] \<Rightarrow> Inl Empty
      | c # cs \<Rightarrow>
          if (c = CHR ''+'' \<or> c = CHR ''-'') \<and> cs = [] then Inl InvalidDigit
          else if c = CHR ''+'' then parse_digits 0 cs
          else parse_digits 0 s)"

text \<open>\<open>u64\<close> and, on the 64-bit targets the image is built for, \<open>usize\<close>.\<close>

definition parse_u64 :: "string \<Rightarrow> int_error + u64" where
  "parse_u64 s = (case parse_unsigned s of Inl e \<Rightarrow> Inl e | Inr n \<Rightarrow> Inr (of_nat n))"

definition parse_nonzero_usize :: "string \<Rightarrow> int_error + nat" where
  "parse_nonzero_usize s =
     bind_res (parse_unsigned s) (\<lambda>n. if n = 0 then Inl Zero else Inr n)"

definition strip_prefix :: "string \<Rightarrow> string \<Rightarrow> string option" where
  "strip_prefix p s = (if take (length p) s = p then Some (drop (length p) s) else None)"

lemma strip_prefix_append [simp]: "strip_prefix p (p @ s) = Some s"
  by (simp add: strip_prefix_def)

text \<open>\<open>str::contains\<close>\<close>

definition contains :: "string \<Rightarrow> string \<Rightarrow> bool" where
  "contains needle s \<longleftrightarrow> list_ex (\<lambda>i. take (length needle) (drop i s) = needle) [0..<Suc (length s)]"

lemma containsI: "contains needle (pre @ needle @ post)"
  by (auto simp: contains_def list_ex_iff intro!: bexI [of _ "length pre"])

lemma contains_append:
  assumes "contains needle s"
  shows "contains needle (pre @ s @ post)"
proof -
  obtain i where "take (length needle) (drop i s) = needle"
    using assms by (auto simp: contains_def list_ex_iff)
  then have "s = take i s @ needle @ drop (length needle) (drop i s)"
    by (metis append_take_drop_id)
  then have "pre @ s @ post = (pre @ take i s) @ needle @ (drop (length needle) (drop i s) @ post)"
    by (metis append.assoc)
  then show ?thesis using containsI by metis
qed

lemma contains_concat: "s \<in> set ss \<Longrightarrow> contains needle s \<Longrightarrow> contains needle (concat ss)"
  by (metis contains_append concat.simps(2) concat_append split_list)

subsection \<open>Reading back a printed number\<close>

lemma show_nat_nonempty [simp]: "show_nat n \<noteq> []"
  by (subst show_nat.simps) simp

lemma parse_digits_append:
  "parse_digits acc (xs @ ys) = bind_res (parse_digits acc xs) (\<lambda>a. parse_digits a ys)"
  by (induction acc xs rule: parse_digits.induct) (auto split: option.split)

lemma parse_digits_show_nat: "n < 2 ^ 64 \<Longrightarrow> parse_digits 0 (show_nat n) = Inr n"
proof (induction n rule: show_nat.induct)
  case (1 n)
  show ?case
  proof (cases "n < 10")
    case True
    then show ?thesis by (subst show_nat.simps) simp
  next
    case False
    with 1 have "parse_digits 0 (show_nat (n div 10)) = Inr (n div 10)" by simp
    then show ?thesis
      using False "1.prems" by (subst show_nat.simps) (simp add: parse_digits_append)
  qed
qed

lemma char_digit_zero [simp]: "char_digit CHR ''0'' = Some 0"
  by (simp add: char_digit_def)

lemma parse_digits_zeros [simp]: "parse_digits 0 (replicate k CHR ''0'' @ s) = parse_digits 0 s"
  by (induction k) simp_all

lemma show_nat_digits: "c \<in> set (show_nat n) \<Longrightarrow> \<exists>d<10. c = digit_char d"
proof (induction n rule: show_nat.induct)
  case (1 n)
  show ?case
  proof (cases "n < 10")
    case True
    then show ?thesis using "1.prems" by (subst (asm) show_nat.simps) auto
  next
    case False
    then have "c \<in> set (show_nat (n div 10)) \<or> c = digit_char (n mod 10)"
      using "1.prems" by (subst (asm) show_nat.simps) auto
    moreover have "n mod 10 < 10" by simp
    ultimately show ?thesis using "1.IH" False by blast
  qed
qed

lemma char_digit_not_sign: "char_digit c = Some d \<Longrightarrow> c \<noteq> CHR ''+'' \<and> c \<noteq> CHR ''-''"
  by (auto simp: char_digit_def)

lemma parse_unsigned_digits:
  assumes "s \<noteq> []" and "parse_digits 0 s = Inr n"
  shows "parse_unsigned s = Inr n"
proof (cases s)
  case (Cons c cs)
  with assms(2) obtain d where "char_digit c = Some d" by (auto split: option.splits)
  then show ?thesis using Cons assms(2) by (auto simp: parse_unsigned_def dest: char_digit_not_sign)
qed (use assms in simp)

lemma parse_unsigned_padded: "n < 2 ^ 64 \<Longrightarrow> parse_unsigned (show_padded w n) = Inr n"
  by (intro parse_unsigned_digits) (simp_all add: show_padded_def parse_digits_show_nat)

lemma parse_u64_padded: "parse_u64 (show_padded w (unat i)) = Inr i"
  using parse_unsigned_padded [of "unat i" w, OF unat_u64_bound] by (simp add: parse_u64_def)

lemma parse_digits_bound: "acc < 2 ^ 64 \<Longrightarrow> parse_digits acc s = Inr n \<Longrightarrow> n < 2 ^ 64"
  by (induction acc s rule: parse_digits.induct) (auto split: option.splits if_splits)

section \<open>UTF-8\<close>

definition utf8_cont :: "byte \<Rightarrow> bool" where
  "utf8_cont b \<longleftrightarrow> 0x80 \<le> b \<and> b \<le> 0xBF"

text \<open>The well-formed byte sequences, as \<open>core::str::validations\<close> accepts them.\<close>

fun utf8_valid :: "bytes \<Rightarrow> bool" where
  "utf8_valid [] = True"
| "utf8_valid (a # r) =
     (if a < 0x80 then utf8_valid r
      else if 0xC2 \<le> a \<and> a \<le> 0xDF then
        (case r of b # r1 \<Rightarrow> utf8_cont b \<and> utf8_valid r1 | [] \<Rightarrow> False)
      else if 0xE0 \<le> a \<and> a \<le> 0xEF then
        (case r of b # c # r2 \<Rightarrow>
           utf8_cont b \<and> (a = 0xE0 \<longrightarrow> 0xA0 \<le> b) \<and> (a = 0xED \<longrightarrow> b \<le> 0x9F) \<and> utf8_cont c \<and> utf8_valid r2
         | _ \<Rightarrow> False)
      else if 0xF0 \<le> a \<and> a \<le> 0xF4 then
        (case r of b # c # d # r3 \<Rightarrow>
           utf8_cont b \<and> (a = 0xF0 \<longrightarrow> 0x90 \<le> b) \<and> (a = 0xF4 \<longrightarrow> b \<le> 0x8F) \<and> utf8_cont c \<and> utf8_cont d \<and>
           utf8_valid r3
         | _ \<Rightarrow> False)
      else False)"

definition string_bytes :: "string \<Rightarrow> bytes" where
  "string_bytes s = map (\<lambda>c. of_nat (of_char c)) s"

definition bytes_string :: "bytes \<Rightarrow> string" where
  "bytes_string bs = map (\<lambda>b. char_of (unat b)) bs"

definition from_utf8 :: "bytes \<Rightarrow> string option" where
  "from_utf8 bs = (if utf8_valid bs then Some (bytes_string bs) else None)"

text \<open>Every Rust string is valid UTF-8: the invariant of \<open>str\<close>.\<close>

definition valid_str :: "string \<Rightarrow> bool" where
  "valid_str s \<longleftrightarrow> utf8_valid (string_bytes s)"

lemma bytes_string_inverse [simp]: "bytes_string (string_bytes s) = s"
proof -
  have "char_of (unat (of_nat (of_char c) :: byte)) = c" for c
    by (simp add: unat_of_nat)
  then show ?thesis by (simp add: bytes_string_def string_bytes_def comp_def)
qed

lemma from_utf8_string_bytes: "valid_str s \<Longrightarrow> from_utf8 (string_bytes s) = Some s"
  by (simp add: from_utf8_def valid_str_def)

interpretation utf8: codec string_bytes from_utf8 "\<lambda>s. s" valid_str
  by unfold_locales (rule from_utf8_string_bytes)

lemma ascii_valid_str:
  assumes "\<forall>c \<in> set s. (of_char c :: nat) < 128"
  shows "valid_str s"
  using assms
proof (induction s)
  case (Cons c s)
  then have "(of_nat (of_char c) :: byte) < 0x80"
    by (simp add: word_less_nat_alt unat_of_nat)
  with Cons show ?case by (simp add: valid_str_def string_bytes_def)
qed (simp add: valid_str_def string_bytes_def)

section \<open>Durations\<close>

text \<open>
  A \<open>Duration\<close> is its number of nanoseconds; seconds are a \<open>u64\<close>, so there is a largest one.
  \<open>+\<close> panics beyond it: \<^const>\<open>None\<close>.
\<close>

type_synonym duration = nat

definition duration_max :: duration where
  "duration_max = (2 ^ 64 - 1) * 10 ^ 9 + 999999999"

definition duration_add :: "duration \<Rightarrow> duration \<Rightarrow> duration option" where
  "duration_add a b = (if a + b \<le> duration_max then Some (a + b) else None)"

definition from_millis :: "nat \<Rightarrow> duration" where
  "from_millis ms = ms * 10 ^ 6"

definition from_secs :: "nat \<Rightarrow> duration" where
  "from_secs s = s * 10 ^ 9"

definition as_secs_f64 :: "duration \<Rightarrow> f64" where
  "as_secs_f64 d =
     add64 (f64_of_nat (d div 10 ^ 9)) (div64 (f64_of_nat (d mod 10 ^ 9)) (f64_of_nat (10 ^ 9)))"

section \<open>Conversions and errors\<close>

definition i64_max :: i64 where
  "i64_max = 2 ^ 63 - 1"

definition i32_max :: nat where
  "i32_max = 2 ^ 31 - 1"

text \<open>\<open>i64::try_from(u64).unwrap_or(i64::MAX)\<close>\<close>

definition i64_from_u64_or_max :: "u64 \<Rightarrow> i64" where
  "i64_from_u64_or_max n = (if n \<le> i64_max then n else i64_max)"

text \<open>
  \<open>std::io::Error\<close> of kind \<open>InvalidInput\<close> (the only kind the program makes), by its message: the
  text it was made from, or the display of the error it wraps.
\<close>

datatype io_error = InvalidInput string

end
