(* ===== verification/Orders.thy ===== *)
theory Orders
  imports Rust_Std
begin

text \<open>
  \<open>crates/observability-demo-app/src/lib.rs\<close>: the deterministic order generator \<open>order_at\<close> and
  the business rules \<open>is_anomalous\<close>, \<open>is_suspicious\<close> and \<open>classify_outcome\<close>. The record
  is the message of \<open>proto/order.proto\<close>. The second half proves what the generator promises of
  every order, and offers it to the scheduler as the interface \<open>keyed_source\<close>.
\<close>

section \<open>Orders\<close>

record order =
  order_id :: string
  category :: string
  amount :: f64
  currency :: string
  ts_ms :: i64
  region :: string
  payment_method :: string
  quantity :: i32
  customer_tier :: string
  warehouse :: string

definition CATEGORIES :: "string list" where
  "CATEGORIES = [''books'', ''electronics'', ''grocery'', ''toys'', ''garden'']"

definition REGIONS :: "string list" where
  "REGIONS = [''us-east'', ''us-west'', ''eu-west'', ''ap-south'']"

definition WAREHOUSES :: "string list" where
  "WAREHOUSES = [''wh-atl'', ''wh-sjc'', ''wh-fra'', ''wh-blr'']"

definition PAYMENT_METHODS :: "string list" where
  "PAYMENT_METHODS = [''card'', ''paypal'', ''wire'', ''crypto'']"

definition CUSTOMER_TIERS :: "string list" where
  "CUSTOMER_TIERS = [''free'', ''pro'', ''enterprise'']"

text \<open>
  The closure \<open>idx\<close>: \<open>usize::try_from((i / div) % len as u64).unwrap_or(0)\<close>; a \<open>u64\<close> always
  fits the 64-bit \<open>usize\<close>.
\<close>

definition order_idx :: "u64 \<Rightarrow> nat \<Rightarrow> nat \<Rightarrow> nat" where
  "order_idx i len dv = unat ((i div of_nat dv) mod of_nat len)"

definition order_quantity :: "u64 \<Rightarrow> i32" where
  "order_quantity i =
     (let q = unat (1 + i mod 5) in if q \<le> i32_max then of_nat q else 1)"

definition order_amount :: "u64 \<Rightarrow> f64" where
  "order_amount i =
     (if i mod 17 = 0 then f64_zero
      else let r = unat (i mod 200); dollars = f64_of_nat (if r < 2 ^ 32 then r else 0)
           in add64 dollars (f64_lit (99 / 100)))"

definition order_at :: "u64 \<Rightarrow> order" where
  "order_at i =
     (let region_i = order_idx i (length REGIONS) 2 in
      \<lparr>order_id = ''o-'' @ show_padded 10 (unat i),
       category = CATEGORIES ! order_idx i (length CATEGORIES) 1,
       amount = order_amount i,
       currency = ''USD'',
       ts_ms = 0,
       region = REGIONS ! region_i,
       payment_method = PAYMENT_METHODS ! order_idx i (length PAYMENT_METHODS) 3,
       quantity = order_quantity i,
       customer_tier = CUSTOMER_TIERS ! order_idx i (length CUSTOMER_TIERS) 7,
       warehouse = WAREHOUSES ! region_i\<rparr>)"

section \<open>Business rules\<close>

definition is_anomalous :: "order \<Rightarrow> bool" where
  "is_anomalous ord \<longleftrightarrow> abs64 (amount ord) < f64_epsilon"

definition is_suspicious :: "order \<Rightarrow> bool" where
  "is_suspicious ord \<longleftrightarrow> payment_method ord = ''crypto'' \<and> f64_lit 150 < amount ord"

definition classify_outcome :: "order \<Rightarrow> string" where
  "classify_outcome ord =
     (if is_anomalous ord then ''anomalous''
      else if is_suspicious ord then ''fraud_rejected''
      else ''fulfilled'')"

section \<open>The tables and their indices\<close>

lemmas order_tables =
  CATEGORIES_def REGIONS_def WAREHOUSES_def PAYMENT_METHODS_def CUSTOMER_TIERS_def

lemma table_lengths [simp]:
  "length CATEGORIES = 5" "length REGIONS = 4" "length WAREHOUSES = 4"
  "length PAYMENT_METHODS = 4" "length CUSTOMER_TIERS = 3"
  by (simp_all add: order_tables)

lemma order_idx_unat:
  assumes "len < 2 ^ 64" and "dv < 2 ^ 64"
  shows "order_idx i len dv = unat i div dv mod len"
  using assms by (simp add: order_idx_def unat_mod unat_div unat_of_nat)

lemma order_idx_bound:
  assumes "0 < len" and "len < 2 ^ 64" and "dv < 2 ^ 64"
  shows "order_idx i len dv < len"
  using assms by (simp add: order_idx_unat)

lemma order_at_simps [simp]:
  "order_id (order_at i) = ''o-'' @ show_padded 10 (unat i)"
  "category (order_at i) = CATEGORIES ! (unat i mod 5)"
  "amount (order_at i) = order_amount i"
  "currency (order_at i) = ''USD''"
  "ts_ms (order_at i) = 0"
  "region (order_at i) = REGIONS ! (unat i div 2 mod 4)"
  "payment_method (order_at i) = PAYMENT_METHODS ! (unat i div 3 mod 4)"
  "quantity (order_at i) = order_quantity i"
  "customer_tier (order_at i) = CUSTOMER_TIERS ! (unat i div 7 mod 3)"
  "warehouse (order_at i) = WAREHOUSES ! (unat i div 2 mod 4)"
  by (simp_all add: order_at_def Let_def order_idx_unat)

lemma order_quantity_value: "order_quantity i = of_nat (1 + unat i mod 5)"
proof -
  have "unat (1 + i mod 5) = 1 + unat i mod 5"
    by (subst unat_add_lem [THEN iffD1]) (simp_all add: unat_mod)
  then show ?thesis by (simp add: order_quantity_def i32_max_def)
qed

lemma small_quantity:
  assumes "n < 5"
  shows "sint (of_nat (1 + n) :: i32) = 1 + int n" "unat (of_nat (1 + n) :: i32) = 1 + n"
proof -
  from assms consider "n = 0" | "n = 1" | "n = 2" | "n = 3" | "n = 4" by linarith
  then show "sint (of_nat (1 + n) :: i32) = 1 + int n" by cases simp_all
  from assms show "unat (of_nat (1 + n) :: i32) = 1 + n" by (subst unat_of_nat) simp
qed

section \<open>Amounts\<close>

text \<open>Half a dollar to a dollar: what \<open>0.99\<close> is read as.\<close>

lemma cents_bounds:
  "1 / 2 \<le> round_mag (99 / 100)" "round_mag (99 / 100) \<le> 1"
  using binary64.R_ge_half [of 1 "99 / 100"] binary64.R_le_of_nat [of "99 / 100" 1] by simp_all

lemma f64_lit_numeral [simp]:
  "(numeral k :: nat) < 2 ^ 53 \<Longrightarrow> f64_lit (numeral k) = F64_Num False (numeral k)"
  "f64_lit 1 = F64_Num False 1"
  using f64_lit_nat [of "numeral k"] f64_lit_nat [of 1] by simp_all

definition regular_amount :: "nat \<Rightarrow> rat" where
  "regular_amount k = round_mag (of_nat k + round_mag (99 / 100))"

lemma order_amount_regular:
  assumes "unat i mod 17 \<noteq> 0"
  shows "order_amount i = F64_Num False (regular_amount (unat i mod 200))"
proof -
  have "unat (i mod 17) = unat i mod 17" by (simp add: unat_mod)
  with assms have ne: "i mod 17 \<noteq> 0" by (metis unsigned_0)
  have k: "unat (i mod 200) = unat i mod 200" "unat i mod 200 < 200"
    by (simp_all add: unat_mod)
  have le: "(of_nat (unat i mod 200) :: rat) + round_mag (99 / 100) \<le> 2 ^ 1023"
  proof -
    have "(of_nat (unat i mod 200) :: rat) \<le> of_nat 200" using k(2) by (simp only: of_nat_le_iff)
    then have "of_nat (unat i mod 200) + round_mag (99 / 100) \<le> 201" using cents_bounds(2) by simp
    also have "\<dots> \<le> (2::rat) ^ 1023" by simp
    finally show ?thesis .
  qed
  have "order_amount i = add64 (f64_of_nat (unat i mod 200)) (f64_lit (99 / 100))"
    using ne k by (simp add: order_amount_def Let_def)
  also have "\<dots> = add64 (F64_Num False (of_nat (unat i mod 200))) (F64_Num False (round_mag (99 / 100)))"
    using k(2) by (simp add: f64_of_nat_num f64_lit_small)
  also have "\<dots> = F64_Num False (regular_amount (unat i mod 200))"
    unfolding regular_amount_def using cents_bounds(1) le by (intro add64_num) auto
  finally show ?thesis .
qed

lemma order_amount_anomaly: "unat i mod 17 = 0 \<Longrightarrow> order_amount i = F64_Num False 0"
  by (simp add: order_amount_def f64_zero_def word_unat_eq_iff unat_mod)

lemma regular_amount_bounds:
  assumes "k < 200"
  shows "1 / 2 \<le> regular_amount k" "regular_amount k \<le> 200"
proof -
  have "(of_nat k :: rat) + round_mag (99 / 100) \<le> of_nat 200"
    using assms cents_bounds(2) of_nat_le_iff [of "Suc k" 200, where ?'a = rat] by simp
  then show "regular_amount k \<le> 200"
    using binary64.R_le_of_nat [of "of_nat k + round_mag (99 / 100)" 200] cents_bounds(1)
    by (simp add: regular_amount_def)
  show "1 / 2 \<le> regular_amount k"
    using binary64.R_ge_half [of 1 "of_nat k + round_mag (99 / 100)"] cents_bounds(1)
    by (simp add: regular_amount_def)
qed

lemma regular_amount_above_150: "150 < regular_amount k \<longleftrightarrow> 150 \<le> k"
proof (cases "150 \<le> k")
  case True
  then have "(of_nat 301 :: rat) / 2 \<le> of_nat k + round_mag (99 / 100)"
    using cents_bounds(1) of_nat_le_iff [of 150 k, where ?'a = rat] by simp
  then have "of_nat 301 / 2 \<le> regular_amount k"
    unfolding regular_amount_def by (rule binary64.R_ge_half) simp
  with True show ?thesis by simp
next
  case False
  then have "(of_nat k :: rat) + round_mag (99 / 100) \<le> of_nat 150"
    using cents_bounds(2) of_nat_le_iff [of "Suc k" 150, where ?'a = rat] by simp
  then have "regular_amount k \<le> of_nat 150"
    unfolding regular_amount_def using cents_bounds(1)
    by (intro binary64.R_le_of_nat) auto
  with False show ?thesis by simp
qed

lemma is_anomalous_order_at: "is_anomalous (order_at i) \<longleftrightarrow> unat i mod 17 = 0"
proof (cases "unat i mod 17 = 0")
  case True
  then show ?thesis
    by (simp add: is_anomalous_def order_amount_anomaly f64_epsilon_def)
next
  case False
  have "1 / 2 \<le> regular_amount (unat i mod 200)" by (rule regular_amount_bounds) simp
  with False show ?thesis
    by (simp add: is_anomalous_def order_amount_regular f64_epsilon_def)
qed

lemma crypto_index: "n < 4 \<Longrightarrow> PAYMENT_METHODS ! n = ''crypto'' \<longleftrightarrow> n = 3"
  by (auto simp: PAYMENT_METHODS_def nth_Cons split: nat.splits)

lemma is_suspicious_order_at:
  assumes "unat i mod 17 \<noteq> 0"
  shows "is_suspicious (order_at i) \<longleftrightarrow> unat i div 3 mod 4 = 3 \<and> 150 \<le> unat i mod 200"
  using assms f64_lit_nat [of 150]
  by (simp add: is_suspicious_def order_amount_regular regular_amount_above_150 crypto_index)

lemma classify_order_at:
  "classify_outcome (order_at i) =
     (if unat i mod 17 = 0 then ''anomalous''
      else if unat i div 3 mod 4 = 3 \<and> 150 \<le> unat i mod 200 then ''fraud_rejected''
      else ''fulfilled'')"
  by (simp add: classify_outcome_def is_anomalous_order_at is_suspicious_order_at)

section \<open>The interface the scheduler uses\<close>

text \<open>
  The scheduler needs of its source of orders only that the keys come from a finite table. Then any
  set of pending orders with distinct keys is bounded by the table, whatever limit was configured.
\<close>

locale keyed_source =
  fixes gen :: "'i \<Rightarrow> 'o"
    and key :: "'o \<Rightarrow> 'k"
    and keys :: "'k list"
  assumes key_in_keys: "key (gen i) \<in> set keys"
begin

lemma distinct_keys_bound:
  assumes "distinct (map key os)" and "\<forall>x \<in> set os. \<exists>i. key x = key (gen i)"
  shows "length os \<le> length keys"
proof -
  have "key ` set os \<subseteq> set keys" using assms(2) key_in_keys by (metis image_subsetI)
  then have "length os \<le> card (set keys)"
    using assms(1) by (intro length_le_card_keys) auto
  also have "\<dots> \<le> length keys" by (rule card_length)
  finally show ?thesis .
qed

end

interpretation demo_orders: keyed_source order_at category CATEGORIES
  by unfold_locales simp

lemma period_div_mod:
  assumes "d * (m * k) = p" and "0 < d"
  shows "(n + p) div d mod m = n div d mod (m :: nat)"
proof -
  have "(n + d * (m * k)) div d = m * k + n div d" using assms(2) by (simp only: div_mult_self2)
  then show ?thesis by (simp flip: assms(1))
qed

lemma period_mod: "m * k = p \<Longrightarrow> (n + p) mod m = n mod (m :: nat)"
  by (metis mod_mult_self2)

section \<open>Properties\<close>

text \<open>
  C35: every order of the generator is well formed: each label comes from its table, the warehouse is
  the one of the order's region, the quantity is one to five, and no table index is out of range.
\<close>

theorem order_at_well_formed:
  "category (order_at i) \<in> set CATEGORIES \<and> payment_method (order_at i) \<in> set PAYMENT_METHODS \<and>
   customer_tier (order_at i) \<in> set CUSTOMER_TIERS \<and>
   (\<exists>r < length REGIONS. region (order_at i) = REGIONS ! r \<and> warehouse (order_at i) = WAREHOUSES ! r) \<and>
   1 \<le> sint (quantity (order_at i)) \<and> sint (quantity (order_at i)) \<le> 5 \<and>
   order_idx i (length CATEGORIES) 1 < length CATEGORIES \<and>
   order_idx i (length REGIONS) 2 < length REGIONS \<and>
   order_idx i (length PAYMENT_METHODS) 3 < length PAYMENT_METHODS \<and>
   order_idx i (length CUSTOMER_TIERS) 7 < length CUSTOMER_TIERS"
proof -
  have "1 \<le> sint (quantity (order_at i)) \<and> sint (quantity (order_at i)) \<le> 5"
    using small_quantity [of "unat i mod 5"] by (simp add: order_quantity_value)
  moreover have "unat i div 2 mod 4 < length REGIONS" by simp
  then have "\<exists>r < length REGIONS. region (order_at i) = REGIONS ! r \<and> warehouse (order_at i) = WAREHOUSES ! r"
    by (intro exI [of _ "unat i div 2 mod 4"]) simp
  ultimately show ?thesis by (simp add: order_idx_bound)
qed

text \<open>
  C18: the outcome the consumer reaches for the generator's order \<open>i\<close>: anomalous exactly for the
  multiples of 17, fraud exactly for the crypto orders of at least 150 dollars, with the amount
  computed in binary64.
\<close>

theorem classify_outcome_order_at:
  "classify_outcome (order_at i) =
     (if unat i mod 17 = 0 then ''anomalous''
      else if unat i div 3 mod 4 = 3 \<and> 150 \<le> unat i mod 200 then ''fraud_rejected''
      else ''fulfilled'')"
  by (rule classify_order_at)

text \<open>
  C36: amounts stay within the histogram's range: an order of the generator costs nothing, or between
  half a dollar and 200 dollars; it is never NaN, infinite or negative.
\<close>

theorem order_at_amount_range:
  "amount (order_at i) = f64_zero \<or>
   (f64_lit (1 / 2) \<le> amount (order_at i) \<and> amount (order_at i) \<le> f64_lit 200)"
proof (cases "unat i mod 17 = 0")
  case True
  then show ?thesis by (simp add: order_amount_anomaly f64_zero_def)
next
  case False
  have half: "f64_lit (1 / 2) = F64_Num False (1 / 2)"
    using binary64.R_half [of 1] by (simp add: f64_lit_small)
  have "f64_lit 200 = F64_Num False 200" using f64_lit_nat [of 200] by simp
  with False half show ?thesis
    using regular_amount_bounds [of "unat i mod 200"] by (simp add: order_amount_regular)
qed

text \<open>
  C38: the quantity does not vary at a period of its own: it is one more than the index of the
  order's category, so each category always comes with the same quantity.
\<close>

theorem quantity_follows_category:
  "category (order_at i) = CATEGORIES ! (unat (quantity (order_at i)) - 1)"
  using small_quantity [of "unat i mod 5"] by (simp add: order_quantity_value)

text \<open>
  C37: the stream of orders repeats after 71400 orders, the identifier apart.
\<close>

theorem order_at_periodic:
  assumes "unat i + 71400 < 2 ^ 64"
  shows "order_at (i + 71400) = (order_at i)\<lparr>order_id := ''o-'' @ show_padded 10 (unat i + 71400)\<rparr>"
proof -
  have n: "unat (i + 71400) = unat i + 71400"
    using assms by (simp add: unat_word_ariths)
  have d: "(n + 71400) div 2 mod 4 = n div 2 mod 4" "(n + 71400) div 3 mod 4 = n div 3 mod 4"
    "(n + 71400) div 7 mod 3 = n div 7 mod 3" for n :: nat
    by (rule period_div_mod [of _ _ 8925] period_div_mod [of _ _ 5950] period_div_mod [of _ _ 3400];
        simp)+
  have m: "(n + 71400) mod 5 = n mod 5" "(n + 71400) mod 17 = n mod 17"
    "(n + 71400) mod 200 = n mod 200" for n :: nat
    by (rule period_mod [of _ 14280] period_mod [of _ 4200] period_mod [of _ 357]; simp)+
  have "order_amount (i + 71400) = order_amount i"
    by (cases "unat i mod 17 = 0") (simp_all only: order_amount_anomaly order_amount_regular n m not_False_eq_True)
  then show ?thesis
    by (intro order.equality)
      (simp_all only: order_at_simps n d m order_quantity_value, simp_all add: order_quantity_value)
qed

theorem order_at_periodic_witness:
  "order_at (5 + 71400) = (order_at 5)\<lparr>order_id := ''o-'' @ show_padded 10 71405\<rparr>"
  using order_at_periodic [of 5] by simp

end
