(* ===== verification/Pipeline.thy ===== *)
theory Pipeline
  imports Orders
begin

text \<open>
  \<open>crates/observability-demo-app/src/pipeline.rs\<close>: decoding a record's value, the Kafka headers
  that carry the trace context and the business fields, the deterministic latency injection, and
  the staged processing of one order. The protobuf codec (\<open>decode\<close>), the trace propagator
  (\<open>set_remote_parent\<close>) and the work of a stage are parameters, as they are arguments or library
  calls in the code.
\<close>

section \<open>Decoding\<close>

datatype 'e pipeline_input_error = MissingValue | Deserialize 'e

definition decode_order ::
  "bytes option \<Rightarrow> (bytes \<Rightarrow> 'e + order) \<Rightarrow> 'e pipeline_input_error + order" where
  "decode_order value decode =
     bind_res (ok_or MissingValue value) (\<lambda>v. map_err Deserialize (decode v))"

section \<open>Headers\<close>

text \<open>
  \<open>krabka_client_producer::Header\<close> and \<open>krabka_client_consumer::Header\<close>: a key and an optional
  value.
\<close>

record header =
  hkey :: string
  hvalue :: "bytes option"

definition order_headers :: "(string \<times> string) list \<Rightarrow> order \<Rightarrow> header list" where
  "order_headers trace_headers ord =
     map (\<lambda>(k, v). \<lparr>hkey = k, hvalue = Some (string_bytes v)\<rparr>) trace_headers @
     [\<lparr>hkey = ''x-demo-region'', hvalue = Some (string_bytes (region ord))\<rparr>,
      \<lparr>hkey = ''x-demo-tier'', hvalue = Some (string_bytes (customer_tier ord))\<rparr>]"

definition header_value :: "header list \<Rightarrow> string \<Rightarrow> string option" where
  "header_value headers name =
     Option.bind (Option.bind (List.find (\<lambda>h. hkey h = name) headers) hvalue) from_utf8"

definition trace_pairs :: "header list \<Rightarrow> (string \<times> bytes) list" where
  "trace_pairs headers = map (\<lambda>h. (hkey h, case hvalue h of None \<Rightarrow> [] | Some v \<Rightarrow> v)) headers"

definition continue_trace ::
  "('span \<Rightarrow> (string \<times> bytes) list \<Rightarrow> 'span) \<Rightarrow> 'span \<Rightarrow> header list \<Rightarrow> 'span" where
  "continue_trace set_remote_parent sp headers = set_remote_parent sp (trace_pairs headers)"

section \<open>Latency injection\<close>

record stage_work =
  sw_validate :: duration
  sw_enrich :: duration
  sw_fraud_check :: duration
  sw_fulfill :: duration

definition stage_base :: "string \<Rightarrow> stage_work \<Rightarrow> duration" where
  "stage_base stage work =
     (if stage = ''validate'' then sw_validate work
      else if stage = ''enrich'' then sw_enrich work
      else if stage = ''fraud_check'' then sw_fraud_check work
      else if stage = ''fulfill'' then sw_fulfill work
      else 0)"

definition inject_latency :: "u64 \<Rightarrow> f64 \<Rightarrow> bool" where
  "inject_latency order_index slow_fraction =
     (let r = unat (order_index mod 10000); slot = (if r < 2 ^ 32 then r else 0)
      in f64_zero < slow_fraction \<and>
         div64 (f64_of_nat slot) (f64_lit 10000) < clamp64 slow_fraction f64_zero (f64_lit 1))"

text \<open>\<^const>\<open>None\<close> is the panic of an overflowing \<open>Duration\<close> addition.\<close>

definition stage_delay :: "string \<Rightarrow> stage_work \<Rightarrow> u64 \<Rightarrow> f64 \<Rightarrow> duration option" where
  "stage_delay stage work order_index slow_fraction =
     (let base = stage_base stage work
      in if inject_latency order_index slow_fraction then duration_add base (from_millis 30)
         else Some base)"

section \<open>Processing\<close>

definition STAGES :: "string list" where
  "STAGES = [''validate'', ''enrich'', ''fraud_check'', ''fulfill'']"

text \<open>
  The closure \<open>run_stage\<close> acts on the caller's state; a stage that panics (\<^const>\<open>None\<close>)
  ends the processing.
\<close>

fun run_stages :: "(string \<Rightarrow> 's \<Rightarrow> 's option) \<Rightarrow> string list \<Rightarrow> 's \<Rightarrow> 's option" where
  "run_stages run_stage [] s = Some s"
| "run_stages run_stage (stage # stages) s = Option.bind (run_stage stage s) (run_stages run_stage stages)"

definition process_order ::
  "order \<Rightarrow> (string \<Rightarrow> 's \<Rightarrow> 's option) \<Rightarrow> 's \<Rightarrow> (string \<times> 's) option" where
  "process_order ord run_stage s =
     map_option (\<lambda>s'. (classify_outcome ord, s')) (run_stages run_stage STAGES s)"

section \<open>Headers read back\<close>

lemma header_value_Nil [simp]: "header_value [] name = None"
  by (simp add: header_value_def)

lemma header_value_Cons:
  "header_value (h # hs) name =
     (if hkey h = name then Option.bind (hvalue h) from_utf8 else header_value hs name)"
  by (simp add: header_value_def)

lemma header_value_append_absent:
  "name \<notin> hkey ` set hs \<Longrightarrow> header_value (hs @ hs') name = header_value hs' name"
  by (induction hs) (auto simp: header_value_Cons)

lemma trace_header_keys:
  "hkey ` set (map (\<lambda>(k, v). \<lparr>hkey = k, hvalue = Some (string_bytes v)\<rparr>) ts) = fst ` set ts"
  by (induction ts) auto

lemma header_value_first:
  "header_value (hs @ h # hs') name =
     (if name \<in> hkey ` set hs then header_value hs name
      else if hkey h = name then Option.bind (hvalue h) from_utf8
      else header_value hs' name)"
  by (induction hs) (auto simp: header_value_Cons)

lemma header_value_trace:
  "map_of ts name = Some v \<Longrightarrow> valid_str v \<Longrightarrow> header_value (order_headers ts ord) name = Some v"
  by (induction ts)
    (auto simp: order_headers_def header_value_Cons from_utf8_string_bytes split: if_splits)

section \<open>Which orders are slowed down\<close>

lemma fraction_literal:
  assumes "k \<le> 10000"
  shows "f64_lit (of_nat k / 10000) = F64_Num False (round_mag (of_nat k / 10000))"
proof -
  have "(of_nat k :: rat) \<le> of_nat 10000" using assms by (simp only: of_nat_le_iff)
  then show ?thesis by (intro f64_lit_small) (simp_all add: field_simps)
qed

lemma fraction_order:
  assumes "s < 10000" and "k \<le> 10000"
  shows "round_mag (of_nat s / 10000) < round_mag (of_nat k / 10000) \<longleftrightarrow> s < k"
proof (cases "s < k")
  case True
  then have gap: "(of_nat s :: rat) / 10000 + 1 / 2 ^ 52 \<le> of_nat k / 10000"
    using of_nat_le_iff [of "Suc s" k, where ?'a = rat] by (simp add: field_simps)
  show ?thesis
  proof (cases "k = 10000")
    case k: True
    then have "round_mag (of_nat k / 10000) = 1" using binary64.R_of_nat [of 1] by simp
    moreover have "round_mag (of_nat s / 10000) < 1"
      using gap k by (intro binary64.R_strict_one) simp_all
    ultimately show ?thesis using True by simp
  next
    case False
    then have "(of_nat k :: rat) < of_nat 10000" using assms(2) by (simp only: of_nat_less_iff)
    then have "round_mag (of_nat s / 10000) < round_mag (of_nat k / 10000)"
      using gap by (intro binary64.R_strict) simp_all
    with True show ?thesis by simp
  qed
next
  case False
  then have "(of_nat k :: rat) \<le> of_nat s" by (simp only: of_nat_le_iff)
  then have "round_mag (of_nat k / 10000) \<le> round_mag (of_nat s / 10000)"
    by (intro binary64.R_mono) (simp_all add: divide_right_mono)
  with False show ?thesis by simp
qed

lemma inject_latency_iff:
  assumes "k \<le> 10000"
  shows "inject_latency i (f64_lit (of_nat k / 10000)) \<longleftrightarrow> unat i mod 10000 < k"
proof -
  define s where "s = unat i mod 10000"
  have s: "unat (i mod 10000) = s" "s < 10000" by (simp_all add: s_def unat_mod)
  have sp: "0 \<le> (of_nat s :: rat) / 10000" by simp
  have "(of_nat s :: rat) \<le> of_nat 10000" using s(2) by (simp only: of_nat_le_iff)
  then have "(of_nat s :: rat) / 10000 \<le> 1" by simp
  moreover have "(1::rat) \<le> 2 ^ 1023" by simp
  ultimately have "(of_nat s :: rat) / 10000 \<le> 2 ^ 1023" by (rule order_trans)
  then have slot: "div64 (f64_of_nat s) (F64_Num False 10000) = F64_Num False (round_mag (of_nat s / 10000))"
    using s(2) sp by (simp add: f64_of_nat_num div64_num del: div64.simps)
  have "round_mag (of_nat k / 10000) \<le> 1"
    using assms binary64.R_le_of_nat [of "of_nat k / 10000" 1] of_nat_le_iff [of k 10000, where ?'a = rat]
    by (simp add: field_simps)
  moreover have "0 \<le> round_mag (of_nat k / 10000)" by (simp add: round_mag_nonneg)
  ultimately have "clamp64 (f64_lit (of_nat k / 10000)) f64_zero (f64_lit 1) = f64_lit (of_nat k / 10000)"
    by (auto simp: clamp64_def fraction_literal [OF assms] f64_zero_def)
  moreover have "f64_zero < f64_lit (of_nat k / 10000) \<longleftrightarrow> 0 < k"
    using fraction_order [of 0 k] assms by (simp add: fraction_literal f64_zero_def)
  moreover have "div64 (f64_of_nat s) (f64_lit 10000) < f64_lit (of_nat k / 10000) \<longleftrightarrow> s < k"
    using fraction_order [OF s(2) assms] by (simp add: slot fraction_literal [OF assms])
  ultimately show ?thesis using s by (auto simp: inject_latency_def simp flip: s_def)
qed

lemma card_window_mod:
  assumes "k \<le> N" and "0 < N"
  shows "card {j \<in> {n..<n + N}. j mod N < k} = (k :: nat)"
proof -
  let ?W = "{n..<n + N}"
  have inj: "inj_on (\<lambda>j. j mod N) ?W"
  proof (rule inj_onI)
    fix i j
    assume ij: "i \<in> ?W" "j \<in> ?W" "i mod N = j mod N"
    then have "nat \<bar>int i - int j\<bar> < N" by auto
    moreover have "int N dvd int i - int j"
      using ij(3) by (metis mod_eq_dvd_iff zmod_int)
    ultimately have "int i - int j = 0"
      using assms(2) by (metis dvd_imp_le_int nat_less_iff abs_of_nat linorder_not_le abs_ge_zero)
    then show "i = j" by simp
  qed
  have "(\<lambda>j. j mod N) ` ?W \<subseteq> {..<N}" using assms(2) by auto
  moreover have "card ((\<lambda>j. j mod N) ` ?W) = N" using card_image [OF inj] by simp
  ultimately have img: "(\<lambda>j. j mod N) ` ?W = {..<N}"
    by (intro card_subset_eq) auto
  have "(\<lambda>j. j mod N) ` {j \<in> ?W. j mod N < k} = {..<k}"
  proof -
    have "(\<lambda>j. j mod N) ` {j \<in> ?W. j mod N < k} = (\<lambda>j. j mod N) ` ?W \<inter> {..<k}" by auto
    then show ?thesis using img assms(1) by auto
  qed
  moreover have "inj_on (\<lambda>j. j mod N) {j \<in> ?W. j mod N < k}"
    by (rule inj_on_subset [OF inj]) auto
  ultimately show ?thesis using card_image [of "\<lambda>j. j mod N" "{j \<in> ?W. j mod N < k}"] by simp
qed

lemma card_injected:
  assumes "k \<le> 10000" and "n + 10000 \<le> 2 ^ 64"
  shows "card {j \<in> {n..<n + 10000}. inject_latency (of_nat j) (f64_lit (of_nat k / 10000))} = k"
proof -
  have "{j \<in> {n..<n + 10000}. inject_latency (of_nat j) (f64_lit (of_nat k / 10000))} =
        {j \<in> {n..<n + 10000}. j mod 10000 < k}"
    using assms by (auto simp: inject_latency_iff unat_of_nat)
  then show ?thesis using card_window_mod [OF assms(1), of n] by simp
qed

section \<open>Properties\<close>

text \<open>
  A header is read as the first one of its name: a null or non-UTF-8 value there makes the
  header absent, even if a later header of the same name could be read.
\<close>

lemma header_value_reads_first:
  "header_value hs name = Some s \<longleftrightarrow>
   (\<exists>pre h post v. hs = pre @ h # post \<and> name \<notin> hkey ` set pre \<and> hkey h = name \<and>
      hvalue h = Some v \<and> utf8_valid v \<and> s = bytes_string v)" (is "?L \<longleftrightarrow> ?R")
proof
  assume ?L
  then obtain h v where h: "List.find (\<lambda>h. hkey h = name) hs = Some h" and v: "hvalue h = Some v"
    and s: "from_utf8 v = Some s"
    by (auto simp: header_value_def bind_eq_Some_conv)
  from h obtain i where i: "i < length hs" "h = hs ! i" "hkey h = name"
    and before: "\<forall>j<i. hkey (hs ! j) \<noteq> name"
    by (auto simp: find_Some_iff)
  have "hs = take i hs @ h # drop (Suc i) hs" using i by (simp add: id_take_nth_drop)
  moreover have "name \<notin> hkey ` set (take i hs)"
    using before i(1) by (auto simp: in_set_conv_nth) blast
  ultimately show ?R using i(3) v s by (auto simp: from_utf8_def split: if_splits)
next
  assume ?R
  then show ?L by (auto simp: header_value_first from_utf8_def)
qed

text \<open>
  C26: what the consumer reads back of the headers the producer wrote, for every name: the trace
  headers come first, so one of the same name as a business header hides it; otherwise the region
  and the customer tier arrive unchanged, and no other header exists.
\<close>

theorem order_headers_round_trip:
  assumes "\<forall>(k, v) \<in> set ts. valid_str v" and "valid_str (region ord)"
    and "valid_str (customer_tier ord)"
  shows "header_value (order_headers ts ord) name =
    (case map_of ts name of Some v \<Rightarrow> Some v
     | None \<Rightarrow> if name = ''x-demo-region'' then Some (region ord)
               else if name = ''x-demo-tier'' then Some (customer_tier ord) else None)"
proof (cases "map_of ts name")
  case None
  then have "name \<notin> fst ` set ts" by (simp add: map_of_eq_None_iff)
  then have "name \<notin> hkey ` set (map (\<lambda>(k, v). \<lparr>hkey = k, hvalue = Some (string_bytes v)\<rparr>) ts)"
    by (simp only: trace_header_keys not_False_eq_True)
  from header_value_append_absent [OF this] show ?thesis
    using None assms(2,3)
    by (simp only: order_headers_def) (simp add: header_value_Cons from_utf8_string_bytes)
next
  case (Some v)
  then have "valid_str v" using assms(1) by (auto dest: map_of_SomeD)
  with Some show ?thesis by (simp add: header_value_trace)
qed

theorem order_headers_round_trip_witness:
  "header_value (order_headers [(''traceparent'', ''00-a-b-01'')] (order_at 7)) ''x-demo-region'' =
   Some ''ap-south''"
proof -
  have v: "valid_str ''00-a-b-01''" "valid_str ''ap-south''" "valid_str ''pro''"
    by (simp_all add: ascii_valid_str)
  have "region (order_at 7) = ''ap-south''" "customer_tier (order_at 7) = ''pro''"
    by (simp_all add: order_tables)
  then show ?thesis
    using order_headers_round_trip [of "[(''traceparent'', ''00-a-b-01'')]" "order_at 7" "''x-demo-region''"] v
    by simp
qed

text \<open>
  C29: the delay of each stage, by its name: \<open>validate\<close>, \<open>enrich\<close>, \<open>fraud_check\<close> and \<open>fulfill\<close>
  take the work configured for them and any other name none; configured with the share \<open>k / 10000\<close>,
  an order whose index has a residue below \<open>k\<close> modulo 10000 takes 30 ms more in every stage, and the
  addition panics exactly when the sum exceeds the largest \<open>Duration\<close>.
\<close>

theorem stage_delay_value:
  assumes "other \<notin> {''validate'', ''enrich'', ''fraud_check'', ''fulfill''}" and "k \<le> 10000"
  shows "map (\<lambda>name. stage_delay name
        \<lparr>sw_validate = t1, sw_enrich = t2, sw_fraud_check = t3, sw_fulfill = t4\<rparr> i (f64_lit (of_nat k / 10000)))
      [''validate'', ''enrich'', ''fraud_check'', ''fulfill'', other] =
    map (\<lambda>d. if unat i mod 10000 < k
        then if d + 30000000 \<le> duration_max then Some (d + 30000000) else None
        else Some d)
      [t1, t2, t3, t4, 0]"
  using assms
  by (simp add: stage_delay_def stage_base_def inject_latency_iff duration_add_def from_millis_def)

theorem stage_delay_value_witness:
  "stage_delay ''enrich'' \<lparr>sw_validate = 150000, sw_enrich = 400000, sw_fraud_check = 200000, sw_fulfill = 300000\<rparr>
     10100 (f64_lit (2 / 100)) = Some 30400000"
  using stage_delay_value [of "''ship''" 200 150000 400000 200000 300000 10100]
  by (simp add: duration_max_def)

end
