(* ===== verification/Metrics.thy ===== *)
theory Metrics
  imports Pipeline
begin

text \<open>
  \<open>crates/observability-demo-app/src/metrics.rs\<close>: the labels, the metric bundle \<open>DemoMetrics\<close>
  with what it registers, the recording methods, and the two HTTP handlers of the admin port.

  The counters, gauges and histograms are those of the \<open>prometheus-client\<close> package, which the
  sources only call. A recording method is therefore modelled by the calls it makes on the metric
  handles, in order (\<open>metric_call\<close>), and a process by the list of the calls it has made; a counter's
  value is the number of \<open>inc\<close> calls on its label. The conversion of a measured time to seconds
  (\<open>Time::secs_f64\<close>) is a parameter.
\<close>

section \<open>Labels\<close>

record produced_label =
  produced_category :: string
  produced_region :: string
  produced_payment_method :: string

record processed_label =
  processed_category :: string
  processed_region :: string
  processed_outcome :: string

record stage_label =
  stage_name :: string

datatype pipeline_error_kind = Missing_value | Deserialize_failed | Producer_send

fun error_label :: "pipeline_error_kind \<Rightarrow> string" where
  "error_label Missing_value = ''missing_value''"
| "error_label Deserialize_failed = ''deserialize''"
| "error_label Producer_send = ''producer_send''"

instantiation pipeline_error_kind :: enum
begin

definition "enum_pipeline_error_kind = [Missing_value, Deserialize_failed, Producer_send]"
definition "enum_all_pipeline_error_kind P \<longleftrightarrow> P Missing_value \<and> P Deserialize_failed \<and> P Producer_send"
definition "enum_ex_pipeline_error_kind P \<longleftrightarrow> P Missing_value \<or> P Deserialize_failed \<or> P Producer_send"

instance
proof
  show u: "(UNIV :: pipeline_error_kind set) = set enum_class.enum"
    by (auto simp: enum_pipeline_error_kind_def intro: pipeline_error_kind.exhaust)
  show "distinct (enum_class.enum :: pipeline_error_kind list)"
    by (simp add: enum_pipeline_error_kind_def)
  show "enum_class.enum_all P \<longleftrightarrow> Ball UNIV P" for P :: "pipeline_error_kind \<Rightarrow> bool"
    by (simp add: u enum_all_pipeline_error_kind_def enum_pipeline_error_kind_def)
  show "enum_class.enum_ex P \<longleftrightarrow> Bex UNIV P" for P :: "pipeline_error_kind \<Rightarrow> bool"
    by (simp add: u enum_ex_pipeline_error_kind_def enum_pipeline_error_kind_def)
qed

end

record error_kind_label =
  error_kind :: string

record category_label =
  label_category :: string

section \<open>Calls on the metric handles\<close>

datatype metric_call =
    Orders_produced_inc produced_label
  | Order_value_observe f64
  | Produce_latency_observe f64
  | Orders_processed_inc processed_label
  | Stage_latency_observe stage_label f64
  | Processing_latency_observe f64
  | Pipeline_errors_inc error_kind_label
  | Stream_records_inc
  | Stream_category_set category_label i64

definition record_error :: "pipeline_error_kind \<Rightarrow> metric_call list" where
  "record_error kind = [Pipeline_errors_inc \<lparr>error_kind = error_label kind\<rparr>]"

definition record_stream :: "string \<Rightarrow> i64 \<Rightarrow> metric_call list" where
  "record_stream cat n =
     [Stream_records_inc, Stream_category_set \<lparr>label_category = cat\<rparr> n]"

definition record_produced ::
  "('t \<Rightarrow> f64) \<Rightarrow> string \<Rightarrow> string \<Rightarrow> string \<Rightarrow> f64 \<Rightarrow> 't \<Rightarrow> metric_call list" where
  "record_produced secs_f64 cat reg pay value_dollars latency =
     [Orders_produced_inc \<lparr>produced_category = cat, produced_region = reg, produced_payment_method = pay\<rparr>,
      Order_value_observe value_dollars,
      Produce_latency_observe (secs_f64 latency)]"

definition record_stage :: "('t \<Rightarrow> f64) \<Rightarrow> string \<Rightarrow> 't \<Rightarrow> metric_call list" where
  "record_stage secs_f64 stage latency =
     [Stage_latency_observe \<lparr>stage_name = stage\<rparr> (secs_f64 latency)]"

definition record_processed ::
  "('t \<Rightarrow> f64) \<Rightarrow> string \<Rightarrow> string \<Rightarrow> string \<Rightarrow> 't \<Rightarrow> metric_call list" where
  "record_processed secs_f64 cat reg outcome elapsed =
     [Orders_processed_inc \<lparr>processed_category = cat, processed_region = reg, processed_outcome = outcome\<rparr>,
      Processing_latency_observe (secs_f64 elapsed)]"

section \<open>The registry\<close>

text \<open>The handles of \<open>DemoMetrics\<close>; a clone of a handle is the same metric.\<close>

datatype metric_handle =
    Orders_produced | Order_value_dollars | Produce_latency
  | Orders_processed | Process_stage_latency | Order_processing_latency
  | Pipeline_errors | Stream_records | Stream_category_count

datatype metric_kind =
    Counter_metric "string list"
  | Gauge_metric "string list"
  | Histogram_metric "string list" "f64 list"

definition registry_prefix :: string where
  "registry_prefix = ''krabka_demo''"

definition order_value_buckets :: "rat list" where
  "order_value_buckets = [1, 5, 10, 25, 50, 100, 150, 200, 500]"

definition produce_latency_buckets :: "rat list" where
  "produce_latency_buckets =
     [5 / 10000, 1 / 1000, 25 / 10000, 5 / 1000, 1 / 100, 25 / 1000, 5 / 100, 1 / 10, 25 / 100, 5 / 10]"

definition stage_latency_buckets :: "rat list" where
  "stage_latency_buckets =
     [1 / 10000, 5 / 10000, 1 / 1000, 25 / 10000, 5 / 1000, 1 / 100, 25 / 1000, 5 / 100]"

definition processing_latency_buckets :: "rat list" where
  "processing_latency_buckets =
     [5 / 10000, 1 / 1000, 25 / 10000, 5 / 1000, 1 / 100, 25 / 1000, 5 / 100, 1 / 10, 25 / 100]"

text \<open>How each handle is created: labels are the fields of the label structs.\<close>

fun handle_kind :: "metric_handle \<Rightarrow> metric_kind" where
  "handle_kind Orders_produced = Counter_metric [''category'', ''region'', ''payment_method'']"
| "handle_kind Order_value_dollars = Histogram_metric [] (map f64_lit order_value_buckets)"
| "handle_kind Produce_latency = Histogram_metric [] (map f64_lit produce_latency_buckets)"
| "handle_kind Orders_processed = Counter_metric [''category'', ''region'', ''outcome'']"
| "handle_kind Process_stage_latency = Histogram_metric [''stage''] (map f64_lit stage_latency_buckets)"
| "handle_kind Order_processing_latency = Histogram_metric [] (map f64_lit processing_latency_buckets)"
| "handle_kind Pipeline_errors = Counter_metric [''kind'']"
| "handle_kind Stream_records = Counter_metric []"
| "handle_kind Stream_category_count = Gauge_metric [''category'']"

record registration =
  metric_name :: string
  metric_help :: string
  metric_handle :: metric_handle

text \<open>What \<open>DemoMetrics::new\<close> registers, in its order, with the handle cloned into the registry.\<close>

definition demo_metrics :: "registration list" where
  "demo_metrics =
    [\<lparr>metric_name = ''orders_produced'',
      metric_help = ''Orders produced by category, region and payment method'',
      metric_handle = Orders_produced\<rparr>,
     \<lparr>metric_name = ''order_value_dollars'',
      metric_help = ''Distribution of produced order value in dollars'',
      metric_handle = Order_value_dollars\<rparr>,
     \<lparr>metric_name = ''produce_latency_seconds'',
      metric_help = ''Producer send() latency in seconds'',
      metric_handle = Produce_latency\<rparr>,
     \<lparr>metric_name = ''orders_processed'',
      metric_help = ''Orders processed by the traced consumer, by category, region and outcome'',
      metric_handle = Orders_processed\<rparr>,
     \<lparr>metric_name = ''process_stage_latency_seconds'',
      metric_help = ''Per-stage processing latency in seconds (validate|enrich|fraud_check|fulfill)'',
      metric_handle = Process_stage_latency\<rparr>,
     \<lparr>metric_name = ''order_processing_latency_seconds'',
      metric_help = ''End-to-end consumer processing latency per order in seconds'',
      metric_handle = Order_processing_latency\<rparr>,
     \<lparr>metric_name = ''pipeline_errors'',
      metric_help = ''Pipeline failures by bounded error kind'',
      metric_handle = Pipeline_errors\<rparr>,
     \<lparr>metric_name = ''stream_records'',
      metric_help = ''Records observed by the streams topology'',
      metric_handle = Stream_records\<rparr>,
     \<lparr>metric_name = ''stream_category_count'',
      metric_help = ''Current streams state-store count by order category'',
      metric_handle = Stream_category_count\<rparr>]"

text \<open>The name of a family as the encoder writes it, before the counters' suffix.\<close>

definition family_name :: "registration \<Rightarrow> string" where
  "family_name m = registry_prefix @ ''_'' @ metric_name m"

text \<open>The handle a recording method's call is made on, and the label set it passes.\<close>

fun call_handle :: "metric_call \<Rightarrow> metric_handle" where
  "call_handle (Orders_produced_inc _) = Orders_produced"
| "call_handle (Order_value_observe _) = Order_value_dollars"
| "call_handle (Produce_latency_observe _) = Produce_latency"
| "call_handle (Orders_processed_inc _) = Orders_processed"
| "call_handle (Stage_latency_observe _ _) = Process_stage_latency"
| "call_handle (Processing_latency_observe _) = Order_processing_latency"
| "call_handle (Pipeline_errors_inc _) = Pipeline_errors"
| "call_handle Stream_records_inc = Stream_records"
| "call_handle (Stream_category_set _ _) = Stream_category_count"

fun call_labels :: "metric_call \<Rightarrow> (string \<times> string) list" where
  "call_labels (Orders_produced_inc l) =
     [(''category'', produced_category l), (''region'', produced_region l),
      (''payment_method'', produced_payment_method l)]"
| "call_labels (Orders_processed_inc l) =
     [(''category'', processed_category l), (''region'', processed_region l), (''outcome'', processed_outcome l)]"
| "call_labels (Stage_latency_observe l _) = [(''stage'', stage_name l)]"
| "call_labels (Pipeline_errors_inc l) = [(''kind'', error_kind l)]"
| "call_labels (Stream_category_set l _) = [(''category'', label_category l)]"
| "call_labels _ = []"

section \<open>The admin routes\<close>

record response =
  status :: nat
  content_type :: "string option"
  body :: string

definition NL :: string where
  "NL = [CHR 0x0A]"

text \<open>\<open>env!("CARGO_PKG_VERSION")\<close> and the environment variable are arguments.\<close>

definition build_info :: "string \<Rightarrow> string option \<Rightarrow> response" where
  "build_info version krabka_revision =
     (let revision = (case krabka_revision of None \<Rightarrow> ''unknown'' | Some r \<Rightarrow> r)
      in \<lparr>status = 200, content_type = Some ''text/plain; charset=utf-8'',
          body = ''version='' @ version @ '' revision='' @ revision @ NL\<rparr>)"

text \<open>
  \<open>encode\<close> is the text encoder of \<open>prometheus-client\<close>, with the display of its error. The handler
  sets no content type of its own on the error response.
\<close>

definition export :: "string + string \<Rightarrow> response" where
  "export encode =
     (case encode of
        Inl e \<Rightarrow> \<lparr>status = 500, content_type = None, body = ''encode: '' @ e\<rparr>
      | Inr buf \<Rightarrow> \<lparr>status = 200,
          content_type = Some ''application/openmetrics-text; version=1.0.0; charset=utf-8'', body = buf\<rparr>)"

definition metrics_router ::
  "string \<Rightarrow> string option \<Rightarrow> string + string \<Rightarrow> (string \<times> response) list" where
  "metrics_router version krabka_revision encode =
     [(''/metrics'', export encode), (''/build'', build_info version krabka_revision)]"

section \<open>Reading the calls\<close>

definition error_count :: "pipeline_error_kind \<Rightarrow> metric_call list \<Rightarrow> nat" where
  "error_count kind cs = count_list cs (Pipeline_errors_inc \<lparr>error_kind = error_label kind\<rparr>)"

definition is_produced_inc :: "metric_call \<Rightarrow> bool" where
  "is_produced_inc c = (case c of Orders_produced_inc _ \<Rightarrow> True | _ \<Rightarrow> False)"

definition is_processed_inc :: "metric_call \<Rightarrow> bool" where
  "is_processed_inc c = (case c of Orders_processed_inc _ \<Rightarrow> True | _ \<Rightarrow> False)"

definition is_error_inc :: "metric_call \<Rightarrow> bool" where
  "is_error_inc c = (case c of Pipeline_errors_inc _ \<Rightarrow> True | _ \<Rightarrow> False)"

lemmas call_kind_defs = is_produced_inc_def is_processed_inc_def is_error_inc_def

lemmas record_defs [call_simps] =
  record_error_def record_stream_def record_produced_def record_stage_def record_processed_def

fun kind_labels :: "metric_kind \<Rightarrow> string list" where
  "kind_labels (Counter_metric ls) = ls"
| "kind_labels (Gauge_metric ls) = ls"
| "kind_labels (Histogram_metric ls _) = ls"

fun kind_bounds :: "metric_kind \<Rightarrow> f64 list" where
  "kind_bounds (Histogram_metric _ bs) = bs"
| "kind_bounds _ = []"

text \<open>
  What a scrape shows of a call: the names of the samples it changes, one per registration of its
  handle, a counter's with the encoder's suffix, and the labels.
\<close>

definition sample_name :: "registration \<Rightarrow> string" where
  "sample_name m = family_name m @
     (case handle_kind (metric_handle m) of Counter_metric _ \<Rightarrow> ''_total'' | _ \<Rightarrow> [])"

definition exposed :: "metric_call list \<Rightarrow> (string \<times> (string \<times> string) list) list" where
  "exposed cs = concat (map (\<lambda>c. map (\<lambda>m. (sample_name m, call_labels c))
     (filter (\<lambda>m. metric_handle m = call_handle c) demo_metrics)) cs)"

text \<open>
  A histogram counts an observation in its first bucket with a bound that is not below it; \<^const>\<open>None\<close>
  is the bucket of all observations beyond the last bound.
\<close>

fun observed :: "metric_call \<Rightarrow> f64 option" where
  "observed (Order_value_observe x) = Some x"
| "observed (Produce_latency_observe x) = Some x"
| "observed (Stage_latency_observe _ x) = Some x"
| "observed (Processing_latency_observe x) = Some x"
| "observed _ = None"

definition bucket :: "metric_call \<Rightarrow> f64 option" where
  "bucket c = Option.bind (observed c) (\<lambda>x. List.find (\<lambda>b. x \<le> b) (kind_bounds (handle_kind (call_handle c))))"

lemma error_label_inj: "error_label k = error_label k' \<Longrightarrow> k = k'"
  by (cases k; cases k') simp_all

lemma error_count_append [simp]: "error_count k (cs @ ds) = error_count k cs + error_count k ds"
  by (simp add: error_count_def)

lemma error_count_Nil [simp]: "error_count k [] = 0"
  by (simp add: error_count_def)

lemma error_count_record_error [simp]:
  "error_count k (record_error k') = (if k = k' then 1 else 0)"
  by (auto simp: error_count_def record_error_def dest: error_label_inj)

section \<open>Bucket bounds\<close>

lemma f64_lit_less_small:
  assumes "0 \<le> x" and "x + 1 / 2 ^ 52 \<le> y" and "y < 1"
  shows "f64_lit x < f64_lit y"
proof -
  have b: "x < 1" "0 \<le> y" using assms by (auto intro: order_trans)
  have "(1::rat) \<le> 2 ^ 53" by simp
  with b assms have "x \<le> 2 ^ 53" "y \<le> 2 ^ 53" by linarith+
  then show ?thesis
    using binary64.R_strict [OF assms(1,3,2)] assms(1) b(2) by (simp add: f64_lit_small)
qed

lemma sorted_f64I:
  assumes "successively (<) (xs :: f64 list)"
  shows "sorted_wrt (<) xs"
proof -
  have "transp ((<) :: f64 \<Rightarrow> f64 \<Rightarrow> bool)"
    by (auto intro: transpI f64_less_trans)
  then show ?thesis using assms by (simp add: successively_conv_sorted_wrt)
qed

lemma bounds_ascending:
  "sorted_wrt (<) (map f64_lit order_value_buckets)"
  "sorted_wrt (<) (map f64_lit produce_latency_buckets)"
  "sorted_wrt (<) (map f64_lit stage_latency_buckets)"
  "sorted_wrt (<) (map f64_lit processing_latency_buckets)"
  by (rule sorted_f64I, simp add: order_value_buckets_def produce_latency_buckets_def
      stage_latency_buckets_def processing_latency_buckets_def f64_lit_less_small)+

lemma f64_beyond: "a < b \<Longrightarrow> b \<le> (x :: f64) \<Longrightarrow> \<not> x \<le> a"
  by (cases a; cases b; cases x) (auto simp: less_f64_def less_eq_f64_def)

lemma registered_samples:
  "exposed (record_produced seconds cat reg pay v t) =
     [(''krabka_demo_orders_produced_total'', [(''category'', cat), (''region'', reg), (''payment_method'', pay)]),
      (''krabka_demo_order_value_dollars'', []), (''krabka_demo_produce_latency_seconds'', [])]"
  "exposed (record_processed seconds cat reg out t) =
     [(''krabka_demo_orders_processed_total'', [(''category'', cat), (''region'', reg), (''outcome'', out)]),
      (''krabka_demo_order_processing_latency_seconds'', [])]"
  "exposed (record_stage seconds st t) = [(''krabka_demo_process_stage_latency_seconds'', [(''stage'', st)])]"
  "exposed (record_error kind) = [(''krabka_demo_pipeline_errors_total'', [(''kind'', error_label kind)])]"
  "exposed (record_stream cat n) =
     [(''krabka_demo_stream_records_total'', []),
      (''krabka_demo_stream_category_count'', [(''category'', cat)])]"
  by (simp_all add: exposed_def demo_metrics_def sample_name_def family_name_def registry_prefix_def record_defs)

lemma labels_match: "map fst (call_labels c) = kind_labels (handle_kind (call_handle c))"
  by (cases c) simp_all

text \<open>Every handle is registered once, so no sample name is written twice.\<close>

lemma samples_distinct: "distinct (map sample_name demo_metrics)"
  by (simp add: demo_metrics_def sample_name_def family_name_def registry_prefix_def)

lemma order_value_bucket:
  "\<exists>b. bucket (Order_value_observe (amount (order_at i))) = Some b \<and> b \<le> f64_lit 200 \<and>
     (b = f64_lit 200 \<longleftrightarrow> unat i mod 17 \<noteq> 0 \<and> 150 \<le> unat i mod 200)"
proof (cases "unat i mod 17 = 0")
  case True
  have "f64_lit (of_nat 1) = F64_Num False (of_nat 1)" "f64_lit (of_nat 200) = F64_Num False (of_nat 200)"
    by (rule f64_lit_nat, simp)+
  with True show ?thesis
    by (simp add: bucket_def order_value_buckets_def order_amount_anomaly)
next
  case False
  let ?a = "regular_amount (unat i mod 200)"
  have lit: "f64_lit (of_nat k) = F64_Num False (of_nat k)" if "k \<le> 500" for k
    using that by (intro f64_lit_nat) simp
  have a: "?a \<le> 200" using regular_amount_bounds [of "unat i mod 200"] by simp
  have "150 < ?a \<longleftrightarrow> 150 \<le> unat i mod 200" by (rule regular_amount_above_150)
  with False a lit [of 1] lit [of 5] lit [of 10] lit [of 25] lit [of 50] lit [of 100] lit [of 150] lit [of 200]
  show ?thesis
    by (auto simp: bucket_def order_value_buckets_def order_amount_regular)
qed

lemma slowed_stage_bucket:
  assumes "f64_lit (3 / 100) \<le> x" and "x \<le> f64_lit (5 / 100)"
  shows "bucket (Stage_latency_observe l x) = Some (f64_lit (5 / 100))"
proof -
  have "\<not> x \<le> f64_lit q" if "q \<in> {1 / 10000, 5 / 10000, 1 / 1000, 25 / 10000, 5 / 1000, 1 / 100, 25 / 1000}" for q
    using that assms(1) by (intro f64_beyond [of _ "f64_lit (3 / 100)"]) (auto intro: f64_lit_less_small)
  with assms(2) show ?thesis by (simp add: bucket_def stage_latency_buckets_def)
qed

lemma slowed_order_bucket:
  assumes "f64_lit (12 / 100) \<le> x" and "x \<le> f64_lit (25 / 100)"
  shows "bucket (Processing_latency_observe x) = Some (f64_lit (25 / 100))"
proof -
  have "\<not> x \<le> f64_lit q" if "q \<in> {5 / 10000, 1 / 1000, 25 / 10000, 5 / 1000, 1 / 100, 25 / 1000, 5 / 100, 1 / 10}" for q
    using that assms(1) by (intro f64_beyond [of _ "f64_lit (12 / 100)"]) (auto intro: f64_lit_less_small)
  with assms(2) show ?thesis by (simp add: bucket_def processing_latency_buckets_def)
qed

lemma slow_send_bucket:
  assumes "f64_lit (3 / 10) \<le> x" and "x \<le> f64_lit (5 / 10)"
  shows "bucket (Produce_latency_observe x) = Some (f64_lit (5 / 10))"
    and "bucket (Processing_latency_observe x) = None"
proof -
  have above: "\<not> x \<le> f64_lit q" if "q \<in> {5 / 10000, 1 / 1000, 25 / 10000, 5 / 1000, 1 / 100, 25 / 1000, 5 / 100, 1 / 10, 25 / 100}" for q
    using that assms(1) by (intro f64_beyond [of _ "f64_lit (3 / 10)"]) (auto intro: f64_lit_less_small)
  show "bucket (Produce_latency_observe x) = Some (f64_lit (5 / 10))"
    using above assms(2) by (simp add: bucket_def produce_latency_buckets_def)
  show "bucket (Processing_latency_observe x) = None"
    using above by (simp add: bucket_def processing_latency_buckets_def)
qed

lemma call_bounds_ascending: "sorted_wrt (<) (kind_bounds (handle_kind (call_handle c)))"
  by (cases c) (simp_all add: bounds_ascending)

section \<open>Properties\<close>


lemma f64_lit_self: "0 \<le> q \<Longrightarrow> q \<le> 1 \<Longrightarrow> f64_lit q \<le> f64_lit q"
  by (simp add: f64_lit_small)


end
