(* ===== verification/Scheduler.thy ===== *)
theory Scheduler
  imports Orders
begin

text \<open>
  \<open>crates/observability-demo-app/src/producer.rs\<close>: the bounded producer scheduling \<open>send_orders\<close>
  and its report. The loop is a state machine: one \<open>tokio::select!\<close> is one step, given which of
  its branches are ready (the timers, the shutdown future, and which pending send finishes with
  what), and so is one \<open>join_next\<close> of the draining loop.
\<close>

section \<open>The report\<close>

record send_report =
  acknowledged :: u64
  failed :: u64

definition report_default :: send_report where
  "report_default = \<lparr>acknowledged = 0, failed = 0\<rparr>"

definition report_record :: "send_report \<Rightarrow> bool \<Rightarrow> send_report" where
  "report_record r success =
     (if success then r\<lparr>acknowledged := acknowledged r + 1\<rparr> else r\<lparr>failed := failed r + 1\<rparr>)"

definition achieved_rate :: "send_report \<Rightarrow> duration \<Rightarrow> f64" where
  "achieved_rate r elapsed =
     div64 (as_secs_f64 (from_secs (unat (acknowledged r))))
       (max64 (as_secs_f64 elapsed) f64_epsilon)"

text \<open>The fields of the periodic log line.\<close>

record rate_log =
  requested_orders_per_sec :: f64
  achieved_orders_per_sec :: f64
  log_acknowledged :: u64
  log_failed :: u64
  log_in_flight :: nat

definition report_log :: "send_report \<Rightarrow> duration \<Rightarrow> duration \<Rightarrow> nat \<Rightarrow> rate_log" where
  "report_log r period elapsed in_flight =
     \<lparr>requested_orders_per_sec = div64 (f64_lit 1) (as_secs_f64 period),
      achieved_orders_per_sec = achieved_rate r elapsed,
      log_acknowledged = acknowledged r, log_failed = failed r, log_in_flight = in_flight\<rparr>"

section \<open>The state of the loop\<close>

text \<open>
  A pending task is its key and the order it delivers. \<open>started\<close> and \<open>joined\<close> record the orders
  handed to \<open>send\<close> and the ones whose task was joined, in order; \<open>logs\<close> the log lines.
\<close>

record task =
  task_key :: string
  task_order :: order

datatype 'e phase = Admitting | Draining | Finished "'e + send_report"

record 'e sched =
  pending :: "task list"
  active_keys :: "string set"
  report :: send_report
  index :: u64
  next_order :: order
  task_error :: "'e option"
  phase :: "'e phase"
  started :: "order list"
  joined :: "order list"
  logs :: "rate_log list"

definition sched_init :: "'e sched" where
  "sched_init =
     \<lparr>pending = [], active_keys = {}, report = report_default, index = 0, next_order = order_at 0,
      task_error = None, phase = Admitting, started = [], joined = [], logs = []\<rparr>"

text \<open>
  What one \<open>select!\<close> finds ready: the shutdown future, a finished task with its result (\<open>Inl\<close> a
  \<open>JoinError\<close>, \<open>Inr\<close> the success of the delivery), the reporting timer, the order timer; and the
  clock.
\<close>

record 'e poll =
  shutdown_ready :: bool
  finished :: "(task \<times> ('e + bool)) option"
  report_due :: bool
  tick_due :: bool
  elapsed :: duration

definition admit :: "'e sched \<Rightarrow> 'e sched" where
  "admit s =
     (let key = category (next_order s);
          stamped = (next_order s)\<lparr>ts_ms := i64_from_u64_or_max (index s)\<rparr>
      in s\<lparr>active_keys := insert key (active_keys s),
           pending := pending s @ [\<lparr>task_key = key, task_order = stamped\<rparr>],
           started := started s @ [stamped],
           index := index s + 1,
           next_order := order_at (index s + 1)\<rparr>)"

definition can_admit :: "nat \<Rightarrow> 'e sched \<Rightarrow> bool" where
  "can_admit max_in_flight s \<longleftrightarrow>
     length (pending s) < max_in_flight \<and> category (next_order s) \<notin> active_keys s"

definition take_task :: "task \<Rightarrow> 'e sched \<Rightarrow> 'e sched" where
  "take_task t s = s\<lparr>pending := remove1 t (pending s), joined := joined s @ [task_order t]\<rparr>"

text \<open>The branches of the biased \<open>select!\<close>, in order; when none is ready the loop waits.\<close>

definition select_step :: "duration \<Rightarrow> nat \<Rightarrow> 'e poll \<Rightarrow> 'e sched \<Rightarrow> 'e sched" where
  "select_step period max_in_flight p s =
     (if shutdown_ready p then s\<lparr>phase := Draining\<rparr>
      else case (if pending s \<noteq> [] then finished p else None) of
        Some (t, Inr success) \<Rightarrow>
          (take_task t s)\<lparr>active_keys := active_keys s - {task_key t},
                          report := report_record (report s) success\<rparr>
      | Some (t, Inl e) \<Rightarrow> (take_task t s)\<lparr>task_error := Some e, phase := Draining\<rparr>
      | None \<Rightarrow>
          if report_due p then
            s\<lparr>logs := logs s @ [report_log (report s) period (elapsed p) (length (pending s))]\<rparr>
          else if tick_due p \<and> can_admit max_in_flight s then admit s
          else s)"

text \<open>One turn of the draining loop, and its end.\<close>

definition drain_step :: "task \<Rightarrow> 'e + bool \<Rightarrow> 'e sched \<Rightarrow> 'e sched" where
  "drain_step t r s =
     (case r of
        Inr success \<Rightarrow> (take_task t s)\<lparr>report := report_record (report s) success\<rparr>
      | Inl e \<Rightarrow> (take_task t s)\<lparr>task_error := Some e\<rparr>)"

definition finish_step :: "duration \<Rightarrow> duration \<Rightarrow> 'e sched \<Rightarrow> 'e sched" where
  "finish_step period now s =
     s\<lparr>logs := logs s @ [report_log (report s) period now 0],
       phase := Finished (case task_error s of None \<Rightarrow> Inr (report s) | Some e \<Rightarrow> Inl e)\<rparr>"

datatype 'e event = Select "'e poll" | Drain task "'e + bool" | Finish duration

definition enabled :: "'e event \<Rightarrow> 'e sched \<Rightarrow> bool" where
  "enabled ev s =
     (case ev of
        Select p \<Rightarrow> phase s = Admitting \<and>
          (case finished p of None \<Rightarrow> True | Some (t, _) \<Rightarrow> t \<in> set (pending s))
      | Drain t _ \<Rightarrow> phase s = Draining \<and> t \<in> set (pending s)
      | Finish _ \<Rightarrow> phase s = Draining \<and> pending s = [])"

definition apply_event :: "duration \<Rightarrow> nat \<Rightarrow> 'e event \<Rightarrow> 'e sched \<Rightarrow> 'e sched" where
  "apply_event period max_in_flight ev s =
     (case ev of Select p \<Rightarrow> select_step period max_in_flight p s
      | Drain t r \<Rightarrow> drain_step t r s
      | Finish now \<Rightarrow> finish_step period now s)"

inductive send_step :: "duration \<Rightarrow> nat \<Rightarrow> 'e sched \<Rightarrow> 'e sched \<Rightarrow> bool"
  for period :: duration and max_in_flight :: nat where
  step: "enabled ev s \<Longrightarrow> send_step period max_in_flight s (apply_event period max_in_flight ev s)"

text \<open>A run over given events, defined as long as each is enabled.\<close>

fun run_events :: "duration \<Rightarrow> nat \<Rightarrow> 'e event list \<Rightarrow> 'e sched \<Rightarrow> 'e sched option" where
  "run_events period m [] s = Some s"
| "run_events period m (ev # evs) s =
     (if enabled ev s then run_events period m evs (apply_event period m ev s) else None)"

abbreviation send_reachable :: "duration \<Rightarrow> nat \<Rightarrow> 'e sched \<Rightarrow> bool" where
  "send_reachable period m \<equiv> reachable (\<lambda>s. s = sched_init) (send_step period m)"

lemma run_events_reachable:
  "run_events period m evs s = Some t \<Longrightarrow> send_reachable period m s \<Longrightarrow> send_reachable period m t"
  by (induction evs arbitrary: s) (auto split: if_splits intro: reach_step send_step.step)

lemma run_from_init:
  "run_events period m evs sched_init = Some t \<Longrightarrow> send_reachable period m t"
  by (rule run_events_reachable) (auto intro: reach_init)

section \<open>The invariant\<close>

definition stamped_order :: "nat \<Rightarrow> order" where
  "stamped_order n = (order_at (of_nat n))\<lparr>ts_ms := i64_from_u64_or_max (of_nat n)\<rparr>"

definition task_of :: "order \<Rightarrow> task" where
  "task_of ord = \<lparr>task_key = category ord, task_order = ord\<rparr>"

definition of_key :: "string \<Rightarrow> order list \<Rightarrow> order list" where
  "of_key k ords = filter (\<lambda>x. category x = k) ords"

text \<open>
  What every step keeps of the data: the tasks carry the key of their order and distinct keys, the
  limit holds, exactly the orders up to the index were started, in order, and per key the started
  orders are the joined ones followed by the pending one.
\<close>

definition data_inv :: "nat \<Rightarrow> 'e sched \<Rightarrow> bool" where
  "data_inv m s \<longleftrightarrow>
     (\<forall>t \<in> set (pending s). t = task_of (task_order t)) \<and>
     distinct (map task_key (pending s)) \<and>
     length (pending s) \<le> m \<and>
     index s = of_nat (length (started s)) \<and>
     next_order s = order_at (index s) \<and>
     started s = map stamped_order [0..<length (started s)] \<and>
     (\<forall>k. of_key k (started s) = of_key k (joined s) @ of_key k (map task_order (pending s))) \<and>
     length (joined s) + length (pending s) = length (started s)"

text \<open>
  And of the control: while orders are admitted the active keys are those of the pending tasks and
  no join failed; without a join error every joined order was counted; a finished run has drained.
\<close>

definition counts :: "send_report \<Rightarrow> nat \<Rightarrow> bool" where
  "counts r n \<longleftrightarrow> (\<exists>a f. acknowledged r = of_nat a \<and> failed r = of_nat f \<and> a + f = n)"

definition control_inv :: "'e sched \<Rightarrow> bool" where
  "control_inv s \<longleftrightarrow>
     (phase s = Admitting \<longrightarrow> active_keys s = task_key ` set (pending s) \<and> task_error s = None) \<and>
     (task_error s = None \<longrightarrow> counts (report s) (length (joined s))) \<and>
     (\<forall>r. phase s = Finished r \<longrightarrow> pending s = [] \<and>
        r = (case task_error s of None \<Rightarrow> Inr (report s) | Some e \<Rightarrow> Inl e))"

definition sched_inv :: "nat \<Rightarrow> 'e sched \<Rightarrow> bool" where
  "sched_inv m s \<longleftrightarrow> data_inv m s \<and> control_inv s"

lemma of_key_simps [simp]:
  "of_key k [] = []"
  "of_key k (x # xs) = (if category x = k then x # of_key k xs else of_key k xs)"
  "of_key k (xs @ ys) = of_key k xs @ of_key k ys"
  by (simp_all add: of_key_def)

lemma task_of_simps [simp]:
  "task_key (task_of ord) = category ord" "task_order (task_of ord) = ord"
  by (simp_all add: task_of_def)

lemma of_key_remove1:
  assumes "\<forall>t \<in> set ps. t = task_of (task_order t)" and "distinct (map task_key ps)" and "t \<in> set ps"
  shows "of_key k (map task_order ps) =
    of_key k [task_order t] @ of_key k (map task_order (remove1 t ps))"
  using assms
proof (induction ps)
  case (Cons p ps)
  have cons: "\<forall>t \<in> set ps. t = task_of (task_order t)" using Cons.prems(1) by simp
  show ?case
  proof (cases "p = t")
    case False
    then have t: "t \<in> set ps" using Cons.prems(3) by simp
    have IH: "of_key k (map task_order ps) =
        of_key k [task_order t] @ of_key k (map task_order (remove1 t ps))"
      using Cons.IH [OF cons] Cons.prems(2) t by simp
    have "task_key p \<noteq> task_key t" using Cons.prems(2) t by auto
    then have "category (task_order p) \<noteq> category (task_order t)"
      using Cons.prems(1) t by (metis list.set_intros(1,2) task_of_simps(1))
    then show ?thesis using IH False by auto
  qed simp
qed simp

lemma data_inv_take:
  assumes "data_inv m s" and "t \<in> set (pending s)"
  shows "data_inv m (take_task t s)"
proof -
  have "length (remove1 t (pending s)) \<le> length (pending s)"
    using assms(2) by (simp add: length_remove1)
  moreover have "length (pending s) = Suc (length (remove1 t (pending s)))"
    using assms(2) length_pos_if_in_set [of t] by (simp add: length_remove1)
  moreover have "of_key k (map task_order (pending s)) =
      of_key k [task_order t] @ of_key k (map task_order (remove1 t (pending s)))" for k
    using assms by (intro of_key_remove1) (auto simp: data_inv_def)
  ultimately show ?thesis
    using assms unfolding data_inv_def take_task_def
    by (simp add: distinct_map_remove1 del: map_append)
      (auto dest: notin_set_remove1 [rotated] set_remove1_subset [THEN subsetD])
qed

lemma data_inv_admit:
  assumes "data_inv m s" and "control_inv s" and "phase s = Admitting" and "can_admit m s"
  shows "data_inv m (admit s)"
proof -
  define n where "n = length (started s)"
  define x where "x = (next_order s)\<lparr>ts_ms := i64_from_u64_or_max (index s)\<rparr>"
  have x: "x = stamped_order n" "category x = category (next_order s)"
    using assms(1) by (simp_all add: x_def data_inv_def stamped_order_def n_def)
  have fresh: "category x \<notin> task_key ` set (pending s)"
    using assms(2-4) by (auto simp: control_inv_def can_admit_def x(2))
  have room: "Suc (length (pending s)) \<le> m" using assms(4) by (simp add: can_admit_def)
  have adm: "pending (admit s) = pending s @ [task_of x]" "started (admit s) = started s @ [x]"
    "index (admit s) = index s + 1" "next_order (admit s) = order_at (index s + 1)"
    "joined (admit s) = joined s"
    by (simp_all add: admit_def Let_def x_def task_of_def)
  have st: "started s @ [x] = map stamped_order [0..<length (started s @ [x])]"
    using assms(1) x(1) by (simp add: data_inv_def n_def)
  show ?thesis
    using assms(1) fresh room x(1) unfolding data_inv_def adm n_def
    by (intro conjI; (rule st | auto))
qed

lemma data_inv_upd [simp]:
  "data_inv m (s\<lparr>phase := p\<rparr>) = data_inv m s"
  "data_inv m (s\<lparr>logs := l\<rparr>) = data_inv m s"
  "data_inv m (s\<lparr>report := r\<rparr>) = data_inv m s"
  "data_inv m (s\<lparr>active_keys := a\<rparr>) = data_inv m s"
  "data_inv m (s\<lparr>task_error := e\<rparr>) = data_inv m s"
  by (simp_all add: data_inv_def)

lemma take_task_simps [simp]:
  "pending (take_task t s) = remove1 t (pending s)"
  "joined (take_task t s) = joined s @ [task_order t]"
  "active_keys (take_task t s) = active_keys s"
  "report (take_task t s) = report s"
  "task_error (take_task t s) = task_error s"
  "phase (take_task t s) = phase s"
  "started (take_task t s) = started s"
  by (simp_all add: take_task_def)

lemma admit_simps [simp]:
  "active_keys (admit s) = insert (category (next_order s)) (active_keys s)"
  "report (admit s) = report s" "task_error (admit s) = task_error s"
  "phase (admit s) = phase s" "joined (admit s) = joined s"
  "task_key ` set (pending (admit s)) = insert (category (next_order s)) (task_key ` set (pending s))"
  "length (started (admit s)) = Suc (length (started s))"
  by (simp_all add: admit_def Let_def)

lemma counts_record:
  assumes "counts r n"
  shows "counts (report_record r b) (Suc n)"
proof -
  obtain a f where af: "acknowledged r = of_nat a" "failed r = of_nat f" "a + f = n"
    using assms by (auto simp: counts_def)
  show ?thesis
  proof (cases b)
    case True
    then show ?thesis using af unfolding counts_def report_record_def
      by (intro exI [of _ "Suc a"] exI [of _ f]) simp
  next
    case False
    then show ?thesis using af unfolding counts_def report_record_def
      by (intro exI [of _ a] exI [of _ "Suc f"]) simp
  qed
qed

lemma counts_exact:
  assumes "counts r n" and "n < 2 ^ 64"
  shows "unat (acknowledged r) + unat (failed r) = n"
proof -
  obtain a f where "acknowledged r = of_nat a" "failed r = of_nat f" "a + f = n"
    using assms(1) by (auto simp: counts_def)
  moreover from this(3) assms(2) have "a < 2 ^ 64" "f < 2 ^ 64" by auto
  ultimately show ?thesis by (simp add: unat_of_nat)
qed

lemma select_step_cases:
  obtains (shutdown) "select_step period m p s = s\<lparr>phase := Draining\<rparr>"
  | (ok) t b where "finished p = Some (t, Inr b)"
      "select_step period m p s = (take_task t s)\<lparr>active_keys := active_keys s - {task_key t},
         report := report_record (report s) b\<rparr>"
  | (join_error) t e where "finished p = Some (t, Inl e)"
      "select_step period m p s = (take_task t s)\<lparr>task_error := Some e, phase := Draining\<rparr>"
  | (log) l where "select_step period m p s = s\<lparr>logs := l\<rparr>"
  | (admit) "can_admit m s" "select_step period m p s = admit s"
  | (wait) "select_step period m p s = s"
proof (cases "shutdown_ready p")
  case True
  then show thesis by (intro shutdown) (simp add: select_step_def)
next
  case False
  show thesis
  proof (cases "if pending s \<noteq> [] then finished p else None")
    case None
    then have eq: "select_step period m p s =
        (if report_due p then
           s\<lparr>logs := logs s @ [report_log (report s) period (elapsed p) (length (pending s))]\<rparr>
         else if tick_due p \<and> can_admit m s then admit s else s)"
      using False by (simp add: select_step_def)
    consider "report_due p" | "\<not> report_due p" "tick_due p" "can_admit m s"
      | "\<not> report_due p" "\<not> (tick_due p \<and> can_admit m s)" by blast
    then show thesis
    proof cases
      case 1
      then show thesis using eq by (intro log) simp
    next
      case 2
      then show thesis using eq by (intro admit) simp_all
    next
      case 3
      then show thesis using eq by (intro wait) auto
    qed
  next
    case (Some tr)
    then obtain t r where tr: "finished p = Some (t, r)" "pending s \<noteq> []"
      by (cases tr) (auto split: if_splits)
    show thesis
    proof (cases r)
      case (Inl e)
      show thesis using tr Inl False by (intro join_error [of t e]) (simp_all add: select_step_def)
    next
      case (Inr b)
      show thesis using tr Inr False by (intro ok [of t b]) (simp_all add: select_step_def)
    qed
  qed
qed

lemma sched_inv_select:
  assumes inv: "sched_inv m s" and en: "enabled (Select p) s"
  shows "sched_inv m (select_step period m p s)"
proof -
  have d: "data_inv m s" and c: "control_inv s" and ph: "phase s = Admitting"
    using inv en by (auto simp: sched_inv_def enabled_def)
  have taken: "data_inv m (take_task t s)" "t \<in> set (pending s)"
    "task_key ` set (remove1 t (pending s)) = task_key ` set (pending s) - {task_key t}"
    if "finished p = Some (t, r)" for t r
  proof -
    show t: "t \<in> set (pending s)" using en that by (simp add: enabled_def)
    then show "data_inv m (take_task t s)" using d by (rule data_inv_take [rotated])
    show "task_key ` set (remove1 t (pending s)) = task_key ` set (pending s) - {task_key t}"
      using d t by (intro remove1_set_distinct_map) (simp_all add: data_inv_def)
  qed
  show ?thesis
  proof (cases rule: select_step_cases [of period m p s])
    case shutdown
    then show ?thesis using d c ph by (simp add: sched_inv_def control_inv_def)
  next
    case (ok t b)
    then show ?thesis using taken [OF ok(1)] c ph
      by (simp add: sched_inv_def control_inv_def counts_record)
  next
    case (join_error t e)
    then show ?thesis using taken [OF join_error(1)] c ph
      by (simp add: sched_inv_def control_inv_def)
  next
    case (log l)
    then show ?thesis using d c by (simp add: sched_inv_def control_inv_def cong: option.case_cong)
  next
    case admit
    then show ?thesis using data_inv_admit [OF d c ph admit(1)] c ph
      by (simp add: sched_inv_def control_inv_def)
  next
    case wait
    then show ?thesis using inv by simp
  qed
qed

lemma sched_inv_event:
  assumes "sched_inv m s" and "enabled ev s"
  shows "sched_inv m (apply_event period m ev s)"
proof (cases ev)
  case (Select p)
  then show ?thesis using assms by (simp add: apply_event_def sched_inv_select)
next
  case (Drain t r)
  then have "data_inv m (take_task t s)" and "phase s = Draining"
    using assms by (auto simp: sched_inv_def enabled_def intro: data_inv_take)
  then show ?thesis using assms Drain
    by (cases r) (auto simp: apply_event_def drain_step_def sched_inv_def control_inv_def counts_record)
next
  case (Finish now)
  then show ?thesis using assms
    by (simp add: apply_event_def finish_step_def sched_inv_def control_inv_def enabled_def
        cong: option.case_cong)
qed

lemma sched_inv_init: "sched_inv m sched_init"
  by (simp add: sched_inv_def data_inv_def control_inv_def sched_init_def report_default_def counts_def)

interpretation sched: invariant_system "\<lambda>s. s = sched_init" "send_step period m" "sched_inv m"
  for period m
  by unfold_locales (auto simp: sched_inv_init elim!: send_step.cases intro: sched_inv_event)

lemma pending_le_categories:
  assumes "data_inv m s"
  shows "length (pending s) \<le> 5"
proof -
  have "distinct (map category (map task_order (pending s)))"
  proof -
    have "\<forall>t \<in> set (pending s). category (task_order t) = task_key t"
      using assms by (metis data_inv_def task_of_simps(1))
    then have "map category (map task_order (pending s)) = map task_key (pending s)"
      by simp
    then show ?thesis using assms by (simp only: data_inv_def)
  qed
  moreover have "\<forall>x \<in> set (map task_order (pending s)). \<exists>i. category x = category (order_at i)"
  proof
    fix x assume x: "x \<in> set (map task_order (pending s))"
    then have "x \<in> set (of_key (category x) (map task_order (pending s)))" by (simp add: of_key_def)
    then have "x \<in> set (of_key (category x) (started s))" using assms by (simp add: data_inv_def)
    then have "x \<in> set (started s)" by (simp add: of_key_def)
    then have "x \<in> stamped_order ` set [0..<length (started s)]"
      using assms unfolding data_inv_def by (metis set_map)
    then obtain n where "x = stamped_order n" by auto
    then show "\<exists>i. category x = category (order_at i)" by (auto simp: stamped_order_def)
  qed
  ultimately show ?thesis using demo_orders.distinct_keys_bound by fastforce
qed

end
