(* ===== verification/Scheduler_Spec.thy ===== *)
theory Scheduler_Spec
  imports Scheduler "HOL-Library.Multiset"
begin

text \<open>
  What \<open>send_orders\<close> promises, proved of every reachable state of the loop: the concurrency bound,
  the admission order, the order per key, the accounting (also by the result of each delivery), the
  release of backpressure and the drain; the effective limit of five; and an abstract specification
  of the admission (a set of pending orders, one per key) that every step of the loop refines.
\<close>

section \<open>From the invariant\<close>

lemma reachable_inv:
  assumes "send_reachable period m s"
  shows "data_inv m s" and "control_inv s"
  using sched.inv_reachable [OF assms] by (simp_all add: sched_inv_def)

lemma mset_eq_by_key:
  assumes "\<And>k. of_key k xs = of_key k ys"
  shows "mset xs = mset ys"
proof (rule multiset_eqI)
  fix x
  have "count (mset xs) x = count (mset (of_key (category x) xs)) x" for xs
    by (simp add: of_key_def)
  then show "count (mset xs) x = count (mset ys) x" using assms by metis
qed

lemma data_inv_mset:
  "data_inv m s \<Longrightarrow> mset (started s) = mset (joined s) + mset (map task_order (pending s))"
  using mset_eq_by_key [of "started s" "joined s @ map task_order (pending s)"]
  by (simp add: data_inv_def)

lemma data_inv_keys:
  "data_inv m s \<Longrightarrow> map task_key (pending s) = map category (map task_order (pending s))"
  by (auto simp: data_inv_def) (metis task_of_simps(1))

lemma data_inv_distinct:
  "data_inv m s \<Longrightarrow> distinct (map category (map task_order (pending s)))"
  by (metis data_inv_def data_inv_keys)

lemma of_key_distinct: "distinct (map category xs) \<Longrightarrow> length (of_key k xs) \<le> 1"
  by (induction xs) (auto simp: of_key_def filter_empty_conv image_iff)

lemma can_admit_five:
  assumes "data_inv m s" and "control_inv s" and "phase s = Admitting" and "5 \<le> m"
  shows "can_admit m s \<longleftrightarrow> can_admit 5 s"
proof
  assume c: "can_admit m s"
  let ?K = "insert (category (next_order s)) (task_key ` set (pending s))"
  have "data_inv m (admit s)" using data_inv_admit [OF assms(1-3) c] .
  then have "length (pending (admit s)) \<le> 5" by (rule pending_le_categories)
  then show "can_admit 5 s" using c by (simp add: can_admit_def admit_def Let_def)
next
  assume "can_admit 5 s"
  then show "can_admit m s" using assms(4) by (simp add: can_admit_def)
qed

lemma select_step_five:
  assumes "data_inv m s" and "control_inv s" and "phase s = Admitting" and "5 \<le> m"
  shows "select_step period m p s = select_step period 5 p s"
  using can_admit_five [OF assms] by (simp only: select_step_def)

lemma send_step_five:
  assumes "sched_inv m s" and "5 \<le> m"
  shows "send_step period m s t \<longleftrightarrow> send_step period 5 s t"
proof -
  have "apply_event period m ev s = apply_event period 5 ev s" if "enabled ev s" for ev
    using assms that select_step_five [of m s]
    by (cases ev) (simp_all add: apply_event_def enabled_def sched_inv_def)
  then show ?thesis by (metis send_step.simps)
qed

section \<open>One at a time\<close>

text \<open>With the default limit of one the whole stream stays in order, not only each key.\<close>

definition serial_inv :: "'e sched \<Rightarrow> bool" where
  "serial_inv s \<longleftrightarrow> sched_inv 1 s \<and> started s = joined s @ map task_order (pending s)"

lemma serial_take:
  assumes "serial_inv s" and "t \<in> set (pending s)"
  shows "started (take_task t s) =
    joined (take_task t s) @ map task_order (pending (take_task t s))"
proof -
  have "length (pending s) \<le> 1" using assms(1) by (simp add: serial_inv_def sched_inv_def data_inv_def)
  then have "pending s = [t]" using assms(2) by (cases "pending s") auto
  then show ?thesis using assms(1) by (simp add: serial_inv_def)
qed

lemma serial_event:
  assumes "serial_inv s" and en: "enabled ev s"
  shows "serial_inv (apply_event period 1 ev s)"
proof -
  have inv: "sched_inv 1 (apply_event period 1 ev s)"
    using assms by (intro sched_inv_event) (simp_all add: serial_inv_def)
  have "started (apply_event period 1 ev s) = joined (apply_event period 1 ev s) @
      map task_order (pending (apply_event period 1 ev s))"
  proof (cases ev)
    case (Select p)
    show ?thesis
    proof (cases rule: select_step_cases [of period 1 p s])
      case (ok t b)
      then have "t \<in> set (pending s)" using en Select by (simp add: enabled_def)
      then show ?thesis using serial_take [OF assms(1)] ok(2) Select by (simp add: apply_event_def)
    next
      case (join_error t e)
      then have "t \<in> set (pending s)" using en Select by (simp add: enabled_def)
      then show ?thesis using serial_take [OF assms(1)] join_error(2) Select
        by (simp add: apply_event_def)
    next
      case admit
      then have "pending s = []" by (simp add: can_admit_def)
      then show ?thesis using assms(1) admit(2) Select
        by (simp add: apply_event_def admit_def Let_def serial_inv_def)
    qed (use assms(1) Select in \<open>simp_all add: apply_event_def serial_inv_def\<close>)
  next
    case (Drain t r)
    then show ?thesis using serial_take [OF assms(1), of t] en
      by (cases r) (simp_all add: apply_event_def drain_step_def enabled_def)
  next
    case (Finish now)
    then show ?thesis using assms(1) by (simp add: apply_event_def finish_step_def serial_inv_def)
  qed
  with inv show ?thesis by (simp add: serial_inv_def)
qed

lemma serial_inv_init: "serial_inv sched_init"
  by (simp add: serial_inv_def sched_inv_init) (simp add: sched_init_def)

interpretation serial: invariant_system "\<lambda>s. s = sched_init" "send_step period 1" serial_inv
  for period
  by unfold_locales
    (auto elim!: send_step.cases intro: serial_inv_init serial_event simp del: One_nat_def)

section \<open>Draining\<close>

definition drain_measure :: "'e sched \<Rightarrow> nat" where
  "drain_measure s = (case phase s of Finished _ \<Rightarrow> 0 | _ \<Rightarrow> Suc (length (pending s)))"

lemma drain_step_decreases:
  assumes "phase s \<noteq> Admitting" and "send_step period m s t"
  shows "phase t \<noteq> Admitting \<and> started t = started s \<and> drain_measure t < drain_measure s"
  using assms(2)
proof cases
  case (step ev)
  show ?thesis
  proof (cases ev)
    case (Select p)
    then show ?thesis using step assms(1) by (simp add: enabled_def)
  next
    case (Drain u r)
    then have "phase s = Draining" "u \<in> set (pending s)" using step by (auto simp: enabled_def)
    then show ?thesis using step Drain length_pos_if_in_set [of u]
      by (cases r) (simp_all add: apply_event_def drain_step_def drain_measure_def length_remove1)
  next
    case (Finish now)
    then show ?thesis using step
      by (simp add: apply_event_def finish_step_def drain_measure_def enabled_def)
  qed
qed

lemma drain_steps_bound:
  assumes "(send_step period m ^^ n) s t" and "phase s \<noteq> Admitting"
  shows "phase t \<noteq> Admitting \<and> started t = started s \<and> n + drain_measure t \<le> drain_measure s"
  using assms
proof (induction n arbitrary: t)
  case (Suc n)
  then obtain u where u: "(send_step period m ^^ n) s u" and ut: "send_step period m u t" by auto
  have a: "phase u \<noteq> Admitting \<and> started u = started s \<and> n + drain_measure u \<le> drain_measure s"
    using Suc.IH [OF u Suc.prems(2)] .
  then have "phase t \<noteq> Admitting \<and> started t = started u \<and> drain_measure t < drain_measure u"
    using drain_step_decreases [OF _ ut] by blast
  with a show ?case by simp
qed simp

lemma drain_progress:
  assumes "phase s = Draining"
  shows "\<exists>t. send_step period m s t"
proof (cases "pending s")
  case Nil
  then have "enabled (Finish 0) s" using assms by (simp add: enabled_def)
  then show ?thesis by (blast intro: send_step.step)
next
  case (Cons u us)
  then have "enabled (Drain u (Inr True)) s" using assms by (simp add: enabled_def)
  then show ?thesis by (blast intro: send_step.step)
qed

section \<open>An abstract specification\<close>

text \<open>
  The contract in terms of orders alone: while open, an order whose category is not in flight may
  join the ones in flight, up to the limit; an order in flight may leave; the gate closes once.
\<close>

record gate =
  gate_open :: bool
  gate_admitted :: nat
  in_flight :: "order set"

inductive gate_step :: "nat \<Rightarrow> gate \<Rightarrow> gate \<Rightarrow> bool" for limit :: nat where
  gate_admit: "gate_open g \<Longrightarrow> card (in_flight g) < limit \<Longrightarrow>
     \<forall>x \<in> in_flight g. category x \<noteq> category (stamped_order (gate_admitted g)) \<Longrightarrow>
     gate_step limit g (g\<lparr>gate_admitted := gate_admitted g + 1,
       in_flight := insert (stamped_order (gate_admitted g)) (in_flight g)\<rparr>)"
| gate_leave: "x \<in> in_flight g \<Longrightarrow> gate_step limit g (g\<lparr>in_flight := in_flight g - {x}\<rparr>)"
| gate_close: "gate_step limit g (g\<lparr>gate_open := False\<rparr>)"

definition gate_of :: "'e sched \<Rightarrow> gate" where
  "gate_of s = \<lparr>gate_open = (phase s = Admitting), gate_admitted = length (started s),
                in_flight = task_order ` set (pending s)\<rparr>"

lemma gate_of_congs [simp]:
  "gate_of (s\<lparr>logs := l\<rparr>) = gate_of s" "gate_of (s\<lparr>report := r\<rparr>) = gate_of s"
  "gate_of (s\<lparr>active_keys := a\<rparr>) = gate_of s" "gate_of (s\<lparr>task_error := e\<rparr>) = gate_of s"
  by (simp_all add: gate_of_def)

lemma inj_task_order: "data_inv m s \<Longrightarrow> inj_on task_order (set (pending s))"
  unfolding data_inv_def by (metis inj_onI)

lemma gate_leave_task:
  assumes "data_inv m s" and "t \<in> set (pending s)"
  shows "gate_step limit (gate_of s) (gate_of (take_task t s))"
proof -
  have "distinct (pending s)" using assms(1) by (simp add: data_inv_def distinct_map)
  then have "task_order ` set (remove1 t (pending s)) = task_order ` set (pending s) - {task_order t}"
    using inj_task_order [OF assms(1)] assms(2)
    by (simp add: set_remove1_eq inj_on_image_set_diff [of task_order "set (pending s)"])
  then have "gate_of (take_task t s) = (gate_of s)\<lparr>in_flight := in_flight (gate_of s) - {task_order t}\<rparr>"
    by (simp add: gate_of_def)
  moreover have "task_order t \<in> in_flight (gate_of s)" using assms(2) by (simp add: gate_of_def)
  ultimately show ?thesis by (metis gate_leave)
qed

lemma gate_admit_order:
  assumes "data_inv m s" and "control_inv s" and "phase s = Admitting" and "can_admit m s"
  shows "gate_step m (gate_of s) (gate_of (admit s))"
proof -
  let ?x = "stamped_order (length (started s))"
  have x: "(next_order s)\<lparr>ts_ms := i64_from_u64_or_max (index s)\<rparr> = ?x"
    "category ?x = category (next_order s)"
    using assms(1) by (simp_all add: data_inv_def stamped_order_def)
  have "gate_of (admit s) = (gate_of s)\<lparr>gate_admitted := length (started s) + 1,
      in_flight := insert ?x (in_flight (gate_of s))\<rparr>"
    by (simp add: gate_of_def) (simp add: admit_def Let_def x(1))
  moreover have "card (in_flight (gate_of s)) < m"
    using card_length [of "map task_order (pending s)"] assms(4)
    by (simp add: gate_of_def can_admit_def)
  moreover have "\<forall>y \<in> in_flight (gate_of s). category y \<noteq> category ?x"
  proof -
    have "\<forall>t \<in> set (pending s). category (task_order t) = task_key t"
      using assms(1) by (metis data_inv_def task_of_simps(1))
    then show ?thesis using assms(2-4) x(2)
      by (auto simp: gate_of_def control_inv_def can_admit_def) (metis imageI)
  qed
  moreover have "gate_open (gate_of s)" "gate_admitted (gate_of s) = length (started s)"
    using assms(3) by (simp_all add: gate_of_def)
  ultimately show ?thesis by (metis gate_admit)
qed

lemma gate_close_of: "phase s = Admitting \<Longrightarrow> p \<noteq> Admitting \<Longrightarrow>
  gate_step limit (gate_of s) (gate_of (s\<lparr>phase := p\<rparr>))"
proof -
  assume "phase s = Admitting" "p \<noteq> Admitting"
  then have "gate_of (s\<lparr>phase := p\<rparr>) = (gate_of s)\<lparr>gate_open := False\<rparr>"
    by (simp add: gate_of_def)
  then show ?thesis by (metis gate_close)
qed

lemma gate_refines_select:
  assumes inv: "sched_inv m s" and en: "enabled (Select p) s"
  shows "(gate_step m)\<^sup>*\<^sup>* (gate_of s) (gate_of (select_step period m p s))"
proof -
  have d: "data_inv m s" and c: "control_inv s" and ph: "phase s = Admitting"
    using inv en by (auto simp: sched_inv_def enabled_def)
  show ?thesis
  proof (cases rule: select_step_cases [of period m p s])
    case shutdown
    then show ?thesis using gate_close_of [OF ph] by auto
  next
    case (ok t b)
    then have "t \<in> set (pending s)" using en by (simp add: enabled_def)
    then show ?thesis using gate_leave_task [OF d] ok(2) by auto
  next
    case (join_error t e)
    then have "t \<in> set (pending s)" using en by (simp add: enabled_def)
    then have "gate_step m (gate_of s) (gate_of (take_task t s))"
      using gate_leave_task [OF d] by blast
    moreover have "gate_step m (gate_of (take_task t s)) (gate_of ((take_task t s)\<lparr>phase := Draining\<rparr>))"
      using ph by (intro gate_close_of) simp_all
    ultimately show ?thesis using join_error(2)
      by (simp add: gate_of_def)
  next
    case admit
    then show ?thesis using gate_admit_order [OF d c ph] by auto
  qed simp_all
qed

section \<open>Rates\<close>

lemma round_mag_le_pow2:
  assumes "0 \<le> x" and "x \<le> 2 ^ k"
  shows "round_mag x \<le> 2 ^ k"
proof (cases "x = 0")
  case False
  with assms have x: "0 < x" by simp
  then have "x < 2 powi (int k + 1)" using assms(2) by (simp add: power_int_add)
  then have "quantum x \<le> int k" using quantum_below_powi [OF x, of "int k + 1"] by simp
  then show ?thesis using round_mag_le_grid [OF x, of "int k" 1] assms(2) by simp
qed simp

lemma nonneg_num:
  assumes "0 \<le> x" and "x \<le> 2 ^ k" and "k \<le> 1023"
  shows "\<exists>r. round64 x = F64_Num False r \<and> 0 \<le> r \<and> r \<le> 2 ^ k"
proof -
  have "(2::rat) ^ k \<le> 2 ^ 1023" using assms(3) by (rule power_increasing) simp
  then have "x \<le> 2 ^ 1023" using assms(2) by (rule order_trans [rotated])
  then show ?thesis
    using assms round64_num [OF assms(1)] round_mag_le_pow2 round_mag_nonneg by blast
qed

lemma as_secs_bound:
  assumes "d div 10 ^ 9 \<le> 2 ^ 64"
  shows "\<exists>r. as_secs_f64 d = F64_Num False r \<and> 0 \<le> r \<and> r \<le> 2 ^ 65"
proof -
  have "(of_nat (d div 10 ^ 9) :: rat) \<le> of_nat (2 ^ 64)" using assms by (simp only: of_nat_le_iff)
  then obtain a where a: "f64_of_nat (d div 10 ^ 9) = F64_Num False a" "0 \<le> a" "a \<le> 2 ^ 64"
    using nonneg_num [of "of_nat (d div 10 ^ 9)" 64] by (auto simp: f64_of_nat_def)
  have "d mod 10 ^ 9 < 10 ^ 9" by simp
  then have n: "f64_of_nat (d mod 10 ^ 9) = F64_Num False (of_nat (d mod 10 ^ 9))"
    by (intro f64_of_nat_num) simp
  have g: "f64_of_nat (10 ^ 9) = F64_Num False (10 ^ 9)" using f64_of_nat_num [of "10 ^ 9"] by simp
  define q where "q = (of_nat (d mod 10 ^ 9) :: rat) / 10 ^ 9"
  have "(of_nat (d mod 10 ^ 9) :: rat) \<le> of_nat (10 ^ 9)"
    by (simp only: of_nat_le_iff) (simp add: less_imp_le)
  then have q: "0 \<le> q" "q \<le> 2 ^ 0" by (simp_all add: q_def)
  then have b: "0 \<le> round_mag q" "round_mag q \<le> 1"
    using round_mag_nonneg round_mag_le_pow2 [of q 0] by simp_all
  have "q \<le> 2 ^ 1023" by (rule order_trans [OF q(2)]) simp
  then have "div64 (F64_Num False (of_nat (d mod 10 ^ 9))) (F64_Num False (10 ^ 9)) =
      F64_Num False (round_mag q)"
    unfolding q_def by (intro div64_num) simp_all
  then have s: "as_secs_f64 d = add64 (F64_Num False a) (F64_Num False (round_mag q))"
    by (simp only: as_secs_f64_def a(1) n g)
  have "a + round_mag q \<le> 2 ^ 65" using a(3) b(2) by simp
  then obtain r where "round64 (a + round_mag q) = F64_Num False r" "0 \<le> r" "r \<le> 2 ^ 65"
    using nonneg_num [of "a + round_mag q" 65] a(2) b(1) by auto
  then show ?thesis using s by (auto simp: Let_def)
qed

section \<open>A run\<close>

text \<open>Two orders overlap, the first is acknowledged, shutdown drains the second.\<close>

definition idle_poll :: "'e poll" where
  "idle_poll = \<lparr>shutdown_ready = False, finished = None, report_due = False, tick_due = False, elapsed = 0\<rparr>"

definition demo_events :: "string event list" where
  "demo_events =
     [Select (idle_poll\<lparr>tick_due := True\<rparr>),
      Select (idle_poll\<lparr>tick_due := True\<rparr>),
      Select (idle_poll\<lparr>tick_due := True\<rparr>),
      Select (idle_poll\<lparr>finished := Some (task_of (stamped_order 0), Inr True)\<rparr>),
      Select (idle_poll\<lparr>shutdown_ready := True, tick_due := True\<rparr>),
      Drain (task_of (stamped_order 1)) (Inr False),
      Finish 0]"

lemma demo_categories: "category (order_at 0) = ''books''" "category (order_at 1) = ''electronics''"
  "category (order_at 2) = ''grocery''"
  by (simp_all add: CATEGORIES_def)

lemma stamped_small:
  "task_of (stamped_order 0) = \<lparr>task_key = ''books'', task_order = (order_at 0)\<lparr>ts_ms := 0\<rparr>\<rparr>"
  "task_of (stamped_order 1) = \<lparr>task_key = ''electronics'', task_order = (order_at 1)\<lparr>ts_ms := 1\<rparr>\<rparr>"
  by (simp_all add: task_of_def stamped_order_def i64_from_u64_or_max_def i64_max_def CATEGORIES_def)

lemma demo_prefix:
  "run_events period 2 (take 3 demo_events) sched_init =
     Some \<lparr>pending = [task_of (stamped_order 0), task_of (stamped_order 1)],
       active_keys = {''electronics'', ''books''}, report = report_default, index = 2,
       next_order = order_at 2, task_error = None, phase = Admitting,
       started = [stamped_order 0, stamped_order 1], joined = [], logs = []\<rparr>"
  by (simp add: demo_events_def idle_poll_def sched_init_def enabled_def apply_event_def
      select_step_def can_admit_def admit_def Let_def demo_categories stamped_order_def task_of_def
      del: order_at_simps)

lemma run_events_append:
  "run_events period m (xs @ ys) s = Option.bind (run_events period m xs s) (run_events period m ys)"
  by (induction xs arbitrary: s) auto

lemma stamped_distinct: "task_of (stamped_order 1) \<noteq> task_of (stamped_order 0)"
  by (simp add: stamped_small del: One_nat_def)

definition demo_final :: "duration \<Rightarrow> string sched" where
  "demo_final period =
     \<lparr>pending = [], active_keys = {''electronics''},
       report = \<lparr>acknowledged = 1, failed = 1\<rparr>, index = 2,
       next_order = order_at 2, task_error = None,
       phase = Finished (Inr \<lparr>acknowledged = 1, failed = 1\<rparr>),
       started = [stamped_order 0, stamped_order 1], joined = [stamped_order 0, stamped_order 1],
       logs = [report_log \<lparr>acknowledged = 1, failed = 1\<rparr> period 0 0]\<rparr>"

lemma demo_run: "run_events period 2 demo_events sched_init = Some (demo_final period)"
proof -
  have split: "demo_events = take 3 demo_events @ drop 3 demo_events" by simp
  have keys: "category (stamped_order 0) = ''books''"
    "insert ''electronics'' {''books''} - {''books''} = {''electronics''}"
    by (auto simp: stamped_order_def CATEGORIES_def)
  show ?thesis
    by (subst split, subst run_events_append, subst demo_prefix)
      (simp add: demo_events_def idle_poll_def enabled_def apply_event_def
        select_step_def drain_step_def finish_step_def take_task_def keys stamped_distinct
        report_record_def report_default_def demo_final_def del: order_at_simps)
qed

lemma demo_reachable: "send_reachable period 2 (demo_final period)"
  using demo_run by (rule run_from_init)

section \<open>Backpressure is released\<close>

lemma finish_one:
  fixes s :: "'e sched"
  assumes "sched_inv m s" and "phase s = Admitting" and "pending s = t # ts"
  shows "\<exists>u. send_step period m s u \<and> phase u = Admitting \<and> pending u = ts \<and> next_order u = next_order s"
proof -
  define p :: "'e poll" where "p = \<lparr>shutdown_ready = False, finished = Some (t, Inr True),
    report_due = False, tick_due = False, elapsed = 0\<rparr>"
  have "enabled (Select p) s" using assms(2,3) by (simp add: enabled_def p_def)
  then have "send_step period m s (select_step period m p s)"
    using send_step.step [of "Select p" s period m] by (simp add: apply_event_def)
  then show ?thesis
    using assms(2,3) by (intro exI) (auto simp: select_step_def p_def take_task_def)
qed

lemma finish_all:
  assumes "send_reachable period m s" and "phase s = Admitting"
  shows "\<exists>u. (send_step period m ^^ length (pending s)) s u \<and> send_reachable period m u \<and>
    phase u = Admitting \<and> pending u = [] \<and> next_order u = next_order s"
  using assms
proof (induction "pending s" arbitrary: s)
  case Nil
  then show ?case by (intro exI [of _ s]) simp
next
  case (Cons t ts)
  have inv: "sched_inv m s" by (rule sched.inv_reachable [OF Cons.prems(1)])
  obtain v where v: "send_step period m s v" "phase v = Admitting" "pending v = ts" "next_order v = next_order s"
    using finish_one [OF inv Cons.prems(2) Cons.hyps(2) [symmetric]] by blast
  have "send_reachable period m v" by (rule reach_step [OF Cons.prems(1) v(1)])
  then obtain u where u: "(send_step period m ^^ length (pending v)) v u" "send_reachable period m u"
    "phase u = Admitting" "pending u = []" "next_order u = next_order v"
    using Cons.hyps(1) [of v] v(2,3) by blast
  have "(send_step period m ^^ Suc (length ts)) s u"
    using relpowp_Suc_I2 [of "send_step period m" s v "length ts" u] v(1,3) u(1) by simp
  moreover have "length (pending s) = Suc (length ts)" using Cons.hyps(2) by (metis list.size(4) One_nat_def add.right_neutral add_Suc_right)
  ultimately show ?case using u v(4) by auto
qed

section \<open>Deliveries with a given result\<close>

text \<open>The events of a run in which the delivery of an order succeeds exactly when \<open>D\<close> says so.\<close>

definition follows :: "(order \<Rightarrow> bool) \<Rightarrow> 'e event \<Rightarrow> bool" where
  "follows D ev =
     (case ev of
        Select p \<Rightarrow> (case finished p of Some (t, Inr b) \<Rightarrow> b = D (task_order t) | _ \<Rightarrow> True)
      | Drain t (Inr b) \<Rightarrow> b = D (task_order t)
      | _ \<Rightarrow> True)"

definition tally :: "(order \<Rightarrow> bool) \<Rightarrow> 'e sched \<Rightarrow> bool" where
  "tally D s \<longleftrightarrow>
     (task_error s = None \<longrightarrow>
        acknowledged (report s) = of_nat (length (filter D (joined s))) \<and>
        failed (report s) = of_nat (length (filter (\<lambda>x. \<not> D x) (joined s))))"

lemma tally_init: "tally D sched_init"
  by (simp add: tally_def sched_init_def report_default_def)

lemma tally_event:
  assumes "tally D s" and "follows D ev"
  shows "tally D (apply_event period m ev s)"
proof (cases ev)
  case (Select p)
  show ?thesis
    using assms Select
    by (auto simp: tally_def follows_def apply_event_def select_step_def take_task_def admit_def Let_def
        report_record_def split: option.splits sum.splits prod.splits)
next
  case (Drain t r)
  then show ?thesis
    using assms by (cases r)
      (auto simp: tally_def follows_def apply_event_def drain_step_def take_task_def report_record_def)
next
  case (Finish now)
  then show ?thesis using assms by (simp add: tally_def apply_event_def finish_step_def)
qed

lemma tally_run:
  "run_events period m evs s = Some t \<Longrightarrow> list_all (follows D) evs \<Longrightarrow> tally D s \<Longrightarrow> tally D t"
  by (induction evs arbitrary: s) (auto split: if_splits intro: tally_event)

lemma report_split:
  assumes "run_events period m evs sched_init = Some s" and "list_all (follows D) evs"
    and "phase s = Finished (Inr rep)" and "length (started s) < 2 ^ 64"
  shows "unat (acknowledged rep) = length (filter D (started s)) \<and>
    unat (failed rep) = length (filter (\<lambda>x. \<not> D x) (started s))"
proof -
  have d: "data_inv m s" and c: "control_inv s"
    using reachable_inv [OF run_from_init [OF assms(1)]] .
  have p: "pending s = []" and r: "rep = report s" "task_error s = None"
    using c assms(3) by (auto simp: control_inv_def split: option.splits)
  have ms: "mset (joined s) = mset (started s)" using data_inv_mset [OF d] p by simp
  have len: "length (filter Q (joined s)) = length (filter Q (started s))" for Q
    using ms by (metis mset_filter size_mset)
  have "tally D s" using tally_run [OF assms(1,2) tally_init] .
  then have "acknowledged rep = of_nat (length (filter D (started s)))"
    "failed rep = of_nat (length (filter (\<lambda>x. \<not> D x) (started s)))"
    using r len by (simp_all add: tally_def)
  moreover have "length (filter Q (started s)) < 2 ^ 64" for Q
    using length_filter_le [of Q "started s"] assms(4) by (rule order_le_less_trans)
  ultimately show ?thesis by (simp add: unat_of_nat)
qed

section \<open>Properties\<close>

text \<open>
  C2: in every reachable state of the producer loop the pending sends, retries included, number at
  most the configured limit and at most five, and no two of them have the same category.
\<close>

theorem in_flight_bounded:
  assumes "send_reachable period m s"
  shows "length (pending s) \<le> m \<and> length (pending s) \<le> length CATEGORIES \<and>
    distinct (map category (map task_order (pending s)))"
proof -
  have d: "data_inv m s" using reachable_inv(1) [OF assms] .
  then have "length (pending s) \<le> m" by (simp add: data_inv_def)
  then show ?thesis
    using pending_le_categories [OF d] data_inv_distinct [OF d] by (simp del: map_map)
qed

theorem in_flight_bounded_witness:
  "length (pending (demo_final 20000000)) \<le> 2"
  using in_flight_bounded [OF demo_reachable, of 20000000] by simp

text \<open>
  C25: orders are admitted in generator order, none skipped or repeated, each stamped with its index.
\<close>

theorem admission_order:
  assumes "send_reachable period m s"
  shows "started s = map (\<lambda>n. (order_at (of_nat n))\<lparr>ts_ms := i64_from_u64_or_max (of_nat n)\<rparr>)
    [0..<length (started s)]"
  using reachable_inv(1) [OF assms] unfolding data_inv_def stamped_order_def [abs_def] by blast

theorem admission_order_witness:
  "started (demo_final 7) = map (\<lambda>n. (order_at (of_nat n))\<lparr>ts_ms := i64_from_u64_or_max (of_nat n)\<rparr>) [0, 1]"
  using admission_order [OF demo_reachable, of 7] by (simp add: demo_final_def)

text \<open>
  C3: each category stays ordered: of one category, the sends that finished are exactly the first
  ones started, in the same order, and at most the next one is pending.
\<close>

theorem category_order:
  assumes "send_reachable period m s"
  shows "of_key k (started s) = of_key k (joined s) @ of_key k (map task_order (pending s)) \<and>
    length (of_key k (map task_order (pending s))) \<le> 1"
proof -
  have d: "data_inv m s" using reachable_inv(1) [OF assms] .
  then show ?thesis
    using of_key_distinct [OF data_inv_distinct [OF d]] by (simp add: data_inv_def)
qed

theorem category_order_witness:
  "of_key ''books'' (started (demo_final 7)) = [stamped_order 0]"
  using category_order [OF demo_reachable, of "''books''" 7]
  by (simp add: demo_final_def stamped_order_def CATEGORIES_def)

lemma report_accounts:
  assumes "send_reachable period m s" and "phase s = Finished (Inr rep)"
    and "length (started s) < 2 ^ 64"
  shows "pending s = [] \<and> mset (joined s) = mset (started s) \<and>
    unat (acknowledged rep) + unat (failed rep) = length (started s)"
proof -
  have d: "data_inv m s" and c: "control_inv s" using reachable_inv [OF assms(1)] .
  then have p: "pending s = []" and r: "rep = report s" "task_error s = None"
    using assms(2) by (auto simp: control_inv_def split: option.splits)
  have "length (joined s) = length (started s)" using d p by (simp add: data_inv_def)
  moreover have "counts rep (length (joined s))" using c r by (simp add: control_inv_def)
  ultimately show ?thesis
    using counts_exact assms(3) p data_inv_mset [OF d] by auto
qed

text \<open>
  C4: the returned report accounts for every admitted order: when the run returns a report, nothing
  is pending, every started order was joined, and acknowledged plus failed is their number (below
  the range of the 64-bit counters).
\<close>

theorem report_accounts_for_all:
  assumes "send_reachable period m s" and "phase s = Finished (Inr rep)"
    and "length (started s) < 2 ^ 64"
  shows "pending s = [] \<and> mset (joined s) = mset (started s) \<and>
    unat (acknowledged rep) + unat (failed rep) = length (started s)"
  using assms by (rule report_accounts)

theorem report_accounts_for_all_witness:
  "unat (1 :: u64) + unat (1 :: u64) = length (started (demo_final 7))"
  using report_accounts_for_all [OF demo_reachable, of 7 "\<lparr>acknowledged = 1, failed = 1\<rparr>"]
  by (simp add: demo_final_def)

text \<open>
  C19: the report counts each delivery once, by its result: in a complete run in which an order's
  delivery succeeds exactly when \<open>D\<close> holds of it, the acknowledged counter is the number of started
  orders with \<open>D\<close> and the failed counter the number of the others, however the sends interleaved.
\<close>

theorem report_splits_by_result:
  assumes "run_events period m evs sched_init = Some s" and "list_all (follows D) evs"
    and "phase s = Finished (Inr rep)" and "length (started s) < 2 ^ 64"
  shows "unat (acknowledged rep) = length (filter D (started s)) \<and>
    unat (failed rep) = length (filter (\<lambda>x. \<not> D x) (started s))"
  using assms by (rule report_split)

theorem report_splits_by_result_witness:
  "length (filter (\<lambda>x. ts_ms x = 0) (started (demo_final 7))) = 1"
proof -
  have "list_all (follows (\<lambda>x. ts_ms x = 0)) demo_events"
    by (simp add: demo_events_def follows_def idle_poll_def stamped_small del: One_nat_def)
  from report_splits_by_result [OF demo_run this, of 7 "\<lparr>acknowledged = 1, failed = 1\<rparr>"]
  show ?thesis by (simp add: demo_final_def)
qed

text \<open>
  C14: shutdown drains: once the loop has left admission no order is started any more, a state that
  has not returned can always go on, and within one step per pending send plus one it has returned.
\<close>

theorem drain_terminates:
  assumes "(send_step period m ^^ n) s t" and "phase s \<noteq> Admitting"
  shows "started t = started s \<and> n \<le> Suc (length (pending s)) \<and>
    ((\<exists>u. send_step period m t u) \<or> (\<exists>r. phase t = Finished r))"
proof -
  have a: "phase t \<noteq> Admitting \<and> started t = started s \<and> n + drain_measure t \<le> drain_measure s"
    using drain_steps_bound [OF assms] .
  moreover have "drain_measure s \<le> Suc (length (pending s))"
    by (simp add: drain_measure_def split: phase.split)
  moreover have "(\<exists>u. send_step period m t u) \<or> (\<exists>r. phase t = Finished r)"
    using a drain_progress [of t period m] by (cases "phase t") auto
  ultimately show ?thesis by auto
qed

theorem drain_terminates_witness:
  "\<exists>u. send_step 7 2 (sched_init\<lparr>phase := Draining\<rparr> :: string sched) u"
proof -
  have "(send_step 7 2 ^^ 0) (sched_init\<lparr>phase := Draining\<rparr> :: string sched) (sched_init\<lparr>phase := Draining\<rparr>)"
    by simp
  from drain_terminates [OF this] show ?thesis by simp
qed

text \<open>
  C23: a limit above five changes nothing: with the current generator the loop with any larger limit
  makes exactly the steps of the loop limited to five.
\<close>

theorem limit_above_five_is_five:
  assumes "5 \<le> m" and "send_reachable period 5 s"
  shows "send_step period m s t \<longleftrightarrow> send_step period 5 s t"
proof -
  have "sched_inv 5 s" by (rule sched.inv_reachable [OF assms(2)])
  then have "sched_inv m s" using assms(1) by (simp add: sched_inv_def data_inv_def)
  then show ?thesis using assms(1) by (rule send_step_five)
qed

theorem limit_above_five_is_five_witness:
  "\<forall>t. send_step 7 100 (sched_init :: string sched) t \<longleftrightarrow> send_step 7 5 sched_init t"
  by (intro allI limit_above_five_is_five) (simp_all add: reach_init)

text \<open>
  C24: with the default limit of one the deliveries finish in the order of the generator, across
  categories: the started orders are the joined ones, in order, followed by the pending one.
\<close>

theorem serial_delivery:
  assumes "send_reachable period 1 s"
  shows "started s = joined s @ map task_order (pending s) \<and> length (pending s) \<le> 1"
  using serial.inv_reachable [OF assms]
  by (simp add: serial_inv_def sched_inv_def data_inv_def)

theorem serial_delivery_witness:
  "started (sched_init :: string sched) = joined (sched_init :: string sched) @ map task_order (pending (sched_init :: string sched))"
  using serial_delivery [of 7 "sched_init :: string sched"] by (simp add: reach_init)

text \<open>
  C11: the loop refines the abstract gate: each of its steps is matched by zero or more steps of the
  specification, under the abstraction to the set of orders in flight.
\<close>

theorem send_step_refines_gate:
  assumes "send_reachable period m s" and "send_step period m s t"
  shows "(gate_step m)\<^sup>*\<^sup>* (gate_of s) (gate_of t)"
  using assms(2)
proof cases
  case (step ev)
  have inv: "sched_inv m s" by (rule sched.inv_reachable [OF assms(1)])
  show ?thesis
  proof (cases ev)
    case (Select p)
    then show ?thesis using gate_refines_select [OF inv] step by (simp add: apply_event_def)
  next
    case (Drain u r)
    then have "gate_step m (gate_of s) (gate_of (take_task u s))"
      using inv step by (intro gate_leave_task) (auto simp: sched_inv_def enabled_def)
    then show ?thesis using step Drain
      by (cases r) (auto simp: apply_event_def drain_step_def)
  next
    case (Finish now)
    then have "gate_of t = gate_of s"
      using step by (simp add: apply_event_def finish_step_def enabled_def gate_of_def)
    then show ?thesis by simp
  qed
qed

theorem send_step_refines_gate_witness:
  "(gate_step 2)\<^sup>*\<^sup>* (gate_of (sched_init :: string sched)) (gate_of (admit (sched_init :: string sched)))"
proof (rule send_step_refines_gate [of 7 2])
  show "send_reachable 7 2 (sched_init :: string sched)" by (simp add: reach_init)
  have "enabled (Select (idle_poll\<lparr>tick_due := True\<rparr>)) (sched_init :: string sched)"
    by (simp add: enabled_def idle_poll_def sched_init_def)
  moreover have "apply_event 7 2 (Select (idle_poll\<lparr>tick_due := True\<rparr>)) (sched_init :: string sched) = admit sched_init"
    by (simp add: apply_event_def select_step_def idle_poll_def can_admit_def sched_init_def)
  ultimately show "send_step 7 2 (sched_init :: string sched) (admit sched_init)"
    by (metis send_step.step)
qed

text \<open>
  C16: the loop never starves an order: from every reachable state that still admits, after at most as
  many steps as there are pending sends the next order can be admitted, whatever its category.
\<close>

theorem backpressure_released:
  assumes "send_reachable period m s" and "phase s = Admitting" and "0 < m"
  shows "\<exists>u. (send_step period m ^^ length (pending s)) s u \<and> next_order u = next_order s \<and> can_admit m u \<and>
    send_step period m u (admit u)"
proof -
  obtain u where u: "(send_step period m ^^ length (pending s)) s u" "send_reachable period m u"
    "phase u = Admitting" "pending u = []" "next_order u = next_order s"
    using finish_all [OF assms(1,2)] by blast
  have "active_keys u = {}" using reachable_inv(2) [OF u(2)] u(3,4) by (simp add: control_inv_def)
  then have ok: "can_admit m u" using u(4) assms(3) by (simp add: can_admit_def)
  have "enabled (Select (idle_poll\<lparr>tick_due := True\<rparr>)) u" using u(3) by (simp add: enabled_def idle_poll_def)
  from send_step.step [OF this, of period m] have "send_step period m u (admit u)"
    using u(4) ok by (simp add: apply_event_def select_step_def idle_poll_def)
  then show ?thesis using u ok by blast
qed

theorem backpressure_released_witness:
  "\<exists>(s :: string sched) u. send_reachable 7 2 s \<and> \<not> can_admit 2 s \<and> (send_step 7 2 ^^ 2) s u \<and> can_admit 2 u"
proof -
  obtain s :: "string sched" where s: "run_events 7 2 (take 3 demo_events) sched_init = Some s"
    "phase s = Admitting" "length (pending s) = 2"
    using demo_prefix [of 7] by simp
  have r: "send_reachable 7 2 s" by (rule run_from_init [OF s(1)])
  have "\<not> can_admit 2 s" using s(3) by (simp add: can_admit_def)
  with backpressure_released [OF r s(2)] r s(3) show ?thesis by auto
qed

text \<open>
  C40: the achieved rate is a finite, non-negative number for every counter value and every elapsed
  time, a zero one included.
\<close>

theorem achieved_rate_finite:
  assumes "d \<le> duration_max"
  shows "\<exists>r. achieved_rate rep d = F64_Num False r \<and> 0 \<le> r"
proof -
  have "from_secs (unat (acknowledged rep)) div 10 ^ 9 \<le> 2 ^ 64"
    using unat_u64_bound [of "acknowledged rep"] by (simp add: from_secs_def)
  then obtain a where a: "as_secs_f64 (from_secs (unat (acknowledged rep))) = F64_Num False a"
    "0 \<le> a" "a \<le> 2 ^ 65"
    using as_secs_bound by blast
  have "d div 10 ^ 9 \<le> duration_max div 10 ^ 9" using assms by (rule div_le_mono)
  then have "d div 10 ^ 9 \<le> 2 ^ 64" by (simp add: duration_max_def)
  then obtain e where e: "as_secs_f64 d = F64_Num False e" "0 \<le> e" using as_secs_bound by blast
  define x where "x = max e (1 / 2 ^ 52)"
  have x: "max64 (as_secs_f64 d) f64_epsilon = F64_Num False x" "1 / 2 ^ 52 \<le> x"
    by (auto simp: max64_def e f64_epsilon_def x_def max_def)
  have xp: "0 < x" by (rule order_less_le_trans [OF _ x(2)]) simp
  have "a / x \<le> 2 ^ 65 / (1 / 2 ^ 52)"
    using a(2,3) x(2) xp by (intro frac_le) simp_all
  also have "\<dots> \<le> 2 ^ 1023" by simp
  finally have "achieved_rate rep d = F64_Num False (round_mag (a / x))"
    unfolding achieved_rate_def a(1) x(1) using a(2) xp by (intro div64_num)
  then show ?thesis using a(2) xp round_mag_nonneg [of "a / x"] by simp
qed

theorem achieved_rate_finite_witness:
  "\<exists>r. achieved_rate \<lparr>acknowledged = 5, failed = 0\<rparr> 0 = F64_Num False r \<and> 0 \<le> r"
  using achieved_rate_finite [of 0] by simp

end
