(* ===== verification/Scheduler_Timed.thy ===== *)
theory Scheduler_Timed
  imports Scheduler_Spec
begin

text \<open>
  The clock of \<open>send_orders\<close>: the two \<open>tokio::time::interval\<close>s it polls beside the sends. The state
  of the loop is extended with the time and the next deadline of each interval, which is what makes a
  timer branch of the \<open>select!\<close> ready. The rule by which an interval moves its deadline when a tick is
  taken is the runtime's, and a parameter; its documented behaviour is a named hypothesis. The timed
  loop refines the untimed one of \<^theory_text>\<open>Scheduler\<close>, and adds what that cannot say: the pacing of the
  admissions and of the log lines.
\<close>

section \<open>Intervals\<close>

text \<open>
  An interval with a period: given its deadline and the time at which the tick is taken, the next
  deadline. \<open>MissedTickBehavior::Skip\<close>: the next deadline is at least a period later and, up to
  the lateness the runtime still treats as on time, not in the past. The default, \<open>Burst\<close>: exactly a
  period after the previous deadline.
\<close>

type_synonym interval = "duration \<Rightarrow> duration \<Rightarrow> duration"

definition skip_law :: "duration \<Rightarrow> duration \<Rightarrow> interval \<Rightarrow> bool" where
  "skip_law period late nxt \<longleftrightarrow>
     (\<forall>deadline time. deadline \<le> time \<longrightarrow>
        deadline + period \<le> nxt deadline time \<and> time < nxt deadline time + late)"

definition burst_law :: "duration \<Rightarrow> interval \<Rightarrow> bool" where
  "burst_law period nxt \<longleftrightarrow>
     (\<forall>deadline time. deadline \<le> time \<longrightarrow> nxt deadline time = deadline + period)"

text \<open>Intervals with these laws: skipping to the next multiple of the period, and not skipping.\<close>

definition skip_next :: "duration \<Rightarrow> interval" where
  "skip_next period deadline time = time + period - (time - deadline) mod period"

definition burst_next :: "duration \<Rightarrow> interval" where
  "burst_next period deadline time = deadline + period"

lemma skip_law_skip_next: "0 < period \<Longrightarrow> skip_law period 1 (skip_next period)"
proof -
  assume p: "0 < period"
  have "d + period \<le> skip_next period d t \<and> t < skip_next period d t + 1" if "d \<le> t" for d t
  proof -
    define r where "r = (t - d) mod period"
    have "r < period" "r \<le> t - d" using p by (simp_all add: r_def)
    moreover have "skip_next period d t = t + period - r" by (simp add: skip_next_def r_def)
    ultimately show ?thesis using that by auto
  qed
  then show ?thesis by (simp add: skip_law_def)
qed

lemma burst_law_burst_next: "burst_law period (burst_next period)"
  by (simp add: burst_law_def burst_next_def)

section \<open>The timed loop\<close>

definition report_period :: duration where
  "report_period = from_secs 5"

text \<open>Times count from \<open>start\<close>; \<open>admitted_at\<close> records when each order was handed to \<open>send\<close>.\<close>

record 'e timed =
  core :: "'e sched"
  now :: duration
  tick_at :: duration
  report_at :: duration
  admitted_at :: "duration list"

definition timed_init :: "'e timed" where
  "timed_init = \<lparr>core = sched_init, now = 0, tick_at = 0, report_at = report_period, admitted_at = []\<rparr>"

text \<open>What the \<open>select!\<close> sees at the present time.\<close>

definition poll_at :: "bool \<Rightarrow> (task \<times> ('e + bool)) option \<Rightarrow> 'e timed \<Rightarrow> 'e poll" where
  "poll_at stop fin s =
     \<lparr>shutdown_ready = stop, finished = fin, report_due = report_at s \<le> now s,
      tick_due = tick_at s \<le> now s, elapsed = now s\<rparr>"

text \<open>Which timer branch is taken: only then is its interval polled, and its deadline moved.\<close>

definition takes_report :: "'e poll \<Rightarrow> 'e sched \<Rightarrow> bool" where
  "takes_report p s \<longleftrightarrow>
     \<not> shutdown_ready p \<and> (pending s = [] \<or> finished p = None) \<and> report_due p"

definition takes_tick :: "nat \<Rightarrow> 'e poll \<Rightarrow> 'e sched \<Rightarrow> bool" where
  "takes_tick max_in_flight p s \<longleftrightarrow>
     \<not> shutdown_ready p \<and> (pending s = [] \<or> finished p = None) \<and> \<not> report_due p \<and>
     tick_due p \<and> can_admit max_in_flight s"

datatype 'e timed_event =
  Wait duration
| Poll bool "(task \<times> ('e + bool)) option"
| Joined task "'e + bool"
| Return

fun event_at :: "'e timed_event \<Rightarrow> 'e timed \<Rightarrow> 'e event option" where
  "event_at (Wait _) s = None"
| "event_at (Poll stop fin) s = Some (Select (poll_at stop fin s))"
| "event_at (Joined t r) s = Some (Drain t r)"
| "event_at Return s = Some (Finish (now s))"

definition timed_enabled :: "'e timed_event \<Rightarrow> 'e timed \<Rightarrow> bool" where
  "timed_enabled ev s = (case event_at ev s of None \<Rightarrow> True | Some e \<Rightarrow> enabled e (core s))"

definition timed_select ::
    "duration \<Rightarrow> nat \<Rightarrow> interval \<Rightarrow> interval \<Rightarrow> 'e poll \<Rightarrow> 'e timed \<Rightarrow> 'e timed" where
  "timed_select period m nxt rep p s =
     s\<lparr>core := select_step period m p (core s),
       tick_at := if takes_tick m p (core s) then nxt (tick_at s) (now s) else tick_at s,
       report_at := if takes_report p (core s) then rep (report_at s) (now s) else report_at s,
       admitted_at := if takes_tick m p (core s) then admitted_at s @ [now s] else admitted_at s\<rparr>"

definition timed_apply ::
    "duration \<Rightarrow> nat \<Rightarrow> interval \<Rightarrow> interval \<Rightarrow> 'e timed_event \<Rightarrow> 'e timed \<Rightarrow> 'e timed" where
  "timed_apply period m nxt rep ev s =
     (case ev of
        Wait d \<Rightarrow> s\<lparr>now := now s + d\<rparr>
      | Poll stop fin \<Rightarrow> timed_select period m nxt rep (poll_at stop fin s) s
      | Joined t r \<Rightarrow> s\<lparr>core := drain_step t r (core s)\<rparr>
      | Return \<Rightarrow> s\<lparr>core := finish_step period (now s) (core s)\<rparr>)"

inductive timed_step ::
    "duration \<Rightarrow> nat \<Rightarrow> interval \<Rightarrow> interval \<Rightarrow> 'e timed \<Rightarrow> 'e timed \<Rightarrow> bool"
  for period :: duration and m :: nat and nxt :: interval and rep :: interval where
  timed: "timed_enabled ev s \<Longrightarrow> timed_step period m nxt rep s (timed_apply period m nxt rep ev s)"

abbreviation timed_reachable ::
    "duration \<Rightarrow> nat \<Rightarrow> interval \<Rightarrow> interval \<Rightarrow> 'e timed \<Rightarrow> bool" where
  "timed_reachable period m nxt rep \<equiv>
     reachable (\<lambda>s. s = timed_init) (timed_step period m nxt rep)"

section \<open>It refines the untimed loop\<close>

lemma timed_core:
  "core (timed_apply period m nxt rep ev s) =
     (case event_at ev s of None \<Rightarrow> core s | Some e \<Rightarrow> apply_event period m e (core s))"
  by (cases ev) (simp_all add: timed_apply_def timed_select_def apply_event_def)

lemma timed_step_core:
  assumes "timed_step period m nxt rep s t"
  shows "(send_step period m)\<^sup>=\<^sup>= (core s) (core t)"
  using assms
proof cases
  case (timed ev)
  then show ?thesis
    by (cases "event_at ev s") (auto simp: timed_core timed_enabled_def intro: send_step.step)
qed

lemma timed_reachable_core:
  "timed_reachable period m nxt rep s \<Longrightarrow> send_reachable period m (core s)"
proof (induction rule: reachable.induct)
  case (reach_init s)
  then show ?case by (simp add: timed_init_def reachable.reach_init)
next
  case (reach_step s t)
  then show ?case using timed_step_core [OF reach_step.hyps(2)] by (auto intro: reachable.reach_step)
qed

section \<open>Pacing\<close>

text \<open>
  The deadline is never earlier than the number of orders admitted times the period, and an order
  is never admitted before the deadline. \<open>paced\<close> is what this gives for the admission times: from
  the start, and from any admission on.
\<close>

definition paced :: "duration \<Rightarrow> duration \<Rightarrow> duration list \<Rightarrow> duration \<Rightarrow> bool" where
  "paced period late ts next_at \<longleftrightarrow>
     length ts * period \<le> next_at \<and>
     (\<forall>i < length ts. i * period \<le> ts ! i \<and> ts ! i + (length ts - i - 1) * period < next_at + late) \<and>
     (\<forall>j < length ts. \<forall>i < j. ts ! i + (j - i - 1) * period < ts ! j + late)"

lemma paced_admit:
  assumes "paced period late ts d" and "d \<le> t" and "d + period \<le> d'" and "t < d' + late"
  shows "paced period late (ts @ [t]) d'"
proof -
  have old: "ts ! i + (length ts - i - 1) * period < t + late" if "i < length ts" for i
    using assms(1,2) that unfolding paced_def by fastforce
  have step: "ts ! i + (length ts - i) * period < d' + late" if "i < length ts" for i
  proof -
    have "length ts - i = Suc (length ts - i - 1)" using that by simp
    then have "(length ts - i) * period = period + (length ts - i - 1) * period"
      by (metis mult_Suc)
    moreover have "ts ! i + (length ts - i - 1) * period < d + late"
      using assms(1) that by (simp add: paced_def)
    ultimately show ?thesis using assms(3) by linarith
  qed
  have len: "length ts * period \<le> t" "Suc (length ts) * period \<le> d'"
    using assms(1-3) by (auto simp: paced_def)
  show ?thesis
    unfolding paced_def
    using assms(1,4) old step len
    by (auto simp: paced_def nth_append less_Suc_eq)
qed

definition timed_inv :: "duration \<Rightarrow> duration \<Rightarrow> 'e timed \<Rightarrow> bool" where
  "timed_inv period late s \<longleftrightarrow>
     paced period late (admitted_at s) (tick_at s) \<and>
     (\<forall>t \<in> set (admitted_at s). t \<le> now s) \<and>
     length (admitted_at s) = length (started (core s))"

lemma takes_tick_admits:
  "takes_tick m p s \<Longrightarrow> select_step period m p s = admit s"
  by (auto simp: takes_tick_def select_step_def)

lemma not_takes_tick_started:
  "\<not> takes_tick m p s \<Longrightarrow> started (select_step period m p s) = started s"
  by (auto simp: takes_tick_def select_step_def split: option.split sum.split prod.split)

lemma timed_inv_event:
  assumes "skip_law period late nxt" and "timed_inv period late s"
  shows "timed_inv period late (timed_apply period m nxt rep ev s)"
proof (cases ev)
  case (Wait d)
  then show ?thesis using assms(2)
    by (auto simp: timed_apply_def timed_inv_def intro: le_add1 order_trans)
next
  case (Poll stop fin)
  let ?p = "poll_at stop fin s"
  show ?thesis
  proof (cases "takes_tick m ?p (core s)")
    case True
    then have due: "tick_at s \<le> now s" by (simp add: takes_tick_def poll_at_def)
    then have "tick_at s + period \<le> nxt (tick_at s) (now s)" "now s < nxt (tick_at s) (now s) + late"
      using assms(1) by (simp_all add: skip_law_def)
    then show ?thesis
      using True assms(2) due Poll takes_tick_admits [OF True]
      by (auto simp: timed_apply_def timed_select_def timed_inv_def intro: paced_admit)
  next
    case False
    then show ?thesis
      using assms(2) Poll not_takes_tick_started [OF False]
      by (simp add: timed_apply_def timed_select_def timed_inv_def)
  qed
next
  case (Joined t r)
  then show ?thesis using assms(2)
    by (cases r) (simp_all add: timed_apply_def timed_inv_def drain_step_def)
next
  case Return
  then show ?thesis using assms(2)
    by (simp add: timed_apply_def timed_inv_def finish_step_def)
qed

lemma timed_inv_init: "timed_inv period late timed_init"
  by (simp add: timed_inv_def timed_init_def paced_def sched_init_def)

interpretation timed: invariant_system "\<lambda>s. s = timed_init" "timed_step period m nxt rep"
    "\<lambda>s. skip_law period late nxt \<longrightarrow> timed_inv period late s" for period m nxt rep late
  by unfold_locales (auto simp: timed_inv_init elim!: timed_step.cases intro: timed_inv_event)


section \<open>The log lines\<close>

text \<open>While the loop runs, a log line was written for each deadline of the reporting interval that
  passed; one more when it returns.\<close>

definition returned :: "'e sched \<Rightarrow> bool" where
  "returned s = (case phase s of Finished _ \<Rightarrow> True | _ \<Rightarrow> False)"

definition logs_inv :: "'e timed \<Rightarrow> bool" where
  "logs_inv s \<longleftrightarrow>
     (\<exists>n. length (logs (core s)) = n + (if returned (core s) then 1 else 0) \<and>
        report_at s = Suc n * report_period \<and> n * report_period \<le> now s)"

lemma takes_report_logs:
  "takes_report p s \<Longrightarrow> select_step period m p s =
     s\<lparr>logs := logs s @ [report_log (report s) period (elapsed p) (length (pending s))]\<rparr>"
  by (auto simp: takes_report_def select_step_def)

lemma not_takes_report_logs:
  "\<not> takes_report p s \<Longrightarrow> logs (select_step period m p s) = logs s"
  by (auto simp: takes_report_def select_step_def take_task_def admit_def Let_def
      split: option.split sum.split prod.split)

lemma returned_logs [simp]: "returned (s\<lparr>logs := l\<rparr>) = returned s"
  by (simp add: returned_def)

lemma select_not_returned:
  assumes "phase s = Admitting"
  shows "\<not> returned (select_step period m p s)" and "\<not> returned s"
  using assms by (auto simp: returned_def select_step_def split: option.split sum.split prod.split)

lemma logs_inv_event:
  assumes "burst_law report_period rep" and "logs_inv s" and "timed_enabled ev s"
  shows "logs_inv (timed_apply period m nxt rep ev s)"
proof -
  obtain n where n: "length (logs (core s)) = n + (if returned (core s) then 1 else 0)"
    "report_at s = Suc n * report_period" "n * report_period \<le> now s"
    using assms(2) unfolding logs_inv_def by blast
  show ?thesis
  proof (cases ev)
    case (Wait d)
    then have "length (logs (core (timed_apply period m nxt rep ev s))) =
        n + (if returned (core (timed_apply period m nxt rep ev s)) then 1 else 0)"
      "report_at (timed_apply period m nxt rep ev s) = Suc n * report_period"
      "n * report_period \<le> now (timed_apply period m nxt rep ev s)"
      using n by (simp_all add: timed_apply_def)
    then show ?thesis unfolding logs_inv_def by blast
  next
    case (Poll stop fin)
    let ?p = "poll_at stop fin s"
    have ph: "phase (core s) = Admitting"
      using assms(3) Poll by (simp add: timed_enabled_def enabled_def)
    note nr = select_not_returned [OF ph]
    show ?thesis
    proof (cases "takes_report ?p (core s)")
      case True
      then have "Suc n * report_period \<le> now s" using n(2) by (simp add: takes_report_def poll_at_def)
      moreover from this have "rep (report_at s) (now s) = Suc (Suc n) * report_period"
        using assms(1) n(2) by (simp add: burst_law_def)
      ultimately show ?thesis
        using Poll n nr True takes_report_logs [OF True, of period m]
        by (auto simp: logs_inv_def timed_apply_def timed_select_def intro!: exI [of _ "Suc n"])
    next
      case False
      then show ?thesis using Poll n nr not_takes_report_logs [OF False, of period m]
        by (auto simp: logs_inv_def timed_apply_def timed_select_def)
    qed
  next
    case (Joined t r)
    then have "phase (core s) = Draining" using assms(3) by (simp add: timed_enabled_def enabled_def)
    then show ?thesis using Joined n
      by (cases r) (auto simp: logs_inv_def timed_apply_def drain_step_def returned_def take_task_def)
  next
    case Return
    then have "phase (core s) = Draining" using assms(3) by (simp add: timed_enabled_def enabled_def)
    then show ?thesis using Return n
      by (auto simp: logs_inv_def timed_apply_def finish_step_def returned_def)
  qed
qed

lemma logs_inv_init: "logs_inv timed_init"
  by (auto simp: logs_inv_def timed_init_def sched_init_def returned_def)

interpretation cadence: invariant_system "\<lambda>s. s = timed_init" "timed_step period m nxt rep"
    "\<lambda>s. burst_law report_period rep \<longrightarrow> logs_inv s" for period m nxt rep
  by unfold_locales (auto simp: logs_inv_init elim!: timed_step.cases intro: logs_inv_event)

end
