(* ===== verification/Scheduler_Prompt.thy ===== *)
theory Scheduler_Prompt
  imports Scheduler_Timed
begin

text \<open>
  The timed loop under a prompt executor: time passes only while no branch is ready, and a send takes
  the time its delivery takes, which is what the paused clock of the repository's tests gives. The
  executor is a function, so a run can be evaluated. Proved of it: it is a run of the timed loop, it
  returns, and when the deliveries keep up with the requested rate every order is admitted exactly
  at its multiple of the period.
\<close>

section \<open>The executor\<close>

text \<open>How long the delivery of an order takes, whether it succeeds, and when shutdown is ready.\<close>

record load =
  delay :: "order \<Rightarrow> duration"
  succeeds :: "order \<Rightarrow> bool"
  stop_at :: duration

text \<open>Beside the loop, the sends in flight: the number of the order and when its future is ready.\<close>

record 'e sim =
  loop :: "'e timed"
  flying :: "(nat \<times> duration) list"

definition sim_init :: "'e sim" where
  "sim_init = \<lparr>loop = timed_init, flying = []\<rparr>"

definition sim_task :: "nat \<Rightarrow> task" where
  "sim_task i = task_of (stamped_order i)"

fun earliest :: "(nat \<times> duration) list \<Rightarrow> (nat \<times> duration) option" where
  "earliest [] = None"
| "earliest (x # xs) =
     (case earliest xs of None \<Rightarrow> Some x | Some y \<Rightarrow> Some (if snd x \<le> snd y then x else y))"

definition done_send :: "'e sim \<Rightarrow> nat option" where
  "done_send s =
     (case earliest (flying s) of None \<Rightarrow> None
      | Some (i, d) \<Rightarrow> if d \<le> now (loop s) then Some i else None)"

definition result_of :: "load \<Rightarrow> nat \<Rightarrow> task \<times> ('e + bool)" where
  "result_of l i = (sim_task i, Inr (succeeds l (stamped_order i)))"

text \<open>The next time at which a branch becomes ready.\<close>

definition next_time :: "load \<Rightarrow> nat \<Rightarrow> 'e sim \<Rightarrow> duration" where
  "next_time l m s =
     foldr min (report_at (loop s) # map snd (flying s) @
       (if can_admit m (core (loop s)) then [tick_at (loop s)] else [])) (stop_at l)"

definition branch_ready :: "load \<Rightarrow> nat \<Rightarrow> 'e sim \<Rightarrow> bool" where
  "branch_ready l m s \<longleftrightarrow>
     stop_at l \<le> now (loop s) \<or> done_send s \<noteq> None \<or> report_at (loop s) \<le> now (loop s) \<or>
     tick_at (loop s) \<le> now (loop s) \<and> can_admit m (core (loop s))"

definition sim_event :: "load \<Rightarrow> nat \<Rightarrow> 'e sim \<Rightarrow> 'e timed_event option" where
  "sim_event l m s =
     (case phase (core (loop s)) of
        Finished _ \<Rightarrow> None
      | Draining \<Rightarrow>
          (case earliest (flying s) of None \<Rightarrow> Some Return
           | Some (i, d) \<Rightarrow>
               if d \<le> now (loop s) then Some (Joined (sim_task i) (Inr (succeeds l (stamped_order i))))
               else Some (Wait (d - now (loop s))))
      | Admitting \<Rightarrow>
          if branch_ready l m s then
            Some (Poll (stop_at l \<le> now (loop s)) (map_option (result_of l) (done_send s)))
          else Some (Wait (next_time l m s - now (loop s))))"

definition sim_sends :: "load \<Rightarrow> nat \<Rightarrow> 'e timed_event \<Rightarrow> 'e sim \<Rightarrow> (nat \<times> duration) list" where
  "sim_sends l m ev s =
     (let others = filter (\<lambda>x. Some (fst x) \<noteq> done_send s) (flying s);
          n = length (started (core (loop s)))
      in case ev of
        Poll stop fin \<Rightarrow>
          if stop then flying s
          else if fin \<noteq> None then others
          else if takes_tick m (poll_at stop fin (loop s)) (core (loop s)) then
            flying s @ [(n, now (loop s) + delay l (stamped_order n))]
          else flying s
      | Joined _ _ \<Rightarrow> others
      | _ \<Rightarrow> flying s)"

definition sim_step ::
    "load \<Rightarrow> duration \<Rightarrow> nat \<Rightarrow> interval \<Rightarrow> interval \<Rightarrow> 'e sim \<Rightarrow> 'e sim" where
  "sim_step l period m nxt rep s =
     (case sim_event l m s of None \<Rightarrow> s
      | Some ev \<Rightarrow> \<lparr>loop = timed_apply period m nxt rep ev (loop s), flying = sim_sends l m ev s\<rparr>)"

definition simulate ::
    "load \<Rightarrow> duration \<Rightarrow> nat \<Rightarrow> interval \<Rightarrow> interval \<Rightarrow> nat \<Rightarrow> 'e sim" where
  "simulate l period m nxt rep n = (sim_step l period m nxt rep ^^ n) sim_init"

section \<open>It runs the timed loop\<close>

lemma earliest_None [simp]: "earliest xs = None \<longleftrightarrow> xs = []"
  by (cases xs) (auto split: option.split)

lemma earliest_in: "earliest xs = Some x \<Longrightarrow> x \<in> set xs"
  by (induction xs arbitrary: x) (auto split: option.splits if_splits)

lemma earliest_least: "earliest xs = Some x \<Longrightarrow> y \<in> set xs \<Longrightarrow> snd x \<le> snd y"
proof (induction xs arbitrary: x)
  case (Cons a xs)
  then show ?case by (cases "earliest xs") (auto split: if_splits intro: order_trans)
qed simp

lemma done_send_in: "done_send s = Some i \<Longrightarrow> \<exists>d. (i, d) \<in> set (flying s) \<and> d \<le> now (loop s)"
  by (auto simp: done_send_def dest!: earliest_in split: option.splits if_splits)

lemma done_send_None:
  "done_send s = None \<longleftrightarrow> (\<forall>x \<in> set (flying s). now (loop s) < snd x)"
proof (cases "earliest (flying s)")
  case (Some x)
  have x: "done_send s = None \<longleftrightarrow> now (loop s) < snd x"
    using Some by (cases x) (simp add: done_send_def not_le)
  show ?thesis
  proof
    assume "done_send s = None"
    then show "\<forall>y \<in> set (flying s). now (loop s) < snd y"
      using x earliest_least [OF Some] by (meson order_less_le_trans)
  qed (use x earliest_in [OF Some] in blast)
qed (simp add: done_send_def)

definition sim_inv :: "nat \<Rightarrow> 'e sim \<Rightarrow> bool" where
  "sim_inv m s \<longleftrightarrow>
     pending (core (loop s)) = map (\<lambda>x. sim_task (fst x)) (flying s) \<and>
     sorted_wrt (<) (map fst (flying s)) \<and>
     (\<forall>x \<in> set (flying s). fst x < length (started (core (loop s))))"

lemma remove1_map_filter:
  assumes "distinct (map (\<lambda>x. g (fst x)) xs)" and "(i, d) \<in> set xs"
  shows "remove1 (g i) (map (\<lambda>x. g (fst x)) xs) = map (\<lambda>x. g (fst x)) (filter (\<lambda>x. Some (fst x) \<noteq> Some i) xs)"
  using assms
proof (induction xs)
  case (Cons a xs)
  show ?case
  proof (cases "fst a = i")
    case True
    have "g i \<notin> (\<lambda>x. g (fst x)) ` set xs" using Cons.prems(1) True by simp
    then have "\<forall>x \<in> set xs. fst x \<noteq> i" by (metis image_eqI)
    then have "filter (\<lambda>x. fst x \<noteq> i) xs = xs" by (simp add: filter_id_conv)
    then show ?thesis using True by simp
  next
    case False
    then have i: "(i, d) \<in> set xs" using Cons.prems(2) by auto
    then have "g (fst a) \<noteq> g i" using Cons.prems(1) by force
    then show ?thesis using Cons.IH Cons.prems(1) i False by simp
  qed
qed simp

lemma take_done_send:
  assumes "data_inv m (core (loop s))" and "sim_inv m s" and "done_send s = Some i"
  shows "remove1 (sim_task i) (pending (core (loop s))) =
      map (\<lambda>x. sim_task (fst x)) (filter (\<lambda>x. Some (fst x) \<noteq> done_send s) (flying s))"
    and "sim_task i \<in> set (pending (core (loop s)))"
proof -
  obtain d where d: "(i, d) \<in> set (flying s)" using done_send_in [OF assms(3)] by blast
  have "distinct (pending (core (loop s)))" using assms(1) by (simp add: data_inv_def distinct_map)
  then show "remove1 (sim_task i) (pending (core (loop s))) =
      map (\<lambda>x. sim_task (fst x)) (filter (\<lambda>x. Some (fst x) \<noteq> done_send s) (flying s))"
    using assms(2,3) d remove1_map_filter [of sim_task "flying s" i d] by (simp add: sim_inv_def)
  show "sim_task i \<in> set (pending (core (loop s)))"
    using assms(2) d by (force simp: sim_inv_def)
qed

lemma sim_event_enabled:
  assumes "data_inv m (core (loop s))" and "sim_inv m s" and "sim_event l m s = Some ev"
  shows "timed_enabled ev (loop s)"
proof (cases "phase (core (loop s))")
  case Admitting
  then show ?thesis
    using assms(3) take_done_send(2) [OF assms(1,2)]
    by (cases "done_send s")
      (auto simp: sim_event_def timed_enabled_def enabled_def poll_at_def result_of_def split: if_splits)
next
  case Draining
  show ?thesis
  proof (cases "earliest (flying s)")
    case None
    then have "pending (core (loop s)) = []" using assms(2) by (simp add: sim_inv_def)
    then show ?thesis using None assms(3) Draining
      by (auto simp: sim_event_def timed_enabled_def enabled_def)
  next
    case (Some x)
    then have "x \<in> set (flying s)" by (rule earliest_in)
    then have "sim_task (fst x) \<in> set (pending (core (loop s)))" using assms(2) by (simp add: sim_inv_def)
    then show ?thesis using Some assms(3) Draining
      by (cases x) (auto simp: sim_event_def timed_enabled_def enabled_def result_of_def split: if_splits)
  qed
qed (use assms(3) in \<open>simp add: sim_event_def\<close>)


lemma sim_inv_drop:
  assumes "sim_inv m s" and "flying u = filter P (flying s)"
    and "pending (core (loop u)) = map (\<lambda>x. sim_task (fst x)) (filter P (flying s))"
    and "length (started (core (loop u))) = length (started (core (loop s)))"
  shows "sim_inv m u"
proof -
  have "sorted_wrt (\<lambda>x y. fst x < fst y) (flying s)" using assms(1) by (simp add: sim_inv_def sorted_wrt_map)
  then have "sorted_wrt (\<lambda>x y. fst x < fst y) (filter P (flying s))" by (rule sorted_wrt_filter)
  then show ?thesis using assms by (simp add: sim_inv_def sorted_wrt_map)
qed

lemma sim_inv_admit:
  assumes "data_inv m (core (loop s))" and "sim_inv m s" and "core t = admit (core (loop s))"
  shows "sim_inv m \<lparr>loop = t, flying = flying s @ [(length (started (core (loop s))), d)]\<rparr>"
proof -
  let ?c = "core (loop s)"
  have "pending (admit ?c) = pending ?c @ [sim_task (length (started ?c))]"
    using assms(1)
    by (simp add: admit_def Let_def data_inv_def sim_task_def task_of_def stamped_order_def)
  then show ?thesis using assms(2,3) by (auto simp: sim_inv_def sorted_wrt_append less_Suc_eq)
qed

text \<open>The parts of a poll's result, by the branch that is taken.\<close>

lemma select_shutdown: "shutdown_ready p \<Longrightarrow> select_step period m p s = s\<lparr>phase := Draining\<rparr>"
  by (simp add: select_step_def)

lemma select_finished:
  assumes "\<not> shutdown_ready p" and "pending s \<noteq> []" and "finished p = Some (t, Inr b)"
  shows "select_step period m p s = (take_task t s)\<lparr>active_keys := active_keys s - {task_key t},
    report := report_record (report s) b\<rparr>"
  using assms by (simp add: select_step_def)

lemma select_idle:
  assumes "\<not> shutdown_ready p" and "finished p = None" and "\<not> takes_tick m p s"
  shows "\<exists>l. select_step period m p s = s\<lparr>logs := l\<rparr>"
proof (cases "report_due p")
  case True
  then show ?thesis using assms by (auto simp: select_step_def takes_tick_def)
next
  case False
  then have "select_step period m p s = s\<lparr>logs := logs s\<rparr>"
    using assms by (auto simp: select_step_def takes_tick_def)
  then show ?thesis by blast
qed

lemma poll_at_simps [simp]:
  "shutdown_ready (poll_at stop fin s) = stop" "finished (poll_at stop fin s) = fin"
  "report_due (poll_at stop fin s) = (report_at s \<le> now s)"
  "tick_due (poll_at stop fin s) = (tick_at s \<le> now s)" "elapsed (poll_at stop fin s) = now s"
  by (simp_all add: poll_at_def)

lemma timed_select_core [simp]:
  "core (timed_select period m nxt rep p s) = select_step period m p (core s)"
  "now (timed_select period m nxt rep p s) = now s"
  by (simp_all add: timed_select_def)

text \<open>How the executor moves on, as cases over what the loop does.\<close>

lemma sim_step_cases:
  assumes "data_inv m (core (loop s))" and "sim_inv m s"
  obtains (stopped) r where "phase (core (loop s)) = Finished r" "sim_step l period m nxt rep s = s"
  | (return) "phase (core (loop s)) = Draining" "flying s = []"
      "sim_step l period m nxt rep s =
         s\<lparr>loop := timed_apply period m nxt rep Return (loop s)\<rparr>"
  | (join) i where "phase (core (loop s)) = Draining" "done_send s = Some i"
      "sim_step l period m nxt rep s =
         \<lparr>loop = timed_apply period m nxt rep (Joined (sim_task i) (Inr (succeeds l (stamped_order i)))) (loop s),
          flying = filter (\<lambda>x. Some (fst x) \<noteq> done_send s) (flying s)\<rparr>"
  | (drain_wait) i d where "phase (core (loop s)) = Draining" "done_send s = None"
      "earliest (flying s) = Some (i, d)" "now (loop s) < d"
      "sim_step l period m nxt rep s = s\<lparr>loop := (loop s)\<lparr>now := d\<rparr>\<rparr>"
  | (wait) "phase (core (loop s)) = Admitting" "\<not> branch_ready l m s"
      "sim_step l period m nxt rep s =
         s\<lparr>loop := (loop s)\<lparr>now := now (loop s) + (next_time l m s - now (loop s))\<rparr>\<rparr>"
  | (shutdown) "phase (core (loop s)) = Admitting" "stop_at l \<le> now (loop s)"
      "sim_step l period m nxt rep s = s\<lparr>loop := (loop s)\<lparr>core := (core (loop s))\<lparr>phase := Draining\<rparr>\<rparr>\<rparr>"
  | (finish) i where "phase (core (loop s)) = Admitting" "now (loop s) < stop_at l" "done_send s = Some i"
      "sim_step l period m nxt rep s =
         \<lparr>loop = (loop s)\<lparr>core := (take_task (sim_task i) (core (loop s)))
            \<lparr>active_keys := active_keys (core (loop s)) - {task_key (sim_task i)},
             report := report_record (report (core (loop s))) (succeeds l (stamped_order i))\<rparr>\<rparr>,
          flying = filter (\<lambda>x. Some (fst x) \<noteq> done_send s) (flying s)\<rparr>"
  | (log) r where "phase (core (loop s)) = Admitting" "now (loop s) < stop_at l" "done_send s = None"
      "report_at (loop s) \<le> now (loop s)"
      "sim_step l period m nxt rep s = s\<lparr>loop := (loop s)
         \<lparr>core := (core (loop s))\<lparr>logs := logs (core (loop s)) @ [r]\<rparr>,
          report_at := rep (report_at (loop s)) (now (loop s))\<rparr>\<rparr>"
  | (tick) "phase (core (loop s)) = Admitting" "now (loop s) < stop_at l" "done_send s = None"
      "now (loop s) < report_at (loop s)" "tick_at (loop s) \<le> now (loop s)" "can_admit m (core (loop s))"
      "sim_step l period m nxt rep s =
         \<lparr>loop = (loop s)\<lparr>core := admit (core (loop s)),
            tick_at := nxt (tick_at (loop s)) (now (loop s)),
            admitted_at := admitted_at (loop s) @ [now (loop s)]\<rparr>,
          flying = flying s @ [(length (started (core (loop s))),
            now (loop s) + delay l (stamped_order (length (started (core (loop s))))))]\<rparr>"
proof (cases "phase (core (loop s))")
  case (Finished r)
  then show thesis by (intro stopped) (simp_all add: sim_step_def sim_event_def)
next
  case Draining
  show thesis
  proof (cases "earliest (flying s)")
    case None
    then show thesis using Draining
      by (intro return) (simp_all add: sim_step_def sim_event_def sim_sends_def Let_def)
  next
    case (Some x)
    obtain i d where x: "x = (i, d)" by (cases x)
    show thesis
    proof (cases "d \<le> now (loop s)")
      case True
      then show thesis using Draining Some x
        by (intro join [of i]) (simp_all add: sim_step_def sim_event_def sim_sends_def Let_def done_send_def)
    next
      case False
      then show thesis using Draining Some x False
        by (intro drain_wait [of i d])
          (simp_all add: sim_step_def sim_event_def sim_sends_def Let_def done_send_def timed_apply_def)
    qed
  qed
next
  case Admitting
  show thesis
  proof (cases "branch_ready l m s")
    case False
    then show thesis using Admitting
      by (intro wait) (simp_all add: sim_step_def sim_event_def sim_sends_def Let_def timed_apply_def)
  next
    case ready: True
    have step: "sim_step l period m nxt rep s =
        (let ev = Poll (stop_at l \<le> now (loop s)) (map_option (result_of l) (done_send s))
         in \<lparr>loop = timed_apply period m nxt rep ev (loop s), flying = sim_sends l m ev s\<rparr>)"
      using Admitting ready by (simp add: sim_step_def sim_event_def Let_def)
    consider "stop_at l \<le> now (loop s)"
      | i where "now (loop s) < stop_at l" "done_send s = Some i"
      | "now (loop s) < stop_at l" "done_send s = None" "report_at (loop s) \<le> now (loop s)"
      | "now (loop s) < stop_at l" "done_send s = None" "now (loop s) < report_at (loop s)"
        "tick_at (loop s) \<le> now (loop s)" "can_admit m (core (loop s))"
      using ready unfolding branch_ready_def by (metis not_le option.exhaust)
    then show thesis
    proof cases
      case 1
      then show thesis using Admitting step
        by (intro shutdown)
          (simp_all add: timed_apply_def timed_select_def select_shutdown takes_tick_def takes_report_def
            sim_sends_def Let_def)
    next
      case (2 i)
      have "pending (core (loop s)) \<noteq> []" using take_done_send(2) [OF assms 2(2)] by auto
      then show thesis using 2 Admitting step
        by (intro finish [of i])
          (simp_all add: timed_apply_def timed_select_def select_finished takes_tick_def
            takes_report_def sim_sends_def Let_def result_of_def)
    next
      case 3
      then have "takes_report (poll_at False None (loop s)) (core (loop s))"
        "\<not> takes_tick m (poll_at False None (loop s)) (core (loop s))"
        by (simp_all add: takes_report_def takes_tick_def)
      then show thesis using 3 Admitting step
          takes_report_logs [of "poll_at False None (loop s)" "core (loop s)" period m]
        by (intro log [of "report_log (report (core (loop s))) period (now (loop s))
              (length (pending (core (loop s))))"])
          (simp_all add: timed_apply_def timed_select_def sim_sends_def Let_def)
    next
      case 4
      then have "takes_tick m (poll_at False None (loop s)) (core (loop s))"
        "\<not> takes_report (poll_at False None (loop s)) (core (loop s))"
        by (simp_all add: takes_report_def takes_tick_def)
      then show thesis using 4 Admitting step
          takes_tick_admits [of m "poll_at False None (loop s)" "core (loop s)" period]
        by (intro tick) (simp_all add: timed_apply_def timed_select_def sim_sends_def Let_def)
    qed
  qed
qed


lemma sim_step_timed:
  assumes "data_inv m (core (loop s))" and "sim_inv m s"
  shows "(timed_step period m nxt rep)\<^sup>=\<^sup>= (loop s) (loop (sim_step l period m nxt rep s))"
proof (cases "sim_event l m s")
  case (Some ev)
  then show ?thesis using timed_step.timed [OF sim_event_enabled [OF assms Some]]
    by (simp add: sim_step_def)
qed (simp add: sim_step_def)

lemma sim_inv_step:
  assumes "data_inv m (core (loop s))" and "sim_inv m s"
  shows "sim_inv m (sim_step l period m nxt rep s)"
  using assms
proof (cases rule: sim_step_cases [where l = l and period = period and nxt = nxt and rep = rep])
  case return
  then show ?thesis using assms(2) by (simp add: sim_inv_def timed_apply_def finish_step_def)
next
  case (join i)
  then show ?thesis using take_done_send [OF assms join(2)] assms(2)
    by (intro sim_inv_drop [OF assms(2)]) (simp_all add: timed_apply_def drain_step_def)
next
  case (finish i)
  then show ?thesis using take_done_send [OF assms finish(3)] assms(2)
    by (intro sim_inv_drop [OF assms(2)]) simp_all
next
  case tick
  then show ?thesis using sim_inv_admit [OF assms] by simp
qed (use assms(2) in \<open>simp_all add: sim_inv_def\<close>)

definition sim_ok :: "duration \<Rightarrow> nat \<Rightarrow> interval \<Rightarrow> interval \<Rightarrow> 'e sim \<Rightarrow> bool" where
  "sim_ok period m nxt rep s \<longleftrightarrow> timed_reachable period m nxt rep (loop s) \<and> sim_inv m s"

lemma sim_ok_data: "sim_ok period m nxt rep s \<Longrightarrow> data_inv m (core (loop s))"
  using reachable_inv(1) [OF timed_reachable_core] unfolding sim_ok_def by blast

lemma sim_ok_step:
  assumes "sim_ok period m nxt rep s"
  shows "sim_ok period m nxt rep (sim_step l period m nxt rep s)"
proof -
  have inv: "sim_inv m s" "timed_reachable period m nxt rep (loop s)" using assms by (simp_all add: sim_ok_def)
  note d = sim_ok_data [OF assms]
  show ?thesis
    using inv(2) sim_step_timed [OF d inv(1), of period nxt rep l] sim_inv_step [OF d inv(1)]
    by (auto simp: sim_ok_def intro: reach_step)
qed

lemma simulate_ok: "sim_ok period m nxt rep (simulate l period m nxt rep n)"
proof (induction n)
  case 0
  then show ?case
    by (simp add: simulate_def sim_ok_def sim_init_def sim_inv_def timed_init_def sched_init_def
        reachable.reach_init)
next
  case (Suc n)
  then show ?case using sim_ok_step by (simp add: simulate_def)
qed


section \<open>It returns\<close>

lemma foldr_min_le: "foldr min xs (b :: nat) \<le> b" "x \<in> set xs \<Longrightarrow> foldr min xs b \<le> x"
  by (induction xs) (auto simp: min_le_iff_disj)

lemma foldr_min_in: "foldr min xs (b :: nat) = b \<or> foldr min xs b \<in> set xs"
  by (induction xs) (auto simp: min_def)

lemma next_time_le:
  "next_time l m s \<le> stop_at l"
  "next_time l m s \<le> report_at (loop s)"
  "x \<in> set (flying s) \<Longrightarrow> next_time l m s \<le> snd x"
  "can_admit m (core (loop s)) \<Longrightarrow> next_time l m s \<le> tick_at (loop s)"
  unfolding next_time_def by (intro foldr_min_le; simp)+

lemma next_time_later:
  assumes "\<not> branch_ready l m s"
  shows "now (loop s) < next_time l m s"
proof -
  have "\<forall>x \<in> set (flying s). now (loop s) < snd x"
    using assms by (simp add: branch_ready_def flip: done_send_None)
  then show ?thesis
    using assms foldr_min_in [of "report_at (loop s) # map snd (flying s) @
        (if can_admit m (core (loop s)) then [tick_at (loop s)] else [])" "stop_at l"]
    by (auto simp: branch_ready_def next_time_def not_le split: if_splits)
qed

lemma next_time_ready:
  assumes "now (loop u) = next_time l m s" and "loop u = (loop s)\<lparr>now := n\<rparr>" and "flying u = flying s"
  shows "branch_ready l m u"
proof (rule ccontr)
  assume "\<not> branch_ready l m u"
  then have "now (loop u) < next_time l m u" by (rule next_time_later)
  moreover have "next_time l m u = next_time l m s" using assms(2,3) by (simp add: next_time_def)
  ultimately show False using assms(1) by simp
qed

text \<open>While orders are admitted the time stays up to the shutdown, and bounds what has happened.\<close>

definition sim_bounds :: "load \<Rightarrow> 'e sim \<Rightarrow> bool" where
  "sim_bounds l s \<longleftrightarrow>
     (phase (core (loop s)) = Admitting \<longrightarrow> now (loop s) \<le> stop_at l) \<and>
     (\<forall>t \<in> set (admitted_at (loop s)). t < stop_at l) \<and>
     (\<not> returned (core (loop s)) \<longrightarrow> length (logs (core (loop s))) * report_period \<le> stop_at l)"

lemma sim_bounds_step:
  assumes ok: "sim_ok period m nxt rep s" and burst: "burst_law report_period rep" and b: "sim_bounds l s"
  shows "sim_bounds l (sim_step l period m nxt rep s)"
proof -
  have d: "data_inv m (core (loop s))" and inv: "sim_inv m s"
    using sim_ok_data [OF ok] ok by (simp_all add: sim_ok_def)
  have li: "logs_inv (loop s)"
    using cadence.inv_reachable [of period m nxt rep "loop s"] ok burst by (simp add: sim_ok_def)
  from d inv show ?thesis
  proof (cases rule: sim_step_cases [where l = l and period = period and nxt = nxt and rep = rep])
    case return
    then show ?thesis using b by (simp add: sim_bounds_def timed_apply_def finish_step_def returned_def)
  next
    case (join i)
    then show ?thesis using b
      by (simp add: sim_bounds_def timed_apply_def drain_step_def returned_def take_task_def)
  next
    case (finish i)
    then show ?thesis using b by (simp add: sim_bounds_def returned_def take_task_def)
  next
    case wait
    then show ?thesis
      using b next_time_le(1) [of l m s] next_time_later [OF wait(2)]
      by (simp add: sim_bounds_def)
  next
    case (log r)
    have nr: "\<not> returned (core (loop s))" using log(1) by (simp add: returned_def)
    then have "report_at (loop s) = Suc (length (logs (core (loop s)))) * report_period"
      using li unfolding logs_inv_def by auto
    then have "Suc (length (logs (core (loop s)))) * report_period \<le> stop_at l"
      using log(2,4) by linarith
    then show ?thesis using b log by (simp add: sim_bounds_def)
  next
    case tick
    then show ?thesis using b by (auto simp: sim_bounds_def admit_def Let_def returned_def)
  qed (use b in \<open>auto simp: sim_bounds_def returned_def\<close>)
qed

lemma simulate_bounds:
  assumes "burst_law report_period rep"
  shows "sim_bounds l (simulate l period m nxt rep n)"
proof (induction n)
  case 0
  then show ?case by (simp add: simulate_def sim_bounds_def sim_init_def timed_init_def sched_init_def)
next
  case (Suc n)
  then show ?case using sim_bounds_step [OF simulate_ok assms] by (simp add: simulate_def)
qed

definition progress :: "'e sim \<Rightarrow> nat" where
  "progress s =
     length (started (core (loop s))) + length (joined (core (loop s))) +
     length (logs (core (loop s))) + (if phase (core (loop s)) = Admitting then 0 else 1)"

definition acts :: "load \<Rightarrow> nat \<Rightarrow> 'e sim \<Rightarrow> bool" where
  "acts l m s =
     (case phase (core (loop s)) of Admitting \<Rightarrow> branch_ready l m s
      | Draining \<Rightarrow> flying s = [] \<or> done_send s \<noteq> None
      | Finished _ \<Rightarrow> False)"

text \<open>Each step makes progress, or waits until the next one does.\<close>

lemma sim_progress:
  assumes ok: "sim_ok period m nxt rep s"
    and "\<not> returned (core (loop (sim_step l period m nxt rep s)))"
  shows "Suc (2 * progress s + (if acts l m s then 1 else 0)) \<le>
    2 * progress (sim_step l period m nxt rep s) + (if acts l m (sim_step l period m nxt rep s) then 1 else 0)"
proof -
  have d: "data_inv m (core (loop s))" and inv: "sim_inv m s"
    using sim_ok_data [OF ok] ok by (simp_all add: sim_ok_def)
  from d inv show ?thesis
  proof (cases rule: sim_step_cases [where l = l and period = period and nxt = nxt and rep = rep])
    case (stopped r)
    then show ?thesis using assms(2) by (simp add: returned_def)
  next
    case return
    then show ?thesis using assms(2) by (simp add: returned_def timed_apply_def finish_step_def)
  next
    case (join i)
    then show ?thesis by (simp add: progress_def timed_apply_def drain_step_def take_task_def)
  next
    case (drain_wait i d)
    then have "acts l m (sim_step l period m nxt rep s)" "\<not> acts l m s"
      by (auto simp: acts_def done_send_def)
    then show ?thesis using drain_wait by (simp add: progress_def)
  next
    case wait
    let ?u = "sim_step l period m nxt rep s"
    have "now (loop ?u) = next_time l m s" using wait next_time_later [OF wait(2)] by simp
    moreover have "loop ?u = (loop s)\<lparr>now := now (loop ?u)\<rparr>" "flying ?u = flying s" using wait by simp_all
    ultimately have "branch_ready l m ?u" by (rule next_time_ready)
    then have "acts l m ?u" "\<not> acts l m s" using wait by (simp_all add: acts_def)
    then show ?thesis using wait by (simp add: progress_def)
  next
    case tick
    then show ?thesis by (simp add: progress_def) (simp add: admit_def Let_def)
  qed (simp_all add: progress_def take_task_def)
qed

lemma sim_progress_run:
  assumes "\<not> returned (core (loop (simulate l period m nxt rep n :: 'e sim)))"
  shows "n \<le> 2 * progress (simulate l period m nxt rep n :: 'e sim) +
    (if acts l m (simulate l period m nxt rep n :: 'e sim) then 1 else 0)"
  using assms
proof (induction n)
  case (Suc n)
  let ?s = "simulate l period m nxt rep n :: 'e sim"
  have s: "simulate l period m nxt rep (Suc n) = sim_step l period m nxt rep ?s" by (simp add: simulate_def)
  have "\<not> returned (core (loop ?s))"
  proof
    assume "returned (core (loop ?s))"
    then obtain r where "phase (core (loop ?s)) = Finished r" by (auto simp: returned_def split: phase.splits)
    then have "sim_step l period m nxt rep ?s = ?s" by (simp add: sim_step_def sim_event_def)
    then show False using Suc.prems s \<open>returned (core (loop ?s))\<close> by simp
  qed
  then have "Suc n \<le> Suc (2 * progress ?s + (if acts l m ?s then 1 else 0))"
    using Suc.IH by simp
  also have "\<dots> \<le> 2 * progress (simulate l period m nxt rep (Suc n) :: 'e sim) +
      (if acts l m (simulate l period m nxt rep (Suc n) :: 'e sim) then 1 else 0)"
    using sim_progress [OF simulate_ok] Suc.prems unfolding s by blast
  finally show ?case .
qed simp


lemma simulate_timed:
  "timed_reachable period m nxt rep (loop (simulate l period m nxt rep n :: 'e sim))"
  using simulate_ok [of period m nxt rep l n] unfolding sim_ok_def by blast

lemma simulate_reachable:
  "send_reachable period m (core (loop (simulate l period m nxt rep n :: 'e sim)))"
  by (rule timed_reachable_core [OF simulate_timed])

text \<open>The deliveries of a load do not panic, so no join fails.\<close>

lemma sim_no_error:
  assumes ok: "sim_ok period m nxt rep s" and e: "task_error (core (loop s)) = None"
  shows "task_error (core (loop (sim_step l period m nxt rep s))) = None"
proof -
  have d: "data_inv m (core (loop s))" and inv: "sim_inv m s"
    using sim_ok_data [OF ok] ok by (simp_all add: sim_ok_def)
  from d inv show ?thesis
    by (cases rule: sim_step_cases [where l = l and period = period and nxt = nxt and rep = rep])
      (use e in \<open>simp_all add: timed_apply_def drain_step_def finish_step_def\<close>)
qed

lemma simulate_no_error:
  "task_error (core (loop (simulate l period m nxt rep n :: 'e sim))) = None"
proof (induction n)
  case 0
  then show ?case by (simp add: simulate_def sim_init_def timed_init_def sched_init_def)
next
  case (Suc n)
  then show ?case using sim_no_error [OF simulate_ok Suc] by (simp add: simulate_def)
qed

lemma returned_control:
  assumes "control_inv c" and "task_error c = None" and "returned c"
  shows "phase c = Finished (Inr (report c)) \<and> pending c = []"
  using assms by (cases "phase c") (auto simp: control_inv_def returned_def)

lemma returned_Ok:
  assumes "returned (core (loop (simulate l period m nxt rep n :: 'e sim)))"
  shows "phase (core (loop (simulate l period m nxt rep n :: 'e sim))) =
      Finished (Inr (report (core (loop (simulate l period m nxt rep n :: 'e sim))))) \<and>
    pending (core (loop (simulate l period m nxt rep n :: 'e sim))) = []"
  by (rule returned_control [OF reachable_inv(2) [OF simulate_reachable] simulate_no_error assms])

definition run_bound :: "load \<Rightarrow> duration \<Rightarrow> nat" where
  "run_bound l period = 4 * Suc (stop_at l div period) + 2 * (stop_at l div report_period) + 4"

lemma started_bound:
  assumes "0 < period" and "timed_inv period late t" and "\<forall>x \<in> set (admitted_at t). x < stop"
  shows "length (started (core t)) \<le> Suc (stop div period)"
proof (cases "length (admitted_at t)")
  case 0
  then show ?thesis using assms(2) by (simp add: timed_inv_def)
next
  case (Suc k)
  then have "k * period \<le> admitted_at t ! k" using assms(2) by (simp add: timed_inv_def paced_def)
  moreover have "admitted_at t ! k < stop" using assms(3) Suc by simp
  ultimately have "k \<le> stop div period" using assms(1) by (simp add: less_eq_div_iff_mult_less_eq)
  then show ?thesis using assms(2) Suc by (simp add: timed_inv_def)
qed

lemma simulate_returned:
  assumes "0 < period" and "skip_law period late nxt" and "burst_law report_period rep"
    and "run_bound l period \<le> n"
  shows "returned (core (loop (simulate l period m nxt rep n :: 'e sim)))"
proof (rule ccontr)
  let ?s = "simulate l period m nxt rep n :: 'e sim"
  assume nr: "\<not> returned (core (loop ?s))"
  have ok: "sim_ok period m nxt rep ?s" by (rule simulate_ok)
  have b: "sim_bounds l ?s" by (rule simulate_bounds [OF assms(3)])
  have "timed_inv period late (loop ?s)"
    using timed.inv_reachable [of period m nxt rep "loop ?s" late] ok assms(2) by (simp add: sim_ok_def)
  then have st: "length (started (core (loop ?s))) \<le> Suc (stop_at l div period)"
    using b by (intro started_bound [OF assms(1)]) (simp_all add: sim_bounds_def)
  have jo: "length (joined (core (loop ?s))) \<le> length (started (core (loop ?s)))"
    using sim_ok_data [OF ok] by (simp add: data_inv_def)
  have "length (logs (core (loop ?s))) * report_period \<le> stop_at l"
    using b nr by (simp add: sim_bounds_def)
  moreover have "0 < report_period" by (simp add: report_period_def from_secs_def)
  ultimately have lg: "length (logs (core (loop ?s))) \<le> stop_at l div report_period"
    by (simp add: less_eq_div_iff_mult_less_eq)
  have "progress ?s \<le> 2 * Suc (stop_at l div period) + stop_at l div report_period + 1"
    unfolding progress_def using st jo lg by simp
  then have "2 * progress ?s + (if acts l m ?s then 1 else 0) < run_bound l period"
    unfolding run_bound_def by simp
  then show False using sim_progress_run [OF nr] assms(4) by linarith
qed

section \<open>The requested rate\<close>

text \<open>When the loop cannot admit the next order, one of the last few is to blame.\<close>

lemma sorted_room:
  assumes "sorted_wrt (<) (map fst xs)" and "\<forall>x \<in> set xs. fst x < n" and "xs \<noteq> []"
  shows "\<exists>x \<in> set xs. fst x + length xs \<le> (n :: nat)"
  using assms
proof (induction xs)
  case (Cons a xs)
  show ?case
  proof (cases "xs = []")
    case False
    then obtain x where "x \<in> set xs" "fst x + length xs \<le> n" using Cons by auto
    moreover from this have "fst a < fst x" using Cons.prems(1) by simp
    ultimately show ?thesis by (intro bexI [of _ a]) auto
  qed (use Cons.prems in auto)
qed simp

lemma distinct_CATEGORIES: "distinct CATEGORIES"
  by (simp add: CATEGORIES_def)

lemma same_mod_five:
  assumes "n mod 5 = i mod 5" and "i < n"
  shows "i + 5 \<le> (n :: nat)"
proof -
  have "5 dvd n - i" using assms mod_eq_dvd_iff_nat [of i n 5] by simp
  then have "5 \<le> n - i" by (rule dvd_imp_le) (use assms(2) in simp)
  then show ?thesis using assms(2) by simp
qed

lemma key_busy:
  assumes ok: "sim_ok period m nxt rep s" and "phase (core (loop s)) = Admitting"
    and n: "length (started (core (loop s))) < 2 ^ 64"
  shows "category (next_order (core (loop s))) \<in> active_keys (core (loop s)) \<longleftrightarrow>
    (\<exists>x \<in> set (flying s). length (started (core (loop s))) mod 5 = fst x mod 5)"
proof -
  let ?n = "length (started (core (loop s)))"
  have r: "send_reachable period m (core (loop s))"
    using ok timed_reachable_core by (auto simp: sim_ok_def)
  note d = reachable_inv(1) [OF r] and c = reachable_inv(2) [OF r]
  have inv: "sim_inv m s" using ok by (simp add: sim_ok_def)
  have key: "task_key (sim_task i) = CATEGORIES ! (i mod 5)" if "i < 2 ^ 64" for i
    using that by (simp add: sim_task_def stamped_order_def unat_of_nat)
  have idx: "fst x < 2 ^ 64" if "x \<in> set (flying s)" for x
    using inv that n by (auto simp: sim_inv_def)
  have cat: "category (next_order (core (loop s))) = CATEGORIES ! (?n mod 5)"
    using d n by (simp add: data_inv_def unat_of_nat)
  have "active_keys (core (loop s)) = (\<lambda>x. task_key (sim_task (fst x))) ` set (flying s)"
    using c assms(2) inv by (simp add: control_inv_def sim_inv_def image_image)
  also have "\<dots> = (\<lambda>x. CATEGORIES ! (fst x mod 5)) ` set (flying s)"
    by (intro image_cong refl key idx)
  finally have "category (next_order (core (loop s))) \<in> active_keys (core (loop s)) \<longleftrightarrow>
      (\<exists>x \<in> set (flying s). CATEGORIES ! (?n mod 5) = CATEGORIES ! (fst x mod 5))"
    by (simp only: cat image_iff)
  moreover have "CATEGORIES ! (?n mod 5) = CATEGORIES ! (i mod 5) \<longleftrightarrow> ?n mod 5 = i mod 5" for i
    by (intro nth_eq_iff_index_eq [OF distinct_CATEGORIES]) simp_all
  ultimately show ?thesis by (simp only:)
qed

lemma blocked_send:
  assumes ok: "sim_ok period m nxt rep s" and "phase (core (loop s)) = Admitting" and "0 < m"
    and "\<not> can_admit m (core (loop s))" and n: "length (started (core (loop s))) < 2 ^ 64"
  shows "\<exists>x \<in> set (flying s). fst x + min m 5 \<le> length (started (core (loop s)))"
proof -
  have inv: "sim_inv m s" using ok by (simp add: sim_ok_def)
  have len: "length (pending (core (loop s))) = length (flying s)"
    using inv by (simp add: sim_inv_def)
  from assms(4) consider "m \<le> length (flying s)"
    | "category (next_order (core (loop s))) \<in> active_keys (core (loop s))"
    by (auto simp: can_admit_def len)
  then show ?thesis
  proof cases
    case 1
    then have "flying s \<noteq> []" using assms(3) by auto
    then obtain x where "x \<in> set (flying s)" "fst x + length (flying s) \<le> length (started (core (loop s)))"
      using sorted_room inv by (metis sim_inv_def)
    then show ?thesis using 1 by (intro bexI [of _ x]) auto
  next
    case 2
    then obtain x where x: "x \<in> set (flying s)" "length (started (core (loop s))) mod 5 = fst x mod 5"
      using key_busy [OF ok assms(2) n] by blast
    then have "fst x + 5 \<le> length (started (core (loop s)))"
      using inv by (intro same_mod_five) (simp_all add: sim_inv_def)
    then show ?thesis using x by (intro bexI [of _ x]) auto
  qed
qed

text \<open>An interval ticked on time has its next deadline one period later.\<close>

definition on_time_law :: "duration \<Rightarrow> interval \<Rightarrow> bool" where
  "on_time_law period nxt \<longleftrightarrow> (\<forall>deadline. nxt deadline deadline = deadline + period)"

lemma on_time_skip_next: "on_time_law period (skip_next period)"
  by (simp add: on_time_law_def skip_next_def)

definition on_pace :: "load \<Rightarrow> duration \<Rightarrow> nat \<Rightarrow> 'e sim \<Rightarrow> bool" where
  "on_pace l period m s \<longleftrightarrow>
     (let n = length (started (core (loop s))) in
      admitted_at (loop s) = map (\<lambda>i. i * period) [0..<n] \<and>
      tick_at (loop s) = n * period \<and>
      (\<forall>x \<in> set (flying s). snd x \<le> fst x * period + min m 5 * period) \<and>
      (0 < n \<longrightarrow> (n - 1) * period < stop_at l) \<and>
      (if phase (core (loop s)) = Admitting then now (loop s) \<le> n * period
       else stop_at l \<le> n * period))"

lemma on_pace_wait:
  assumes ok: "sim_ok period m nxt rep s" and pace: "on_pace l period m s"
    and "phase (core (loop s)) = Admitting" and "0 < m"
    and "0 < period" and "stop_at l \<le> 2 ^ 63 * period"
  shows "next_time l m s \<le> length (started (core (loop s))) * period"
proof (cases "can_admit m (core (loop s))")
  case True
  then show ?thesis using next_time_le(4) [OF True, of l] pace by (simp add: on_pace_def Let_def)
next
  case False
  let ?n = "length (started (core (loop s)))"
  have "?n < 2 ^ 64"
  proof (cases "0 < ?n")
    case True
    then have "(?n - 1) * period < stop_at l" using pace by (simp add: on_pace_def Let_def)
    then have "(?n - 1) * period < 2 ^ 63 * period" using assms(6) by (rule order_less_le_trans)
    then have "?n - 1 < 2 ^ 63" by (simp only: mult_less_cancel2)
    then show ?thesis by simp
  qed simp
  then obtain x where x: "x \<in> set (flying s)" "fst x + min m 5 \<le> ?n"
    using blocked_send [OF ok assms(3,4) False] by blast
  have "next_time l m s \<le> snd x" using x(1) by (rule next_time_le)
  also have "\<dots> \<le> (fst x + min m 5) * period"
    using pace x(1) by (simp add: on_pace_def Let_def algebra_simps)
  also have "\<dots> \<le> ?n * period" using x(2) by simp
  finally show ?thesis .
qed

lemma on_pace_step:
  assumes ok: "sim_ok period m nxt rep s" and pace: "on_pace l period m s"
    and bounds: "0 < m" "0 < period" "stop_at l \<le> 2 ^ 63 * period"
    and fast: "\<And>x. delay l x \<le> min m 5 * period" and nxt: "on_time_law period nxt"
  shows "on_pace l period m (sim_step l period m nxt rep s)"
proof -
  have d: "data_inv m (core (loop s))" and inv: "sim_inv m s"
    using sim_ok_data [OF ok] ok by (simp_all add: sim_ok_def)
  from d inv show ?thesis
  proof (cases rule: sim_step_cases [where l = l and period = period and nxt = nxt and rep = rep])
    case return
    then show ?thesis using pace
      by (simp add: on_pace_def Let_def timed_apply_def finish_step_def)
  next
    case (join i)
    then show ?thesis using pace
      by (simp add: on_pace_def Let_def timed_apply_def drain_step_def)
  next
    case wait
    then show ?thesis
      using pace on_pace_wait [OF ok pace wait(1) bounds] next_time_later [OF wait(2)]
      by (simp add: on_pace_def Let_def)
  next
    case shutdown
    then show ?thesis using pace by (auto simp: on_pace_def Let_def)
  next
    case tick
    let ?n = "length (started (core (loop s)))"
    have now: "now (loop s) = ?n * period" "tick_at (loop s) = ?n * period"
      using pace tick(1,5) by (simp_all add: on_pace_def Let_def)
    have "nxt (?n * period) (?n * period) = Suc ?n * period"
      using nxt by (simp add: on_time_law_def)
    then show ?thesis
      using pace tick now fast [of "stamped_order ?n"]
      by (simp add: on_pace_def Let_def)
  qed (use pace in \<open>simp_all add: on_pace_def Let_def\<close>)
qed

lemma simulate_on_pace:
  assumes "0 < m" "0 < period" "stop_at l \<le> 2 ^ 63 * period"
    and "\<And>x. delay l x \<le> min m 5 * period" and "on_time_law period nxt"
  shows "on_pace l period m (simulate l period m nxt rep n)"
proof (induction n)
  case 0
  then show ?case
    by (simp add: simulate_def on_pace_def sim_init_def timed_init_def sched_init_def)
next
  case (Suc n)
  then show ?case using on_pace_step [OF simulate_ok Suc assms] by (simp add: simulate_def)
qed


lemma simulate_full_rate:
  assumes "0 < m" "0 < period" "stop_at l \<le> 2 ^ 63 * period"
    and "\<And>x. delay l x \<le> min m 5 * period" and "on_time_law period nxt"
    and "phase (core (loop (simulate l period m nxt rep n :: 'e sim))) \<noteq> Admitting"
  shows "length (started (core (loop (simulate l period m nxt rep n :: 'e sim)))) =
      (stop_at l + period - 1) div period"
    and "admitted_at (loop (simulate l period m nxt rep n :: 'e sim)) =
      map (\<lambda>i. i * period) [0..<(stop_at l + period - 1) div period]"
proof -
  let ?s = "simulate l period m nxt rep n :: 'e sim" and ?k = "(stop_at l + period - 1) div period"
  have pace: "on_pace l period m ?s" by (rule simulate_on_pace [OF assms(1-5)])
  define k where "k = length (started (core (loop ?s)))"
  have k: "0 < k \<longrightarrow> (k - 1) * period < stop_at l" "stop_at l \<le> k * period"
    using pace assms(6) by (simp_all add: on_pace_def Let_def k_def)
  have "?k = k"
  proof (cases k)
    case 0
    then show ?thesis using k assms(2) by simp
  next
    case (Suc j)
    then have "j * period < stop_at l" "stop_at l \<le> j * period + period" using k by simp_all
    then show ?thesis using Suc assms(2) by (intro div_nat_eqI) (simp_all add: algebra_simps)
  qed
  then show "length (started (core (loop ?s))) = ?k" by (simp add: k_def)
  with pace show "admitted_at (loop ?s) = map (\<lambda>i. i * period) [0..<?k]"
    by (simp add: on_pace_def Let_def)
qed


section \<open>A run\<close>

text \<open>Three orders at 50 per second, each delivered in 50 ms, with shutdown after 50 ms.\<close>

definition demo_load :: load where
  "demo_load = \<lparr>delay = \<lambda>_. from_millis 50, succeeds = \<lambda>_. True, stop_at = from_millis 50\<rparr>"

definition demo_sim :: "string sim" where
  "demo_sim = simulate demo_load (from_millis 20) 5 (skip_next (from_millis 20)) (burst_next report_period) 16"

lemma demo_load_simps [simp]:
  "delay demo_load x = 50000000" "succeeds demo_load x" "stop_at demo_load = 50000000"
  by (simp_all add: demo_load_def from_millis_def)

lemma demo_sim_returned: "returned (core (loop demo_sim))"
  unfolding demo_sim_def
  by (rule simulate_returned [OF _ skip_law_skip_next burst_law_burst_next])
    (simp_all add: from_millis_def run_bound_def report_period_def from_secs_def)

lemma demo_sim_reachable:
  "timed_reachable (from_millis 20) 5 (skip_next (from_millis 20)) (burst_next report_period) (loop demo_sim)"
  unfolding demo_sim_def by (rule simulate_timed)

lemma demo_sim_stopped: "phase (core (loop demo_sim)) \<noteq> Admitting"
  using demo_sim_returned by (auto simp: returned_def)

lemma demo_sim_admitted:
  "length (started (core (loop demo_sim))) = 3"
  "admitted_at (loop demo_sim) = [0, 20000000, 40000000]"
  using simulate_full_rate [where 'e = string and m = 5 and period = "from_millis 20" and l = demo_load and
      nxt = "skip_next (from_millis 20)" and rep = "burst_next report_period" and n = 16]
    demo_sim_stopped
  by (simp_all add: demo_sim_def from_millis_def on_time_skip_next upt_rec numeral_3_eq_3)

section \<open>Logging\<close>

text \<open>
  While it runs, the loop logs its rates once per five seconds: the number of log lines times
  five seconds never exceeds the elapsed time, and the next line is due one interval after the last,
  so no due line is skipped however late it is written; the return adds one line.
\<close>

lemma rates_logged_every_five_seconds:
  assumes "burst_law (from_secs 5) rep" and "timed_reachable period m nxt rep s"
  shows "\<exists>n. length (logs (core s)) = n + (if returned (core s) then 1 else 0) \<and>
    report_at s = Suc n * from_secs 5 \<and> n * from_secs 5 \<le> now s"
  using cadence.inv_reachable [OF assms(2)] assms(1)
  by (simp add: logs_inv_def report_period_def)

section \<open>Properties\<close>

text \<open>
  C12: the producer never exceeds the requested rate, and backpressure causes no burst of catch-up
  orders: however long the loop was blocked, the i-th order is not admitted before i periods have
  passed, and after any admission the next orders come a period apart at least, but for the first of
  them and for the lateness the interval treats as on time.
\<close>

theorem admissions_paced:
  assumes "skip_law period late nxt" and "timed_reachable period m nxt rep s"
    and "i < j" and "j < length (started (core s))"
  shows "length (admitted_at s) = length (started (core s)) \<and> j * period \<le> admitted_at s ! j \<and>
    admitted_at s ! j \<le> now s \<and>
    admitted_at s ! i + (j - i - 1) * period < admitted_at s ! j + late"
  using timed.inv_reachable [OF assms(2), of late] assms(1,3,4)
  by (simp add: timed_inv_def paced_def)

theorem admissions_paced_witness:
  "0 + (2 - 0 - 1) * 20000000 < (40000000 :: nat) + 1"
  using admissions_paced [OF skip_law_skip_next demo_sim_reachable, of 0 2] demo_sim_admitted
  by (simp add: from_millis_def)

text \<open>
  C13: a producer run ends, and at the requested rate when the deliveries keep up. With a prompt
  executor, whatever each delivery takes, \<open>send_orders\<close> has returned after a number of steps that the
  shutdown time and the period bound, with an \<open>Ok\<close> of the report and no send left behind. If each
  delivery takes at most as many periods as there may be sends in flight (the limit, or the five
  categories), then until shutdown every order is admitted exactly at its multiple of the period, none
  late and none skipped.
\<close>

theorem requested_rate_reached:
  assumes "0 < m" and "0 < period" and "stop_at l \<le> 2 ^ 63 * period"
    and "skip_law period late nxt" and "burst_law report_period rep"
    and "4 * Suc (stop_at l div period) + 2 * (stop_at l div report_period) + 4 \<le> n"
  shows "phase (core (loop (simulate l period m nxt rep n :: 'e sim))) =
      Finished (Inr (report (core (loop (simulate l period m nxt rep n :: 'e sim))))) \<and>
    pending (core (loop (simulate l period m nxt rep n :: 'e sim))) = [] \<and>
    ((\<forall>x. delay l x \<le> min m 5 * period) \<and> on_time_law period nxt \<longrightarrow>
      admitted_at (loop (simulate l period m nxt rep n :: 'e sim)) =
        map (\<lambda>i. i * period) [0..<(stop_at l + period - 1) div period] \<and>
      length (started (core (loop (simulate l period m nxt rep n :: 'e sim)))) =
        (stop_at l + period - 1) div period)"
proof -
  let ?s = "simulate l period m nxt rep n :: 'e sim"
  have r: "returned (core (loop ?s))"
    by (rule simulate_returned [OF assms(2,4,5)]) (use assms(6) in \<open>simp add: run_bound_def\<close>)
  then have "phase (core (loop ?s)) \<noteq> Admitting" by (auto simp: returned_def)
  then have "(\<forall>x. delay l x \<le> min m 5 * period) \<and> on_time_law period nxt \<longrightarrow>
      admitted_at (loop ?s) = map (\<lambda>i. i * period) [0..<(stop_at l + period - 1) div period] \<and>
      length (started (core (loop ?s))) = (stop_at l + period - 1) div period"
    using simulate_full_rate [OF assms(1-3)] by blast
  with returned_Ok [OF r] show ?thesis by blast
qed

theorem requested_rate_reached_witness:
  "length (started (core (loop demo_sim))) = (50000000 + 20000000 - 1) div 20000000 \<and>
   pending (core (loop demo_sim)) = []"
  using requested_rate_reached [OF _ _ _ skip_law_skip_next burst_law_burst_next,
      where 'e = string and m = 5 and period = "from_millis 20" and l = demo_load and n = 16]
  by (simp add: demo_sim_def from_millis_def report_period_def from_secs_def on_time_skip_next)

end
