(* ===== verification/Config.thy ===== *)
theory Config
  imports Rust_Std
begin

text \<open>
  \<open>crates/observability-demo-app/src/main.rs\<close>, the configuration: the roles and the command line
  \<open>Cli\<close>, the value parsers, the \<open>effective_*\<close> functions that reject an option of another role and
  validate or default it, and the two runtime bundles.

  The unit types (\<open>Time\<close>, \<open>Frequency\<close>, \<open>ByteSize\<close> of \<open>krabka-units\<close>) and the validated
  settings (\<open>ConsumerLeaveGroupTimeout\<close>, \<open>StreamsPollInterval\<close>, ... of the client packages) are
  not part of the repository: the records \<open>units\<close> and \<open>settings\<close> collect the operations the code
  calls on them and are parameters of every definition that calls them. A constructor returns its
  error as the error's display.
\<close>

section \<open>Roles\<close>

datatype role = Produce | Stream | Consume

instantiation role :: enum
begin

definition "enum_role = [Produce, Stream, Consume]"
definition "enum_all_role P \<longleftrightarrow> P Produce \<and> P Stream \<and> P Consume"
definition "enum_ex_role P \<longleftrightarrow> P Produce \<or> P Stream \<or> P Consume"

instance
proof
  show u: "(UNIV :: role set) = set enum_class.enum"
    by (auto simp: enum_role_def intro: role.exhaust)
  show "distinct (enum_class.enum :: role list)" by (simp add: enum_role_def)
  show "enum_class.enum_all P \<longleftrightarrow> Ball UNIV P" for P :: "role \<Rightarrow> bool"
    by (simp add: u enum_all_role_def enum_role_def)
  show "enum_class.enum_ex P \<longleftrightarrow> Bex UNIV P" for P :: "role \<Rightarrow> bool"
    by (simp add: u enum_ex_role_def enum_role_def)
qed

end

text \<open>The kebab-case value names of the command line.\<close>

fun role_name :: "role \<Rightarrow> string" where
  "role_name Produce = ''produce''"
| "role_name Stream = ''stream''"
| "role_name Consume = ''consume''"

section \<open>The command line\<close>

record ('p, 't, 'f, 'b, 'en) cli =
  profiling :: 'p
  role :: role
  bootstrap :: string
  client_dispatch_queue_capacity :: nat
  client_frame_max :: 'b
  registry_url :: string
  schema_fetch_retry_initial_backoff :: "'t option"
  schema_fetch_retry_max_backoff :: "'t option"
  input_topic :: string
  output_topic :: string
  streams_application_id :: string
  consumer_group_id :: string
  orders_per_sec :: 'f
  producer_max_in_flight :: nat
  consumer_poll_timeout :: 't
  validate_work :: 't
  enrich_work :: 't
  fraud_check_work :: 't
  fulfill_work :: 't
  slow_order_fraction :: f64
  consumer_leave_group_timeout :: "'t option"
  consumer_subscription_metadata_refresh_interval :: "'t option"
  consumer_startup_attempt_timeout :: "'t option"
  consumer_startup_deadline :: "'t option"
  consumer_startup_initial_backoff :: "'t option"
  consumer_startup_max_backoff :: "'t option"
  consumer_coordinator_retry_timeout :: "'t option"
  consumer_coordinator_initial_backoff :: "'t option"
  consumer_coordinator_max_backoff :: "'t option"
  consumer_fetch_min :: "'b option"
  consumer_fetch_max :: "'b option"
  consumer_fetch_partition_max :: "'b option"
  consumer_session_timeout :: "'t option"
  consumer_rebalance_timeout :: "'t option"
  consumer_heartbeat_interval :: "'t option"
  consumer_request_timeout :: "'t option"
  consumer_auto_offset_reset :: "'en option"
  consumer_isolation_level :: "'en option"
  consumer_assignor :: "'en option"
  streams_broker_dns_timeout :: "'t option"
  streams_poll_interval :: "'t option"
  streams_commit_interval :: "'t option"
  streams_rebalance_timeout :: "'t option"
  streams_leave_heartbeat_timeout :: "'t option"
  streams_join_retry_backoff :: "'t option"
  streams_interactive_query_queue_capacity :: "nat option"
  streams_state_store_cache_max :: "'b option"
  streams_fetch_min :: "'b option"

section \<open>The libraries\<close>

record ('t, 'f, 'b) units =
  time_human :: "'t \<Rightarrow> string"
  size_human :: "'b \<Rightarrow> string"
  to_std :: "'t \<Rightarrow> duration"
  from_std :: "duration \<Rightarrow> 't"
  secs_f64 :: "'t \<Rightarrow> f64"
  time_zero :: 't
  time_less :: "'t \<Rightarrow> 't \<Rightarrow> bool"
  freq_zero :: 'f
  freq_less :: "'f \<Rightarrow> 'f \<Rightarrow> bool"
  freq_eq :: "'f \<Rightarrow> 'f \<Rightarrow> bool"
  freq_recip :: "'f \<Rightarrow> 't"
  secs :: "nat \<Rightarrow> 't"
  minutes :: "nat \<Rightarrow> 't"
  bytes_of :: "nat \<Rightarrow> 'b"
  mebibytes :: "nat \<Rightarrow> 'b"
  bytes_i32 :: "'b \<Rightarrow> int"
  parse_time :: "string \<Rightarrow> string + 't"
  parse_frequency :: "string \<Rightarrow> string + 'f"
  parse_positive_byte_size :: "string \<Rightarrow> string + 'b"

text \<open>
  Each validated type by its constructor, its default and the accessors the code uses; \<open>'w\<close> is the
  type of their values, \<open>'en\<close> that of the three option enums.
\<close>

record ('t, 'b, 'w, 'en) settings =
  queue_capacity_new :: "nat \<Rightarrow> string + 'w"
  queue_capacity_get :: "'w \<Rightarrow> nat"
  frame_max_try_from :: "'b \<Rightarrow> string + 'w"
  frame_max_size :: "'w \<Rightarrow> 'b"
  fetch_min_try_from :: "'b \<Rightarrow> string + 'w"
  fetch_min_size :: "'w \<Rightarrow> 'b"
  fetch_min_default :: 'w
  fetch_max_try_from :: "'b \<Rightarrow> string + 'w"
  fetch_max_size :: "'w \<Rightarrow> 'b"
  partition_max_try_from :: "'b \<Rightarrow> string + 'w"
  partition_max_size :: "'w \<Rightarrow> 'b"
  leave_group_timeout_new :: "duration \<Rightarrow> string + 'w"
  leave_group_timeout_default :: 'w
  metadata_refresh_new :: "duration \<Rightarrow> string + 'w"
  metadata_refresh_default :: 'w
  retry_policy_new :: "'t \<Rightarrow> 't \<Rightarrow> 't \<Rightarrow> 't \<Rightarrow> 't \<Rightarrow> 't \<Rightarrow> 't \<Rightarrow> string + 'w"
  retry_policy_default :: 'w
  startup_attempt_timeout :: "'w \<Rightarrow> 't"
  startup_deadline :: "'w \<Rightarrow> 't"
  startup_initial_backoff :: "'w \<Rightarrow> 't"
  startup_max_backoff :: "'w \<Rightarrow> 't"
  coordinator_retry_timeout :: "'w \<Rightarrow> 't"
  coordinator_initial_backoff :: "'w \<Rightarrow> 't"
  coordinator_max_backoff :: "'w \<Rightarrow> 't"
  dns_timeout_new :: "'t \<Rightarrow> string + 'w"
  dns_timeout_default :: 'w
  poll_interval_new :: "duration \<Rightarrow> string + 'w"
  poll_interval_default :: 'w
  commit_interval_new :: "duration \<Rightarrow> string + 'w"
  commit_interval_default :: 'w
  rebalance_timeout_new :: "duration \<Rightarrow> string + 'w"
  rebalance_timeout_default :: 'w
  leave_heartbeat_new :: "duration \<Rightarrow> string + 'w"
  leave_heartbeat_default :: 'w
  join_retry_new :: "duration \<Rightarrow> string + 'w"
  join_retry_default :: 'w
  query_queue_new :: "nat \<Rightarrow> string + 'w"
  query_queue_default :: 'w
  cache_max_new :: "'b \<Rightarrow> string + 'w"
  cache_max_default :: 'w
  schema_retry_new :: "'t \<Rightarrow> 't \<Rightarrow> string + 'w"
  schema_retry_default :: 'w
  schema_initial_backoff :: "'w \<Rightarrow> 't"
  schema_max_backoff :: "'w \<Rightarrow> 't"
  offset_reset_latest :: 'en
  isolation_read_uncommitted :: 'en
  assignor_range :: 'en

section \<open>Value parsers\<close>

definition parse_client_dispatch_queue_capacity ::
  "('t, 'b, 'w, 'en) settings \<Rightarrow> string \<Rightarrow> string + nat" where
  "parse_client_dispatch_queue_capacity S value =
     bind_res (map_err int_error_text (parse_unsigned value)) (\<lambda>v.
     bind_res (queue_capacity_new S v) (\<lambda>w. Inr (queue_capacity_get S w)))"

definition parse_client_frame_max ::
  "('t, 'f, 'b) units \<Rightarrow> ('t, 'b, 'w, 'en) settings \<Rightarrow> string \<Rightarrow> string + 'b" where
  "parse_client_frame_max U S value =
     bind_res (parse_positive_byte_size U value) (\<lambda>v.
     bind_res (frame_max_try_from S v) (\<lambda>w. Inr (frame_max_size S w)))"

definition parse_fetch_min ::
  "('t, 'f, 'b) units \<Rightarrow> ('t, 'b, 'w, 'en) settings \<Rightarrow> string \<Rightarrow> string + 'b" where
  "parse_fetch_min U S value =
     bind_res (parse_positive_byte_size U value) (\<lambda>v.
     bind_res (fetch_min_try_from S v) (\<lambda>w. Inr (fetch_min_size S w)))"

text \<open>\<open>NonEmptyString::new\<close> is a library rule: its error message is a parameter.\<close>

definition parse_non_empty_string :: "string \<Rightarrow> string \<Rightarrow> string + string" where
  "parse_non_empty_string empty_error value = (if value = [] then Inl empty_error else Inr value)"

definition parse_nonnegative_frequency :: "('t, 'f, 'b) units \<Rightarrow> string \<Rightarrow> string + 'f" where
  "parse_nonnegative_frequency U value =
     bind_res (parse_frequency U value) (\<lambda>v.
       if freq_less U v (freq_zero U) then Inl ''frequency must not be negative'' else Inr v)"

definition parse_nonnegative_time :: "('t, 'f, 'b) units \<Rightarrow> string \<Rightarrow> string + 't" where
  "parse_nonnegative_time U value =
     bind_res (parse_time U value) (\<lambda>v.
       if time_less U v (time_zero U) then Inl ''time must not be negative'' else Inr v)"

section \<open>Role gates\<close>

text \<open>The message of an option given with the wrong role.\<close>

definition only_valid_with :: "string \<Rightarrow> string \<Rightarrow> role \<Rightarrow> io_error" where
  "only_valid_with name value r =
     InvalidInput (name @ '' ('' @ value @ '') is only valid with --role '' @ role_name r)"

text \<open>\<open>configured.into_iter().find_map(|(name, value)| value.map(|value| (name, value)))\<close>\<close>

fun first_set :: "(string \<times> 'a option) list \<Rightarrow> (string \<times> 'a) option" where
  "first_set [] = None"
| "first_set ((name, None) # rest) = first_set rest"
| "first_set ((name, Some v) # rest) = Some (name, v)"

definition invalid :: "string + 'a \<Rightarrow> io_error + 'a" where
  "invalid r = map_err InvalidInput r"

text \<open>\<open>option.map_or_else(|| Ok(default), |v| new(v).map_err(..))\<close>\<close>

definition or_default :: "'w \<Rightarrow> ('a \<Rightarrow> string + 'w) \<Rightarrow> 'a option \<Rightarrow> io_error + 'w" where
  "or_default d new v = (case v of None \<Rightarrow> Inr d | Some x \<Rightarrow> invalid (new x))"

text \<open>\<open>unwrap_or_else\<close>\<close>

definition unwrap_or :: "'a \<Rightarrow> 'a option \<Rightarrow> 'a" where
  "unwrap_or d v = (case v of None \<Rightarrow> d | Some x \<Rightarrow> x)"

lemma unwrap_or_simps [simp]: "unwrap_or d None = d" "unwrap_or d (Some x) = x"
  by (simp_all add: unwrap_or_def)

lemma or_default_simps [simp]:
  "or_default d new None = Inr d" "or_default d new (Some x) = invalid (new x)"
  by (simp_all add: or_default_def)

lemma invalid_simps [simp]: "invalid (Inr x) = Inr x" "invalid (Inl e) = Inl (InvalidInput e)"
  by (simp_all add: invalid_def)

lemma invalid_eq_Inr [simp]: "invalid r = Inr x \<longleftrightarrow> r = Inr x"
  by (simp add: invalid_def)

lemma first_set_None: "first_set xs = None \<longleftrightarrow> (\<forall>(n, v) \<in> set xs. v = None)"
  by (induction xs rule: first_set.induct) auto

lemma first_set_Some:
  "first_set xs = Some (n, v) \<longleftrightarrow>
   (\<exists>pre post. xs = pre @ (n, Some v) # post \<and> (\<forall>(n, v) \<in> set pre. v = None))"
proof (induction xs rule: first_set.induct)
  case (2 name rest)
  show ?case
  proof
    assume "first_set ((name, None) # rest) = Some (n, v)"
    then obtain pre post where "rest = pre @ (n, Some v) # post" "\<forall>(n, v) \<in> set pre. v = None"
      using 2 by auto
    then show "\<exists>pre post. (name, None) # rest = pre @ (n, Some v) # post \<and> (\<forall>(n, v) \<in> set pre. v = None)"
      by (intro exI [of _ "(name, None) # pre"] exI [of _ post]) auto
  next
    assume "\<exists>pre post. (name, None) # rest = pre @ (n, Some v) # post \<and> (\<forall>(n, v) \<in> set pre. v = None)"
    then show "first_set ((name, None) # rest) = Some (n, v)"
      using 2 by (auto simp: Cons_eq_append_conv) blast
  qed
qed (auto simp: Cons_eq_append_conv)

section \<open>Client limits\<close>

text \<open>Results of code that can panic (\<open>expect\<close>): \<^const>\<open>None\<close> is the panic.\<close>

definition expect :: "string + 'a \<Rightarrow> 'a option" where
  "expect r = (case r of Inl _ \<Rightarrow> None | Inr x \<Rightarrow> Some x)"

definition try_res :: "('e + 'a) option \<Rightarrow> ('a \<Rightarrow> ('e + 'b) option) \<Rightarrow> ('e + 'b) option" where
  "try_res r f = (case r of None \<Rightarrow> None | Some (Inl e) \<Rightarrow> Some (Inl e) | Some (Inr x) \<Rightarrow> f x)"

lemma try_res_simps [simp]:
  "try_res None f = None" "try_res (Some (Inl e)) f = Some (Inl e)" "try_res (Some (Inr x)) f = f x"
  by (simp_all add: try_res_def)

lemma try_res_ok:
  "try_res r f = Some (Inr y) \<longleftrightarrow> (\<exists>x. r = Some (Inr x) \<and> f x = Some (Inr y))"
  by (auto simp: try_res_def split: option.splits sum.splits)

lemma try_res_None: "try_res r f = None \<longleftrightarrow> r = None \<or> (\<exists>x. r = Some (Inr x) \<and> f x = None)"
  by (auto simp: try_res_def split: option.splits sum.splits)

lemma expect_Some [simp]: "expect r = Some x \<longleftrightarrow> r = Inr x"
  by (cases r) (simp_all add: expect_def)

lemma expect_Inr [simp]: "expect (Inr x) = Some x"
  by simp

definition client_resource_policy ::
  "('t, 'b, 'w, 'en) settings \<Rightarrow> ('p, 't, 'f, 'b, 'en) cli \<Rightarrow> ('w \<times> 'w) option" where
  "client_resource_policy S c =
     Option.bind (expect (queue_capacity_new S (client_dispatch_queue_capacity c))) (\<lambda>q.
     Option.bind (expect (frame_max_try_from S (client_frame_max c))) (\<lambda>f. Some (q, f)))"

section \<open>Consumer options\<close>

definition effective_consumer_leave_group_timeout ::
  "('t, 'f, 'b) units \<Rightarrow> ('t, 'b, 'w, 'en) settings \<Rightarrow> ('p, 't, 'f, 'b, 'en) cli \<Rightarrow> io_error + 'w" where
  "effective_consumer_leave_group_timeout U S c =
     (case (if role c \<noteq> Consume then consumer_leave_group_timeout c else None) of
        Some timeout \<Rightarrow> Inl (only_valid_with ''--consumer-leave-group-timeout'' (time_human U timeout) Consume)
      | None \<Rightarrow> or_default (leave_group_timeout_default S) (\<lambda>t. leave_group_timeout_new S (to_std U t))
          (consumer_leave_group_timeout c))"

definition effective_consumer_subscription_metadata_refresh_interval ::
  "('t, 'f, 'b) units \<Rightarrow> ('t, 'b, 'w, 'en) settings \<Rightarrow> ('p, 't, 'f, 'b, 'en) cli \<Rightarrow> io_error + 'w" where
  "effective_consumer_subscription_metadata_refresh_interval U S c =
     (case (if role c \<noteq> Consume then consumer_subscription_metadata_refresh_interval c else None) of
        Some interval \<Rightarrow> Inl (only_valid_with ''--consumer-subscription-metadata-refresh-interval''
          (time_human U interval) Consume)
      | None \<Rightarrow> or_default (metadata_refresh_default S) (\<lambda>t. metadata_refresh_new S (to_std U t))
          (consumer_subscription_metadata_refresh_interval c))"

definition retry_options :: "('p, 't, 'f, 'b, 'en) cli \<Rightarrow> (string \<times> 't option) list" where
  "retry_options c =
     [(''--consumer-startup-attempt-timeout'', consumer_startup_attempt_timeout c),
      (''--consumer-startup-deadline'', consumer_startup_deadline c),
      (''--consumer-startup-initial-backoff'', consumer_startup_initial_backoff c),
      (''--consumer-startup-max-backoff'', consumer_startup_max_backoff c),
      (''--consumer-coordinator-retry-timeout'', consumer_coordinator_retry_timeout c),
      (''--consumer-coordinator-initial-backoff'', consumer_coordinator_initial_backoff c),
      (''--consumer-coordinator-max-backoff'', consumer_coordinator_max_backoff c)]"

definition effective_consumer_retry_policy ::
  "('t, 'f, 'b) units \<Rightarrow> ('t, 'b, 'w, 'en) settings \<Rightarrow> ('p, 't, 'f, 'b, 'en) cli \<Rightarrow> io_error + 'w" where
  "effective_consumer_retry_policy U S c =
     (case (if role c \<noteq> Consume then first_set (retry_options c) else None) of
        Some (name, v) \<Rightarrow> Inl (only_valid_with name (time_human U v) Consume)
      | None \<Rightarrow>
          let d = retry_policy_default S in
          invalid (retry_policy_new S
            (unwrap_or (startup_attempt_timeout S d) (consumer_startup_attempt_timeout c))
            (unwrap_or (startup_deadline S d) (consumer_startup_deadline c))
            (unwrap_or (startup_initial_backoff S d) (consumer_startup_initial_backoff c))
            (unwrap_or (startup_max_backoff S d) (consumer_startup_max_backoff c))
            (unwrap_or (coordinator_retry_timeout S d) (consumer_coordinator_retry_timeout c))
            (unwrap_or (coordinator_initial_backoff S d) (consumer_coordinator_initial_backoff c))
            (unwrap_or (coordinator_max_backoff S d) (consumer_coordinator_max_backoff c))))"

definition fetch_options :: "('p, 't, 'f, 'b, 'en) cli \<Rightarrow> (string \<times> 'b option) list" where
  "fetch_options c =
     [(''--consumer-fetch-min'', consumer_fetch_min c),
      (''--consumer-fetch-max'', consumer_fetch_max c),
      (''--consumer-fetch-partition-max'', consumer_fetch_partition_max c)]"

definition effective_consumer_fetch_policy ::
  "('t, 'f, 'b) units \<Rightarrow> ('t, 'b, 'w, 'en) settings \<Rightarrow> ('p, 't, 'f, 'b, 'en) cli \<Rightarrow>
   io_error + 'b \<times> 'b \<times> 'b" where
  "effective_consumer_fetch_policy U S c =
     (case (if role c \<noteq> Consume then first_set (fetch_options c) else None) of
        Some (name, v) \<Rightarrow> Inl (only_valid_with name (size_human U v) Consume)
      | None \<Rightarrow>
          bind_res (invalid (fetch_min_try_from S (unwrap_or (bytes_of U 1) (consumer_fetch_min c)))) (\<lambda>mn.
          bind_res (invalid (fetch_max_try_from S (unwrap_or (mebibytes U 50) (consumer_fetch_max c)))) (\<lambda>mx.
          if bytes_i32 U (fetch_max_size S mx) < bytes_i32 U (fetch_min_size S mn) then
            Inl (InvalidInput ''consumer fetch min must not exceed consumer fetch max'')
          else
          bind_res (invalid (partition_max_try_from S
            (unwrap_or (mebibytes U 1) (consumer_fetch_partition_max c)))) (\<lambda>pm.
          Inr (fetch_min_size S mn, fetch_max_size S mx, partition_max_size S pm)))))"

definition timing_options :: "('p, 't, 'f, 'b, 'en) cli \<Rightarrow> (string \<times> 't option) list" where
  "timing_options c =
     [(''--consumer-session-timeout'', consumer_session_timeout c),
      (''--consumer-rebalance-timeout'', consumer_rebalance_timeout c),
      (''--consumer-heartbeat-interval'', consumer_heartbeat_interval c),
      (''--consumer-request-timeout'', consumer_request_timeout c)]"

definition effective_consumer_timing ::
  "('t, 'f, 'b) units \<Rightarrow> ('p, 't, 'f, 'b, 'en) cli \<Rightarrow> io_error + 't \<times> 't \<times> 't \<times> 't" where
  "effective_consumer_timing U c =
     (case (if role c \<noteq> Consume then first_set (timing_options c) else None) of
        Some (name, v) \<Rightarrow> Inl (only_valid_with name (time_human U v) Consume)
      | None \<Rightarrow> Inr
          (unwrap_or (secs U 45) (consumer_session_timeout c),
           unwrap_or (minutes U 1) (consumer_rebalance_timeout c),
           unwrap_or (secs U 3) (consumer_heartbeat_interval c),
           unwrap_or (secs U 30) (consumer_request_timeout c)))"

definition behavior_options :: "('p, 't, 'f, 'b, 'en) cli \<Rightarrow> (string \<times> bool) list" where
  "behavior_options c =
     [(''--consumer-auto-offset-reset'', consumer_auto_offset_reset c \<noteq> None),
      (''--consumer-isolation-level'', consumer_isolation_level c \<noteq> None),
      (''--consumer-assignor'', consumer_assignor c \<noteq> None)]"

definition effective_consumer_behavior ::
  "('t, 'b, 'w, 'en) settings \<Rightarrow> ('p, 't, 'f, 'b, 'en) cli \<Rightarrow> io_error + 'en \<times> 'en \<times> 'en" where
  "effective_consumer_behavior S c =
     (case (if role c \<noteq> Consume then List.find snd (behavior_options c) else None) of
        Some (name, _) \<Rightarrow> Inl (InvalidInput (name @ '' is only valid with --role consume''))
      | None \<Rightarrow> Inr
          (unwrap_or (offset_reset_latest S) (consumer_auto_offset_reset c),
           unwrap_or (isolation_read_uncommitted S) (consumer_isolation_level c),
           unwrap_or (assignor_range S) (consumer_assignor c)))"

section \<open>Streams options\<close>

definition effective_streams_broker_dns_timeout ::
  "('t, 'f, 'b) units \<Rightarrow> ('t, 'b, 'w, 'en) settings \<Rightarrow> ('p, 't, 'f, 'b, 'en) cli \<Rightarrow> io_error + 'w" where
  "effective_streams_broker_dns_timeout U S c =
     (case (if role c \<noteq> Stream then streams_broker_dns_timeout c else None) of
        Some v \<Rightarrow> Inl (only_valid_with ''--streams-broker-dns-timeout'' (time_human U v) Stream)
      | None \<Rightarrow> or_default (dns_timeout_default S) (dns_timeout_new S) (streams_broker_dns_timeout c))"

definition effective_streams_runtime_cadence ::
  "('t, 'f, 'b) units \<Rightarrow> ('t, 'b, 'w, 'en) settings \<Rightarrow> ('p, 't, 'f, 'b, 'en) cli \<Rightarrow>
   io_error + 'w \<times> 'w" where
  "effective_streams_runtime_cadence U S c =
     (case (if role c \<noteq> Stream then streams_poll_interval c else None) of
        Some v \<Rightarrow> Inl (only_valid_with ''--streams-poll-interval'' (time_human U v) Stream)
      | None \<Rightarrow>
     (case (if role c \<noteq> Stream then streams_commit_interval c else None) of
        Some v \<Rightarrow> Inl (only_valid_with ''--streams-commit-interval'' (time_human U v) Stream)
      | None \<Rightarrow>
          bind_res (or_default (poll_interval_default S) (\<lambda>t. poll_interval_new S (to_std U t))
            (streams_poll_interval c)) (\<lambda>poll.
          bind_res (or_default (commit_interval_default S) (\<lambda>t. commit_interval_new S (to_std U t))
            (streams_commit_interval c)) (\<lambda>commit.
          Inr (poll, commit)))))"

definition effective_streams_rebalance_timeout ::
  "('t, 'f, 'b) units \<Rightarrow> ('t, 'b, 'w, 'en) settings \<Rightarrow> ('p, 't, 'f, 'b, 'en) cli \<Rightarrow> io_error + 'w" where
  "effective_streams_rebalance_timeout U S c =
     (case (if role c \<noteq> Stream then streams_rebalance_timeout c else None) of
        Some v \<Rightarrow> Inl (only_valid_with ''--streams-rebalance-timeout'' (time_human U v) Stream)
      | None \<Rightarrow> or_default (rebalance_timeout_default S) (\<lambda>t. rebalance_timeout_new S (to_std U t)) (streams_rebalance_timeout c))"

definition effective_streams_leave_heartbeat_timeout ::
  "('t, 'f, 'b) units \<Rightarrow> ('t, 'b, 'w, 'en) settings \<Rightarrow> ('p, 't, 'f, 'b, 'en) cli \<Rightarrow> io_error + 'w" where
  "effective_streams_leave_heartbeat_timeout U S c =
     (case (if role c \<noteq> Stream then streams_leave_heartbeat_timeout c else None) of
        Some v \<Rightarrow> Inl (only_valid_with ''--streams-leave-heartbeat-timeout'' (time_human U v) Stream)
      | None \<Rightarrow> or_default (leave_heartbeat_default S) (\<lambda>t. leave_heartbeat_new S (to_std U t)) (streams_leave_heartbeat_timeout c))"

definition effective_streams_join_retry_backoff ::
  "('t, 'f, 'b) units \<Rightarrow> ('t, 'b, 'w, 'en) settings \<Rightarrow> ('p, 't, 'f, 'b, 'en) cli \<Rightarrow> io_error + 'w" where
  "effective_streams_join_retry_backoff U S c =
     (case (if role c \<noteq> Stream then streams_join_retry_backoff c else None) of
        Some v \<Rightarrow> Inl (only_valid_with ''--streams-join-retry-backoff'' (time_human U v) Stream)
      | None \<Rightarrow> or_default (join_retry_default S) (\<lambda>t. join_retry_new S (to_std U t)) (streams_join_retry_backoff c))"

definition effective_streams_interactive_query_queue_capacity ::
  "('t, 'b, 'w, 'en) settings \<Rightarrow> ('p, 't, 'f, 'b, 'en) cli \<Rightarrow> io_error + 'w" where
  "effective_streams_interactive_query_queue_capacity S c =
     (case (if role c \<noteq> Stream then streams_interactive_query_queue_capacity c else None) of
        Some v \<Rightarrow> Inl (only_valid_with ''--streams-interactive-query-queue-capacity'' (show_nat v) Stream)
      | None \<Rightarrow> or_default (query_queue_default S) (query_queue_new S) (streams_interactive_query_queue_capacity c))"

definition effective_streams_state_store_cache_max_bytes ::
  "('t, 'f, 'b) units \<Rightarrow> ('t, 'b, 'w, 'en) settings \<Rightarrow> ('p, 't, 'f, 'b, 'en) cli \<Rightarrow> io_error + 'w" where
  "effective_streams_state_store_cache_max_bytes U S c =
     (case (if role c \<noteq> Stream then streams_state_store_cache_max c else None) of
        Some v \<Rightarrow> Inl (only_valid_with ''--streams-state-store-cache-max'' (size_human U v) Stream)
      | None \<Rightarrow> or_default (cache_max_default S) (cache_max_new S) (streams_state_store_cache_max c))"

text \<open>The minimum was validated by the value parser; \<open>expect\<close> panics otherwise.\<close>

definition effective_streams_fetch_min ::
  "('t, 'f, 'b) units \<Rightarrow> ('t, 'b, 'w, 'en) settings \<Rightarrow> ('p, 't, 'f, 'b, 'en) cli \<Rightarrow>
   (io_error + 'w) option" where
  "effective_streams_fetch_min U S c =
     (case (if role c \<noteq> Stream then streams_fetch_min c else None) of
        Some v \<Rightarrow> Some (Inl (only_valid_with ''--streams-fetch-min'' (size_human U v) Stream))
      | None \<Rightarrow>
         (case streams_fetch_min c of
            None \<Rightarrow> Some (Inr (fetch_min_default S))
          | Some v \<Rightarrow> map_option Inr (expect (fetch_min_try_from S v))))"

definition schema_fetch_retry_policy ::
  "('t, 'b, 'w, 'en) settings \<Rightarrow> ('p, 't, 'f, 'b, 'en) cli \<Rightarrow> io_error + 'w" where
  "schema_fetch_retry_policy S c =
     (let d = schema_retry_default S in
      invalid (schema_retry_new S
        (unwrap_or (schema_initial_backoff S d) (schema_fetch_retry_initial_backoff c))
        (unwrap_or (schema_max_backoff S d) (schema_fetch_retry_max_backoff c))))"

section \<open>Runtime bundles\<close>

record 'w StreamRuntime =
  sr_schema_fetch_retry_policy :: 'w
  sr_broker_dns_timeout :: 'w
  sr_poll_interval :: 'w
  sr_commit_interval :: 'w
  sr_rebalance_timeout :: 'w
  sr_leave_heartbeat_timeout :: 'w
  sr_join_retry_backoff :: 'w
  sr_query_queue_capacity :: 'w
  sr_state_store_cache_max_bytes :: 'w
  sr_dispatch_queue_capacity :: 'w
  sr_frame_max :: 'w
  sr_fetch_min :: 'w

record ('t, 'b, 'w, 'en) ConsumerRuntime =
  cr_schema_fetch_retry_policy :: 'w
  cr_leave_group_timeout :: 'w
  cr_metadata_refresh_interval :: 'w
  cr_retry_policy :: 'w
  cr_fetch_min :: 'b
  cr_fetch_max :: 'b
  cr_fetch_partition_max :: 'b
  cr_session_timeout :: 't
  cr_rebalance_timeout :: 't
  cr_heartbeat_interval :: 't
  cr_request_timeout :: 't
  cr_auto_offset_reset :: 'en
  cr_isolation_level :: 'en
  cr_assignor :: 'en
  cr_dispatch_queue_capacity :: 'w
  cr_frame_max :: 'w

definition stream_runtime ::
  "('t, 'f, 'b) units \<Rightarrow> ('t, 'b, 'w, 'en) settings \<Rightarrow> ('p, 't, 'f, 'b, 'en) cli \<Rightarrow>
   (io_error + 'w StreamRuntime) option" where
  "stream_runtime U S c =
     Option.bind (client_resource_policy S c) (\<lambda>(queue_capacity, frame_max).
     try_res (Some (effective_streams_runtime_cadence U S c)) (\<lambda>(poll, commit).
     try_res (Some (schema_fetch_retry_policy S c)) (\<lambda>schema.
     try_res (Some (effective_streams_broker_dns_timeout U S c)) (\<lambda>dns.
     try_res (Some (effective_streams_rebalance_timeout U S c)) (\<lambda>rebalance.
     try_res (Some (effective_streams_leave_heartbeat_timeout U S c)) (\<lambda>leave.
     try_res (Some (effective_streams_join_retry_backoff U S c)) (\<lambda>backoff.
     try_res (Some (effective_streams_interactive_query_queue_capacity S c)) (\<lambda>query.
     try_res (Some (effective_streams_state_store_cache_max_bytes U S c)) (\<lambda>cache.
     try_res (effective_streams_fetch_min U S c) (\<lambda>fetch.
     Some (Inr \<lparr>sr_schema_fetch_retry_policy = schema, sr_broker_dns_timeout = dns,
       sr_poll_interval = poll, sr_commit_interval = commit, sr_rebalance_timeout = rebalance,
       sr_leave_heartbeat_timeout = leave, sr_join_retry_backoff = backoff,
       sr_query_queue_capacity = query, sr_state_store_cache_max_bytes = cache,
       sr_dispatch_queue_capacity = queue_capacity, sr_frame_max = frame_max,
       sr_fetch_min = fetch\<rparr>)))))))))))"

definition consumer_runtime ::
  "('t, 'f, 'b) units \<Rightarrow> ('t, 'b, 'w, 'en) settings \<Rightarrow> ('p, 't, 'f, 'b, 'en) cli \<Rightarrow>
   (io_error + ('t, 'b, 'w, 'en) ConsumerRuntime) option" where
  "consumer_runtime U S c =
     Option.bind (client_resource_policy S c) (\<lambda>(queue_capacity, frame_max).
     Some (
     bind_res (effective_consumer_fetch_policy U S c) (\<lambda>(fmin, fmax, fpart).
     bind_res (effective_consumer_timing U c) (\<lambda>(session, rebalance, heartbeat, request).
     bind_res (effective_consumer_behavior S c) (\<lambda>(reset, isolation, assign).
     bind_res (schema_fetch_retry_policy S c) (\<lambda>schema.
     bind_res (effective_consumer_leave_group_timeout U S c) (\<lambda>leave.
     bind_res (effective_consumer_subscription_metadata_refresh_interval U S c) (\<lambda>refresh.
     bind_res (effective_consumer_retry_policy U S c) (\<lambda>retry.
     Inr \<lparr>cr_schema_fetch_retry_policy = schema, cr_leave_group_timeout = leave,
       cr_metadata_refresh_interval = refresh, cr_retry_policy = retry,
       cr_fetch_min = fmin, cr_fetch_max = fmax, cr_fetch_partition_max = fpart,
       cr_session_timeout = session, cr_rebalance_timeout = rebalance,
       cr_heartbeat_interval = heartbeat, cr_request_timeout = request,
       cr_auto_offset_reset = reset, cr_isolation_level = isolation, cr_assignor = assign,
       cr_dispatch_queue_capacity = queue_capacity, cr_frame_max = frame_max\<rparr>)))))))))"

text \<open>The configuration part of \<open>main\<close>, in its order.\<close>

definition configure ::
  "('t, 'f, 'b) units \<Rightarrow> ('t, 'b, 'w, 'en) settings \<Rightarrow> ('p, 't, 'f, 'b, 'en) cli \<Rightarrow>
   (io_error + ('w \<times> 'w) \<times> 'w \<times> 'w StreamRuntime \<times> ('t, 'b, 'w, 'en) ConsumerRuntime) option" where
  "configure U S c =
     Option.bind (client_resource_policy S c) (\<lambda>limits.
     try_res (Some (schema_fetch_retry_policy S c)) (\<lambda>schema.
     try_res (stream_runtime U S c) (\<lambda>sr.
     try_res (consumer_runtime U S c) (\<lambda>cr.
     Some (Inr (limits, schema, sr, cr))))))"

end
