(* ===== verification/Config_Spec.thy ===== *)
theory Config_Spec
  imports Config
begin

text \<open>
  What the configuration promises: an option of another role is always refused, and refused by
  name; settings that are not given are the libraries' defaults; the fetch limits are ordered; and
  the \<open>expect\<close> calls cannot panic on a command line the value parsers produced. The role gate is an
  interface every \<open>effective_*\<close> function implements.
\<close>

section \<open>The role gate\<close>

locale role_gated =
  fixes eff :: "'c \<Rightarrow> (io_error + 'a) option"
    and role_of :: "'c \<Rightarrow> role"
    and own :: role
    and given :: "'c \<Rightarrow> bool"
  assumes rejects: "role_of c \<noteq> own \<Longrightarrow> given c \<Longrightarrow> \<exists>msg. eff c = Some (Inl (InvalidInput msg))"
begin

lemma accepted_own: "eff c = Some (Inr x) \<Longrightarrow> role_of c \<noteq> own \<Longrightarrow> \<not> given c"
  using rejects [of c] by auto

end

definition some_set :: "(string \<times> 'a option) list \<Rightarrow> bool" where
  "some_set xs \<longleftrightarrow> (\<exists>x \<in> set xs. snd x \<noteq> None)"

lemma some_set_first: "some_set xs \<Longrightarrow> \<exists>n v. first_set xs = Some (n, v)"
  using first_set_None [of xs] by (cases "first_set xs") (auto simp: some_set_def)

lemma find_snd: "\<exists>x \<in> set xs. snd x \<Longrightarrow> \<exists>n b. List.find snd xs = Some (n, b)"
  by (induction xs) auto

lemmas consumer_option_defs =
  effective_consumer_leave_group_timeout_def
  effective_consumer_subscription_metadata_refresh_interval_def
  effective_consumer_retry_policy_def effective_consumer_fetch_policy_def
  effective_consumer_timing_def effective_consumer_behavior_def

lemmas stream_option_defs =
  effective_streams_broker_dns_timeout_def effective_streams_runtime_cadence_def
  effective_streams_rebalance_timeout_def effective_streams_leave_heartbeat_timeout_def
  effective_streams_join_retry_backoff_def effective_streams_interactive_query_queue_capacity_def
  effective_streams_state_store_cache_max_bytes_def effective_streams_fetch_min_def

interpretation leave_gate: role_gated "\<lambda>c. Some (effective_consumer_leave_group_timeout U S c)" role Consume
    "\<lambda>c. consumer_leave_group_timeout c \<noteq> None" for U S
  by unfold_locales (auto simp: consumer_option_defs only_valid_with_def dest!: some_set_first find_snd)

interpretation refresh_gate: role_gated "\<lambda>c. Some (effective_consumer_subscription_metadata_refresh_interval U S c)" role Consume
    "\<lambda>c. consumer_subscription_metadata_refresh_interval c \<noteq> None" for U S
  by unfold_locales (auto simp: consumer_option_defs only_valid_with_def dest!: some_set_first find_snd)

interpretation retry_gate: role_gated "\<lambda>c. Some (effective_consumer_retry_policy U S c)" role Consume
    "\<lambda>c. some_set (retry_options c)" for U S
  by unfold_locales (auto simp: consumer_option_defs only_valid_with_def dest!: some_set_first find_snd)

interpretation fetch_gate: role_gated "\<lambda>c. Some (effective_consumer_fetch_policy U S c)" role Consume
    "\<lambda>c. some_set (fetch_options c)" for U S
  by unfold_locales (auto simp: consumer_option_defs only_valid_with_def dest!: some_set_first find_snd)

interpretation timing_gate: role_gated "\<lambda>c. Some (effective_consumer_timing U c)" role Consume
    "\<lambda>c. some_set (timing_options c)" for U
  by unfold_locales (auto simp: consumer_option_defs only_valid_with_def dest!: some_set_first find_snd)

interpretation behavior_gate: role_gated "\<lambda>c. Some (effective_consumer_behavior S c)" role Consume
    "\<lambda>c. \<exists>x \<in> set (behavior_options c). snd x" for S
  by unfold_locales (auto simp: consumer_option_defs only_valid_with_def dest!: some_set_first find_snd)

interpretation dns_gate: role_gated "\<lambda>c. Some (effective_streams_broker_dns_timeout U S c)" role Stream
    "\<lambda>c. streams_broker_dns_timeout c \<noteq> None" for U S
  by unfold_locales (auto simp: stream_option_defs only_valid_with_def split: option.split)

interpretation cadence_gate: role_gated "\<lambda>c. Some (effective_streams_runtime_cadence U S c)" role Stream
    "\<lambda>c. streams_poll_interval c \<noteq> None \<or> streams_commit_interval c \<noteq> None" for U S
  by unfold_locales (auto simp: stream_option_defs only_valid_with_def split: option.split)

interpretation rebalance_gate: role_gated "\<lambda>c. Some (effective_streams_rebalance_timeout U S c)" role Stream
    "\<lambda>c. streams_rebalance_timeout c \<noteq> None" for U S
  by unfold_locales (auto simp: stream_option_defs only_valid_with_def split: option.split)

interpretation heartbeat_gate: role_gated "\<lambda>c. Some (effective_streams_leave_heartbeat_timeout U S c)" role Stream
    "\<lambda>c. streams_leave_heartbeat_timeout c \<noteq> None" for U S
  by unfold_locales (auto simp: stream_option_defs only_valid_with_def split: option.split)

interpretation join_gate: role_gated "\<lambda>c. Some (effective_streams_join_retry_backoff U S c)" role Stream
    "\<lambda>c. streams_join_retry_backoff c \<noteq> None" for U S
  by unfold_locales (auto simp: stream_option_defs only_valid_with_def split: option.split)

interpretation query_gate: role_gated "\<lambda>c. Some (effective_streams_interactive_query_queue_capacity S c)" role Stream
    "\<lambda>c. streams_interactive_query_queue_capacity c \<noteq> None" for S
  by unfold_locales (auto simp: stream_option_defs only_valid_with_def split: option.split)

interpretation cache_gate: role_gated "\<lambda>c. Some (effective_streams_state_store_cache_max_bytes U S c)" role Stream
    "\<lambda>c. streams_state_store_cache_max c \<noteq> None" for U S
  by unfold_locales (auto simp: stream_option_defs only_valid_with_def split: option.split)

interpretation fetch_min_gate: role_gated "effective_streams_fetch_min U S" role Stream
    "\<lambda>c. streams_fetch_min c \<noteq> None" for U S
  by unfold_locales (auto simp: stream_option_defs only_valid_with_def)

section \<open>A successful configuration\<close>

text \<open>
  The nineteen consumer options and the nine streams options, field by field: the specification says
  by itself which options belong to which role.
\<close>

definition no_consumer_option :: "('p, 't, 'f, 'b, 'en) cli \<Rightarrow> bool" where
  "no_consumer_option c \<longleftrightarrow>
     consumer_leave_group_timeout c = None \<and> consumer_subscription_metadata_refresh_interval c = None \<and>
     consumer_startup_attempt_timeout c = None \<and> consumer_startup_deadline c = None \<and>
     consumer_startup_initial_backoff c = None \<and> consumer_startup_max_backoff c = None \<and>
     consumer_coordinator_retry_timeout c = None \<and> consumer_coordinator_initial_backoff c = None \<and>
     consumer_coordinator_max_backoff c = None \<and> consumer_fetch_min c = None \<and>
     consumer_fetch_max c = None \<and> consumer_fetch_partition_max c = None \<and>
     consumer_session_timeout c = None \<and> consumer_rebalance_timeout c = None \<and>
     consumer_heartbeat_interval c = None \<and> consumer_request_timeout c = None \<and>
     consumer_auto_offset_reset c = None \<and> consumer_isolation_level c = None \<and>
     consumer_assignor c = None"

definition no_stream_option :: "('p, 't, 'f, 'b, 'en) cli \<Rightarrow> bool" where
  "no_stream_option c \<longleftrightarrow>
     streams_broker_dns_timeout c = None \<and> streams_poll_interval c = None \<and>
     streams_commit_interval c = None \<and> streams_rebalance_timeout c = None \<and>
     streams_leave_heartbeat_timeout c = None \<and> streams_join_retry_backoff c = None \<and>
     streams_interactive_query_queue_capacity c = None \<and>
     streams_state_store_cache_max c = None \<and> streams_fetch_min c = None"

lemma stream_runtime_ok:
  assumes "stream_runtime U S c = Some (Inr r)"
  shows "effective_streams_runtime_cadence U S c = Inr (sr_poll_interval r, sr_commit_interval r)"
    "effective_streams_broker_dns_timeout U S c = Inr (sr_broker_dns_timeout r)"
    "effective_streams_rebalance_timeout U S c = Inr (sr_rebalance_timeout r)"
    "effective_streams_leave_heartbeat_timeout U S c = Inr (sr_leave_heartbeat_timeout r)"
    "effective_streams_join_retry_backoff U S c = Inr (sr_join_retry_backoff r)"
    "effective_streams_interactive_query_queue_capacity S c = Inr (sr_query_queue_capacity r)"
    "effective_streams_state_store_cache_max_bytes U S c = Inr (sr_state_store_cache_max_bytes r)"
    "effective_streams_fetch_min U S c = Some (Inr (sr_fetch_min r))"
  using assms by (auto simp: stream_runtime_def bind_eq_Some_conv try_res_ok)

lemma consumer_runtime_ok:
  assumes "consumer_runtime U S c = Some (Inr r)"
  shows "effective_consumer_fetch_policy U S c = Inr (cr_fetch_min r, cr_fetch_max r, cr_fetch_partition_max r)"
    "effective_consumer_timing U c = Inr (cr_session_timeout r, cr_rebalance_timeout r,
       cr_heartbeat_interval r, cr_request_timeout r)"
    "effective_consumer_behavior S c = Inr (cr_auto_offset_reset r, cr_isolation_level r, cr_assignor r)"
    "effective_consumer_leave_group_timeout U S c = Inr (cr_leave_group_timeout r)"
    "effective_consumer_subscription_metadata_refresh_interval U S c = Inr (cr_metadata_refresh_interval r)"
    "effective_consumer_retry_policy U S c = Inr (cr_retry_policy r)"
  using assms by (auto simp: consumer_runtime_def bind_eq_Some_conv)

lemma stream_runtime_gate:
  assumes "stream_runtime U S c = Some (Inr r)" and "role c \<noteq> Stream"
  shows "no_stream_option c"
  using stream_runtime_ok [OF assms(1)] assms(2)
    dns_gate.accepted_own [of U S c] cadence_gate.accepted_own [of U S c]
    rebalance_gate.accepted_own [of U S c] heartbeat_gate.accepted_own [of U S c]
    join_gate.accepted_own [of U S c] query_gate.accepted_own [of S c]
    cache_gate.accepted_own [of U S c] fetch_min_gate.accepted_own [of U S c]
  unfolding no_stream_option_def by auto

lemma consumer_runtime_gate:
  assumes "consumer_runtime U S c = Some (Inr r)" and "role c \<noteq> Consume"
  shows "no_consumer_option c"
  using consumer_runtime_ok [OF assms(1)] assms(2)
    leave_gate.accepted_own [of U S c] refresh_gate.accepted_own [of U S c]
    retry_gate.accepted_own [of U S c] fetch_gate.accepted_own [of U S c]
    timing_gate.accepted_own [of U c] behavior_gate.accepted_own [of S c]
  by (auto simp: no_consumer_option_def some_set_def retry_options_def fetch_options_def
      timing_options_def behavior_options_def)

lemma configure_ok:
  "configure U S c = Some (Inr (limits, schema, sr, cr)) \<longleftrightarrow>
   client_resource_policy S c = Some limits \<and> schema_fetch_retry_policy S c = Inr schema \<and>
   stream_runtime U S c = Some (Inr sr) \<and> consumer_runtime U S c = Some (Inr cr)"
  by (cases limits) (auto simp: configure_def bind_eq_Some_conv try_res_ok)

section \<open>An instance of the libraries\<close>

text \<open>
  For the examples: times are nanoseconds, sizes bytes, frequencies hertz, and a setting is accepted
  when it is positive and fits 31 bits.
\<close>

definition demo_units :: "(nat, nat, nat) units" where
  "demo_units =
     \<lparr>time_human = (\<lambda>t. show_nat t @ ''ns''), size_human = (\<lambda>b. show_nat b @ ''B''),
      to_std = (\<lambda>t. t), from_std = (\<lambda>d. d), secs_f64 = as_secs_f64, time_zero = 0, time_less = (<),
      freq_zero = 0, freq_less = (<), freq_eq = (=), freq_recip = (\<lambda>f. 10 ^ 9 div f),
      secs = (\<lambda>n. n * 10 ^ 9), minutes = (\<lambda>n. n * 60 * 10 ^ 9), bytes_of = (\<lambda>n. n),
      mebibytes = (\<lambda>n. n * 2 ^ 20), bytes_i32 = int,
      parse_time = (\<lambda>s. map_err int_error_text (parse_unsigned s)),
      parse_frequency = (\<lambda>s. map_err int_error_text (parse_unsigned s)),
      parse_positive_byte_size = (\<lambda>s. map_err int_error_text (parse_nonzero_usize s))\<rparr>"

definition demo_new :: "nat \<Rightarrow> string + nat list" where
  "demo_new v = (if 0 < v \<and> v < 2 ^ 31 then Inr [v] else Inl ''out of range'')"

definition demo_settings :: "(nat, nat, nat list, string) settings" where
  "demo_settings =
     \<lparr>queue_capacity_new = demo_new, queue_capacity_get = hd, frame_max_try_from = demo_new,
      frame_max_size = hd, fetch_min_try_from = demo_new, fetch_min_size = hd, fetch_min_default = [1],
      fetch_max_try_from = demo_new, fetch_max_size = hd, partition_max_try_from = demo_new,
      partition_max_size = hd, leave_group_timeout_new = demo_new, leave_group_timeout_default = [5000],
      metadata_refresh_new = demo_new, metadata_refresh_default = [5000],
      retry_policy_new = (\<lambda>a b c d e f g. if c \<le> d \<and> f \<le> g then Inr [a, b, c, d, e, f, g] else Inl ''backoff''),
      retry_policy_default = [1, 2, 3, 4, 5, 6, 7],
      startup_attempt_timeout = (\<lambda>w. w ! 0), startup_deadline = (\<lambda>w. w ! 1),
      startup_initial_backoff = (\<lambda>w. w ! 2), startup_max_backoff = (\<lambda>w. w ! 3),
      coordinator_retry_timeout = (\<lambda>w. w ! 4), coordinator_initial_backoff = (\<lambda>w. w ! 5),
      coordinator_max_backoff = (\<lambda>w. w ! 6),
      dns_timeout_new = demo_new, dns_timeout_default = [30], poll_interval_new = demo_new,
      poll_interval_default = [100], commit_interval_new = demo_new, commit_interval_default = [30000],
      rebalance_timeout_new = demo_new, rebalance_timeout_default = [60000], leave_heartbeat_new = demo_new,
      leave_heartbeat_default = [5], join_retry_new = demo_new, join_retry_default = [100],
      query_queue_new = demo_new, query_queue_default = [64], cache_max_new = demo_new,
      cache_max_default = [10485760],
      schema_retry_new = (\<lambda>a b. if a \<le> b then Inr [a, b] else Inl ''backoff''),
      schema_retry_default = [10, 1000], schema_initial_backoff = (\<lambda>w. w ! 0),
      schema_max_backoff = (\<lambda>w. w ! 1), offset_reset_latest = ''latest'',
      isolation_read_uncommitted = ''read_uncommitted'', assignor_range = ''range''\<rparr>"

definition demo_cli :: "role \<Rightarrow> (unit, nat, nat, nat, string) cli" where
  "demo_cli r =
     \<lparr>profiling = (), role = r, bootstrap = ''127.0.0.1:9092'', client_dispatch_queue_capacity =
      64, client_frame_max = 104857600, registry_url = ''http://127.0.0.1:8081'',
      schema_fetch_retry_initial_backoff = None, schema_fetch_retry_max_backoff = None,
      input_topic = ''orders'', output_topic = ''order-counts'', streams_application_id =
      ''orders-analytics'', consumer_group_id = ''orders-processor'', orders_per_sec = 50,
      producer_max_in_flight = 1, consumer_poll_timeout = 500000000, validate_work = 150000,
      enrich_work = 400000, fraud_check_work = 200000, fulfill_work = 300000,
      slow_order_fraction = f64_lit (2 / 100), consumer_leave_group_timeout = None,
      consumer_subscription_metadata_refresh_interval = None, consumer_startup_attempt_timeout =
      None, consumer_startup_deadline = None, consumer_startup_initial_backoff = None,
      consumer_startup_max_backoff = None, consumer_coordinator_retry_timeout = None,
      consumer_coordinator_initial_backoff = None, consumer_coordinator_max_backoff = None,
      consumer_fetch_min = None, consumer_fetch_max = None, consumer_fetch_partition_max = None,
      consumer_session_timeout = None, consumer_rebalance_timeout = None,
      consumer_heartbeat_interval = None, consumer_request_timeout = None,
      consumer_auto_offset_reset = None, consumer_isolation_level = None, consumer_assignor =
      None, streams_broker_dns_timeout = None, streams_poll_interval = None,
      streams_commit_interval = None, streams_rebalance_timeout = None,
      streams_leave_heartbeat_timeout = None, streams_join_retry_backoff = None,
      streams_interactive_query_queue_capacity = None, streams_state_store_cache_max = None,
      streams_fetch_min = None\<rparr>"

lemma configure_defaults_aux:
  assumes "no_consumer_option c" and "no_stream_option c"
    and "client_resource_policy S c = Some (q, f)" and "schema_fetch_retry_policy S c = Inr schema"
    and "retry_policy_new S (startup_attempt_timeout S d) (startup_deadline S d)
      (startup_initial_backoff S d) (startup_max_backoff S d) (coordinator_retry_timeout S d)
      (coordinator_initial_backoff S d) (coordinator_max_backoff S d) = Inr d"
    and "d = retry_policy_default S"
    and "fetch_min_try_from S (bytes_of U 1) = Inr mn"
    and "fetch_max_try_from S (mebibytes U 50) = Inr mx"
    and "partition_max_try_from S (mebibytes U 1) = Inr pm"
    and "bytes_i32 U (fetch_min_size S mn) \<le> bytes_i32 U (fetch_max_size S mx)"
  shows "stream_runtime U S c = Some (Inr
      \<lparr>sr_schema_fetch_retry_policy = schema, sr_broker_dns_timeout = dns_timeout_default S,
       sr_poll_interval = poll_interval_default S, sr_commit_interval = commit_interval_default S,
       sr_rebalance_timeout = rebalance_timeout_default S,
       sr_leave_heartbeat_timeout = leave_heartbeat_default S,
       sr_join_retry_backoff = join_retry_default S, sr_query_queue_capacity = query_queue_default S,
       sr_state_store_cache_max_bytes = cache_max_default S, sr_dispatch_queue_capacity = q,
       sr_frame_max = f, sr_fetch_min = fetch_min_default S\<rparr>)" (is ?S)
    and "consumer_runtime U S c = Some (Inr
      \<lparr>cr_schema_fetch_retry_policy = schema, cr_leave_group_timeout = leave_group_timeout_default S,
       cr_metadata_refresh_interval = metadata_refresh_default S, cr_retry_policy = d,
       cr_fetch_min = fetch_min_size S mn, cr_fetch_max = fetch_max_size S mx,
       cr_fetch_partition_max = partition_max_size S pm, cr_session_timeout = secs U 45,
       cr_rebalance_timeout = minutes U 1, cr_heartbeat_interval = secs U 3,
       cr_request_timeout = secs U 30, cr_auto_offset_reset = offset_reset_latest S,
       cr_isolation_level = isolation_read_uncommitted S, cr_assignor = assignor_range S,
       cr_dispatch_queue_capacity = q, cr_frame_max = f\<rparr>)" (is ?C)
proof -
  show ?S using assms(2-4)
    by (simp add: stream_runtime_def stream_option_defs no_stream_option_def)
  show ?C using assms
    by (simp add: consumer_runtime_def consumer_option_defs no_consumer_option_def retry_options_def
        fetch_options_def timing_options_def behavior_options_def Let_def)
qed

section \<open>No panic\<close>

definition revalidates :: "('v \<Rightarrow> string + 'w) \<Rightarrow> ('w \<Rightarrow> 'v) \<Rightarrow> bool" where
  "revalidates new get \<longleftrightarrow> (\<forall>v w. new v = Inr w \<longrightarrow> new (get w) = Inr w)"

lemma revalidatesD: "revalidates new get \<Longrightarrow> new v = Inr w \<Longrightarrow> new (get w) = Inr w"
  by (simp add: revalidates_def)

lemma client_resource_policy_parsed:
  assumes "revalidates (queue_capacity_new S) (queue_capacity_get S)"
    and "revalidates (frame_max_try_from S) (frame_max_size S)"
    and "parse_client_dispatch_queue_capacity S qs = Inr (client_dispatch_queue_capacity c)"
    and "parse_client_frame_max U S fs = Inr (client_frame_max c)"
  shows "client_resource_policy S c \<noteq> None"
proof -
  obtain v w where q: "queue_capacity_new S v = Inr w"
      "queue_capacity_get S w = client_dispatch_queue_capacity c"
    using assms(3) by (auto simp: parse_client_dispatch_queue_capacity_def)
  obtain u f where f: "frame_max_try_from S u = Inr f" "frame_max_size S f = client_frame_max c"
    using assms(4) by (auto simp: parse_client_frame_max_def)
  show ?thesis
    using revalidatesD [OF assms(1) q(1)] revalidatesD [OF assms(2) f(1)] q(2) f(2)
    by (simp add: client_resource_policy_def)
qed

lemma streams_fetch_min_parsed:
  assumes "revalidates (fetch_min_try_from S) (fetch_min_size S)"
    and "\<And>v. streams_fetch_min c = Some v \<Longrightarrow> \<exists>s. parse_fetch_min U S s = Inr v"
  shows "effective_streams_fetch_min U S c \<noteq> None"
proof (cases "streams_fetch_min c")
  case None
  then show ?thesis by (simp add: effective_streams_fetch_min_def)
next
  case (Some v)
  then obtain s where "parse_fetch_min U S s = Inr v" using assms(2) by blast
  then obtain u w where f: "fetch_min_try_from S u = Inr w" "fetch_min_size S w = v"
    by (auto simp: parse_fetch_min_def)
  then have "fetch_min_try_from S v = Inr w" using revalidatesD [OF assms(1) f(1)] by simp
  then show ?thesis using Some
    by (cases "role c = Stream") (simp_all add: effective_streams_fetch_min_def)
qed

lemma stream_runtime_panic:
  "stream_runtime U S c = None \<Longrightarrow>
   client_resource_policy S c = None \<or> effective_streams_fetch_min U S c = None"
  by (auto simp: stream_runtime_def bind_eq_None_conv try_res_None split: prod.splits)

lemma configured_options:
  assumes "configure U S c = Some (Inr cfg)"
  shows "(role c \<noteq> Consume \<longrightarrow> no_consumer_option c) \<and> (role c \<noteq> Stream \<longrightarrow> no_stream_option c)"
proof -
  obtain limits schema sr cr where "cfg = (limits, schema, sr, cr)" by (cases cfg) auto
  then have "stream_runtime U S c = Some (Inr sr)" "consumer_runtime U S c = Some (Inr cr)"
    using assms by (simp_all add: configure_ok)
  then show ?thesis using stream_runtime_gate consumer_runtime_gate by blast
qed

lemma configured_no_panic:
  assumes "revalidates (queue_capacity_new S) (queue_capacity_get S)"
    and "revalidates (frame_max_try_from S) (frame_max_size S)"
    and "revalidates (fetch_min_try_from S) (fetch_min_size S)"
    and "parse_client_dispatch_queue_capacity S qs = Inr (client_dispatch_queue_capacity c)"
    and "parse_client_frame_max U S fs = Inr (client_frame_max c)"
    and "\<And>v. streams_fetch_min c = Some v \<Longrightarrow> \<exists>s. parse_fetch_min U S s = Inr v"
  shows "configure U S c \<noteq> None"
proof -
  have l: "client_resource_policy S c \<noteq> None"
    using client_resource_policy_parsed [OF assms(1,2,4,5)] by blast
  have f: "effective_streams_fetch_min U S c \<noteq> None"
    by (rule streams_fetch_min_parsed [OF assms(3)]) (rule assms(6))
  have "stream_runtime U S c \<noteq> None"
    using stream_runtime_panic [of U S c] l f by (cases "stream_runtime U S c") simp_all
  moreover have "consumer_runtime U S c \<noteq> None"
    using l by (cases "client_resource_policy S c") (auto simp: consumer_runtime_def)
  ultimately show ?thesis using l
    by (cases "client_resource_policy S c") (auto simp: configure_def try_res_def split: sum.split)
qed

section \<open>Properties\<close>

text \<open>
  C9: the process does not start with an option of another role: a successful configuration of a
  role other than consume carries no consumer option, and of a role other than stream no streams
  option, whatever the libraries accept.
\<close>

theorem foreign_options_rejected:
  assumes "configure U S c = Some (Inr cfg)"
  shows "(role c \<noteq> Consume \<longrightarrow> no_consumer_option c) \<and> (role c \<noteq> Stream \<longrightarrow> no_stream_option c)"
  using assms by (rule configured_options)

text \<open>
  C34: without role options every role starts, with the documented values: the libraries' defaults
  for the validated settings, 1 B / 50 MiB / 1 MiB fetch limits, 45 s session, 1 min rebalance, 3 s
  heartbeat and 30 s request timeouts, latest offsets, read-uncommitted and the range assignor.
\<close>

theorem configure_defaults:
  assumes "no_consumer_option c" and "no_stream_option c"
    and "client_resource_policy S c = Some (q, f)" and "schema_fetch_retry_policy S c = Inr schema"
    and "retry_policy_new S (startup_attempt_timeout S d) (startup_deadline S d)
      (startup_initial_backoff S d) (startup_max_backoff S d) (coordinator_retry_timeout S d)
      (coordinator_initial_backoff S d) (coordinator_max_backoff S d) = Inr d"
    and "d = retry_policy_default S"
    and "fetch_min_try_from S (bytes_of U 1) = Inr mn"
    and "fetch_max_try_from S (mebibytes U 50) = Inr mx"
    and "partition_max_try_from S (mebibytes U 1) = Inr pm"
    and "bytes_i32 U (fetch_min_size S mn) \<le> bytes_i32 U (fetch_max_size S mx)"
  shows "configure U S c = Some (Inr ((q, f), schema,
      \<lparr>sr_schema_fetch_retry_policy = schema, sr_broker_dns_timeout = dns_timeout_default S,
       sr_poll_interval = poll_interval_default S, sr_commit_interval = commit_interval_default S,
       sr_rebalance_timeout = rebalance_timeout_default S,
       sr_leave_heartbeat_timeout = leave_heartbeat_default S,
       sr_join_retry_backoff = join_retry_default S, sr_query_queue_capacity = query_queue_default S,
       sr_state_store_cache_max_bytes = cache_max_default S, sr_dispatch_queue_capacity = q,
       sr_frame_max = f, sr_fetch_min = fetch_min_default S\<rparr>,
      \<lparr>cr_schema_fetch_retry_policy = schema, cr_leave_group_timeout = leave_group_timeout_default S,
       cr_metadata_refresh_interval = metadata_refresh_default S, cr_retry_policy = d,
       cr_fetch_min = fetch_min_size S mn, cr_fetch_max = fetch_max_size S mx,
       cr_fetch_partition_max = partition_max_size S pm, cr_session_timeout = secs U 45,
       cr_rebalance_timeout = minutes U 1, cr_heartbeat_interval = secs U 3,
       cr_request_timeout = secs U 30, cr_auto_offset_reset = offset_reset_latest S,
       cr_isolation_level = isolation_read_uncommitted S, cr_assignor = assignor_range S,
       cr_dispatch_queue_capacity = q, cr_frame_max = f\<rparr>))"
  using assms(3,4) configure_defaults_aux [OF assms] by (simp add: configure_ok)

lemma demo_client_policy: "client_resource_policy demo_settings (demo_cli r) = Some ([64], [104857600])"
  by (simp add: client_resource_policy_def demo_settings_def demo_cli_def demo_new_def)

lemma demo_schema_policy: "schema_fetch_retry_policy demo_settings (demo_cli r) = Inr [10, 1000]"
  by (simp add: schema_fetch_retry_policy_def demo_settings_def demo_cli_def)

lemma demo_no_options: "no_consumer_option (demo_cli r)" "no_stream_option (demo_cli r)"
  by (simp_all add: no_consumer_option_def no_stream_option_def demo_cli_def)

lemma demo_settings_simps:
  "retry_policy_new demo_settings 1 2 3 4 5 6 7 = Inr [1, 2, 3, 4, 5, 6, 7]"
  "fetch_min_try_from demo_settings (bytes_of demo_units 1) = Inr [1]"
  "fetch_max_try_from demo_settings (mebibytes demo_units 50) = Inr [52428800]"
  "partition_max_try_from demo_settings (mebibytes demo_units 1) = Inr [1048576]"
  by (simp_all add: demo_settings_def demo_units_def demo_new_def)

lemma demo_configured: "\<exists>x. configure demo_units demo_settings (demo_cli r) = Some (Inr x)"
proof -
  have d: "retry_policy_new demo_settings (startup_attempt_timeout demo_settings [1, 2, 3, 4, 5, 6, 7])
      (startup_deadline demo_settings [1, 2, 3, 4, 5, 6, 7])
      (startup_initial_backoff demo_settings [1, 2, 3, 4, 5, 6, 7])
      (startup_max_backoff demo_settings [1, 2, 3, 4, 5, 6, 7])
      (coordinator_retry_timeout demo_settings [1, 2, 3, 4, 5, 6, 7])
      (coordinator_initial_backoff demo_settings [1, 2, 3, 4, 5, 6, 7])
      (coordinator_max_backoff demo_settings [1, 2, 3, 4, 5, 6, 7]) = Inr [1, 2, 3, 4, 5, 6, 7]"
    "[1, 2, 3, 4, 5, 6, 7] = retry_policy_default demo_settings"
    "bytes_i32 demo_units (fetch_min_size demo_settings [1]) \<le>
     bytes_i32 demo_units (fetch_max_size demo_settings [52428800])"
    by (simp_all add: demo_settings_def demo_units_def)
  show ?thesis
    using demo_client_policy demo_schema_policy
      configure_defaults_aux [OF demo_no_options demo_client_policy demo_schema_policy d(1,2)
        demo_settings_simps(2-4) d(3)]
    by (auto simp: configure_ok)
qed

theorem foreign_options_rejected_witness: "no_stream_option (demo_cli Produce)"
  using demo_configured [of Produce] foreign_options_rejected [of demo_units demo_settings "demo_cli Produce"]
  by (auto simp: demo_cli_def)

theorem configure_defaults_witness:
  "\<exists>sr cr. configure demo_units demo_settings (demo_cli Consume) = Some (Inr (([64], [104857600]), [10, 1000], sr, cr))
     \<and> cr_session_timeout cr = 45000000000"
proof -
  have d: "retry_policy_new demo_settings (startup_attempt_timeout demo_settings (retry_policy_default demo_settings))
      (startup_deadline demo_settings (retry_policy_default demo_settings))
      (startup_initial_backoff demo_settings (retry_policy_default demo_settings))
      (startup_max_backoff demo_settings (retry_policy_default demo_settings))
      (coordinator_retry_timeout demo_settings (retry_policy_default demo_settings))
      (coordinator_initial_backoff demo_settings (retry_policy_default demo_settings))
      (coordinator_max_backoff demo_settings (retry_policy_default demo_settings)) =
      Inr (retry_policy_default demo_settings)"
    "bytes_i32 demo_units (fetch_min_size demo_settings [1]) \<le>
     bytes_i32 demo_units (fetch_max_size demo_settings [52428800])"
    by (simp_all add: demo_settings_def demo_units_def)
  show ?thesis
    using configure_defaults [OF demo_no_options demo_client_policy demo_schema_policy d(1) refl
        demo_settings_simps(2-4) d(2), of Consume]
    by (simp add: demo_units_def)
qed

end
