(* ===== verification/Float_Parse.thy ===== *)
theory Float_Parse
  imports Rust_Std
begin

text \<open>
  The standard library's decimal parser for \<open>f64\<close> and, from
  \<open>crates/observability-demo-app/src/main.rs\<close>, the value parser \<open>parse_fraction\<close> of the injected
  slow share. The text is read as an exact rational and rounded once. The lemmas show that a
  decimal with digits after the point is read as the literal it spells, and that an accepted
  fraction is a number between zero and one.
\<close>

section \<open>Decimal floating point\<close>

fun take_digits :: "string \<Rightarrow> nat list \<times> string" where
  "take_digits [] = ([], [])"
| "take_digits (c # cs) =
     (case char_digit c of
        None \<Rightarrow> ([], c # cs)
      | Some d \<Rightarrow> let (ds, rest) = take_digits cs in (d # ds, rest))"

definition digits_value :: "nat list \<Rightarrow> nat" where
  "digits_value ds = foldl (\<lambda>a d. 10 * a + d) 0 ds"

text \<open>The exponent's digits; the accumulator stops growing at \<open>0x10000\<close>.\<close>

definition exponent_value :: "nat list \<Rightarrow> nat" where
  "exponent_value ds = foldl (\<lambda>a d. if a < 65536 then 10 * a + d else a) 0 ds"

definition split_sign :: "string \<Rightarrow> bool \<times> string" where
  "split_sign s =
     (case s of
        [] \<Rightarrow> (False, [])
      | c # cs \<Rightarrow> if c = CHR ''-'' then (True, cs) else if c = CHR ''+'' then (False, cs) else (False, s))"

definition parse_exponent :: "string \<Rightarrow> int option" where
  "parse_exponent s =
     (case s of
        [] \<Rightarrow> Some 0
      | c # cs \<Rightarrow>
          if c = CHR ''e'' \<or> c = CHR ''E'' then
            (let (neg, body) = split_sign cs; (ds, rest) = take_digits body
             in if ds = [] \<or> rest \<noteq> [] then None
                else Some (if neg then - int (exponent_value ds) else int (exponent_value ds)))
          else None)"

text \<open>A number is digits, a point and digits, with a digit on one side, and an optional exponent.\<close>

definition parse_magnitude :: "string \<Rightarrow> rat option" where
  "parse_magnitude s =
     (let (whole, rest) = take_digits s;
          (frac, rest') = (case rest of
             c # cs \<Rightarrow> if c = CHR ''.'' then take_digits cs else ([], rest)
           | [] \<Rightarrow> ([], []))
      in if whole = [] \<and> frac = [] then None
         else map_option (\<lambda>e. of_nat (digits_value (whole @ frac)) * 10 powi (e - int (length frac)))
                (parse_exponent rest'))"

definition lower_ascii :: "char \<Rightarrow> char" where
  "lower_ascii c = (let n = of_char c :: nat in if 65 \<le> n \<and> n \<le> 90 then char_of (n + 32) else c)"

datatype float_error = Empty_float | Invalid_float

fun float_error_text :: "float_error \<Rightarrow> string" where
  "float_error_text Empty_float = ''cannot parse float from empty string''"
| "float_error_text Invalid_float = ''invalid float literal''"

definition signed64 :: "bool \<Rightarrow> rat \<Rightarrow> f64" where
  "signed64 neg m =
     (let r = round_mag m in if r < f64_overflow then F64_Num neg r else F64_Inf neg)"

definition parse_f64 :: "string \<Rightarrow> float_error + f64" where
  "parse_f64 s =
     (if s = [] then Inl Empty_float
      else let (neg, body) = split_sign s in
        case parse_magnitude body of
          Some m \<Rightarrow> Inr (signed64 neg m)
        | None \<Rightarrow>
            (let word = map lower_ascii body in
             if word = ''nan'' then Inr F64_NaN
             else if word = ''inf'' \<or> word = ''infinity'' then Inr (F64_Inf neg)
             else Inl Invalid_float))"

section \<open>The value parser\<close>

text \<open>
  \<open>{value:?}\<close>: the escapes of ASCII characters are those of \<open>Debug\<close>; bytes of other characters
  are kept, of which \<open>Debug\<close> escapes the unprintable ones.
\<close>

definition hex_digit :: "nat \<Rightarrow> char" where
  "hex_digit d = (if d < 10 then char_of (48 + d) else char_of (87 + d))"

definition debug_char :: "char \<Rightarrow> string" where
  "debug_char c =
     (let n = of_char c :: nat; b = CHR 0x5C in
      if n = 0 then [b, CHR ''0'']
      else if n = 9 then [b, CHR ''t'']
      else if n = 10 then [b, CHR ''n'']
      else if n = 13 then [b, CHR ''r'']
      else if n = 34 \<or> n = 92 then [b, c]
      else if n < 32 \<or> n = 127 then
        [b] @ ''u{'' @ (if n < 16 then [] else [hex_digit (n div 16)]) @ [hex_digit (n mod 16)] @ ''}''
      else [c])"

definition debug_str :: "string \<Rightarrow> string" where
  "debug_str s = CHR 0x22 # concat (map debug_char s) @ [CHR 0x22]"

definition parse_fraction :: "string \<Rightarrow> string + f64" where
  "parse_fraction v =
     bind_res (map_err (\<lambda>e. ''invalid fraction '' @ debug_str v @ '': '' @ float_error_text e) (parse_f64 v))
       (\<lambda>fraction.
          if le64 f64_zero fraction \<and> le64 fraction (f64_lit 1) then Inr fraction
          else Inl ''fraction must be between 0 and 1 inclusive'')"

section \<open>Reading decimals\<close>

lemma take_digits_append:
  assumes "\<forall>c \<in> set xs. char_digit c \<noteq> None" and "ys = [] \<or> char_digit (hd ys) = None"
  shows "take_digits (xs @ ys) = (map (\<lambda>c. the (char_digit c)) xs, ys)"
  using assms
proof (induction xs)
  case Nil
  then show ?case by (cases ys) auto
qed auto

lemma show_padded_all_digits: "c \<in> set (show_padded w n) \<Longrightarrow> char_digit c \<noteq> None"
  by (auto simp: show_padded_def split: if_splits dest!: show_nat_digits)

lemma show_padded_digits_value: "digits_value (map (\<lambda>c. the (char_digit c)) (show_padded w n)) = n"
proof -
  have nat: "foldl (\<lambda>a d. 10 * a + d) 0 (map (\<lambda>c. the (char_digit c)) (show_nat n)) = n" for n
  proof (induction n rule: show_nat.induct)
    case (1 n)
    show ?case
    proof (cases "n < 10")
      case True
      then show ?thesis by (subst show_nat.simps) simp
    next
      case False
      then show ?thesis using 1 by (subst show_nat.simps) simp
    qed
  qed
  have "foldl (\<lambda>a d. 10 * a + d) 0 (map (\<lambda>c. the (char_digit c)) (replicate k CHR ''0'')) = (0 :: nat)" for k
    by (induction k) simp_all
  then show ?thesis by (simp add: digits_value_def show_padded_def nat)
qed

text \<open>\<open>0.dddd\<close> with exactly \<open>w\<close> digits.\<close>

definition decimal_text :: "nat \<Rightarrow> nat \<Rightarrow> string" where
  "decimal_text w k = ''0.'' @ show_padded w k"

lemma parse_decimal_magnitude:
  assumes "length (show_padded w k) = w" and "0 < w"
  shows "parse_magnitude (decimal_text w k) = Some (of_nat k / 10 ^ w)"
proof -
  have d: "take_digits (show_padded w k) = (map (\<lambda>c. the (char_digit c)) (show_padded w k), [])"
    using take_digits_append [of "show_padded w k" "[]"] show_padded_all_digits by auto
  have dot: "take_digits (''0.'' @ s) = ([0], CHR ''.'' # s)" for s
    by (simp add: char_digit_def)
  have v: "digits_value (0 # ds) = digits_value ds" for ds by (simp add: digits_value_def)
  have p: "(10::rat) powi (0 - int w) = 1 / 10 ^ w"
    by (simp add: power_int_minus divide_inverse)
  show ?thesis
    unfolding parse_magnitude_def decimal_text_def dot
    by (simp add: d parse_exponent_def v show_padded_digits_value assms(1) p [simplified])
qed

lemma parse_decimal:
  assumes "length (show_padded w k) = w" and "0 < w"
  shows "parse_f64 (decimal_text w k) = Inr (f64_lit (of_nat k / 10 ^ w))"
proof -
  have "split_sign (decimal_text w k) = (False, decimal_text w k)" "decimal_text w k \<noteq> []"
    by (simp_all add: split_sign_def decimal_text_def)
  moreover have "\<not> (of_nat k / 10 ^ w :: rat) < 0" by (simp add: not_less)
  ultimately show ?thesis
    using parse_decimal_magnitude [OF assms(1,2)]
    by (simp add: parse_f64_def signed64_def f64_lit_def round64_def Let_def)
qed

lemma length_show_nat: "n < 10 ^ w \<Longrightarrow> 0 < w \<Longrightarrow> length (show_nat n) \<le> w"
proof (induction w arbitrary: n)
  case (Suc w)
  show ?case
  proof (cases "n < 10")
    case True
    then show ?thesis by (subst show_nat.simps) simp
  next
    case False
    then have "n div 10 < 10 ^ w" "0 < w" using Suc.prems(1) by (auto simp: not_less intro: gr0I)
    then have "length (show_nat (n div 10)) \<le> w" by (rule Suc.IH)
    then show ?thesis using False by (subst show_nat.simps) simp
  qed
qed simp

lemma length_show_padded: "n < 10 ^ w \<Longrightarrow> 0 < w \<Longrightarrow> length (show_padded w n) = w"
  using length_show_nat [of n w] by (simp add: show_padded_def)

lemma parse_fraction_decimal:
  assumes "k < 10 ^ w" and "0 < w"
  shows "parse_fraction (decimal_text w k) = Inr (f64_lit (of_nat k / 10 ^ w))"
proof -
  have "(of_nat k :: rat) < of_nat (10 ^ w)" using assms(1) by (simp only: of_nat_less_iff)
  then have q: "0 \<le> (of_nat k :: rat) / 10 ^ w" "(of_nat k :: rat) / 10 ^ w \<le> of_nat 1"
    by (simp_all add: field_simps)
  have "round_mag (of_nat k / 10 ^ w) \<le> of_nat 1"
    using q by (intro binary64.R_le_of_nat) simp_all
  moreover have "(of_nat k :: rat) / 10 ^ w \<le> 2 ^ 1023"
    using q(2) by (rule order_trans) simp
  ultimately have "le64 f64_zero (f64_lit (of_nat k / 10 ^ w))" "le64 (f64_lit (of_nat k / 10 ^ w)) (f64_lit 1)"
    using q(1) round_mag_nonneg [of "of_nat k / 10 ^ w"] binary64.R_of_nat [of 1]
    by (simp_all add: f64_lit_def round64_num f64_zero_def)
  then show ?thesis
    using parse_decimal [OF length_show_padded [OF assms] assms(2)] by (simp add: parse_fraction_def)
qed

text \<open>An accepted fraction is a number between zero and one: no NaN, no infinity.\<close>

lemma parse_fraction_cases:
  assumes "parse_fraction v = Inr x"
  obtains s m where "x = F64_Num s m" and "0 \<le> f64_val x" and "f64_val x \<le> 1"
proof -
  have le: "le64 f64_zero x" "le64 x (f64_lit 1)"
    using assms by (auto simp: parse_fraction_def split: if_splits)
  have one: "f64_lit 1 = F64_Num False 1"
    using binary64.R_of_nat [of 1] by (simp add: f64_lit_def round64_num)
  show ?thesis
    using le that by (cases x) (auto simp: one f64_zero_def split: if_splits)
qed

end
