(* ===== verification/Cli_Args.thy ===== *)
theory Cli_Args
  imports Config Float_Parse
begin

text \<open>
  \<open>crates/observability-demo-app/src/main.rs\<close>, the attributes of \<open>Cli\<close>: for every argument of
  the process its field, the environment variable it is bound to, its default and its value parser.
  The long flag is the field's name with dashes. Parsing the command line itself is the work of
  \<open>clap\<close>; the flattened \<open>profiling\<close> arguments belong to \<open>krabka-telemetry\<close>.
\<close>

section \<open>The arguments\<close>

text \<open>No attribute (the argument must be given), an \<open>Option\<close> field, or a default text.\<close>

datatype arg_default = Required | Absent | Default string

datatype arg_parser =
    Enum_parser | String_parser | Non_empty_parser | Nonzero_usize_parser
  | Queue_capacity_parser | Frame_max_parser | Fetch_min_parser | Fraction_parser
  | Positive_time_parser | Nonnegative_time_parser | Nonnegative_frequency_parser
  | Positive_size_parser | Nonnegative_size_parser

datatype arg = Arg (arg_field: string) (arg_env: string) (arg_default: arg_default) (arg_parser: arg_parser)

text \<open>\<open>queue_default\<close> is the text of the library's \<open>DEFAULT_CONNECTION_DISPATCH_QUEUE_CAPACITY\<close>.\<close>

definition process_args :: "string \<Rightarrow> arg list" where
  "process_args queue_default =
     [Arg ''role'' ''KRABKA_DEMO_ROLE'' Required Enum_parser,
      Arg ''bootstrap'' ''KRABKA_DEMO_BOOTSTRAP'' (Default ''127.0.0.1:9092'') String_parser,
      Arg ''client_dispatch_queue_capacity'' ''KRABKA_DEMO_CLIENT_DISPATCH_QUEUE_CAPACITY'' (Default queue_default) Queue_capacity_parser,
      Arg ''client_frame_max'' ''KRABKA_DEMO_CLIENT_FRAME_MAX'' (Default ''100MiB'') Frame_max_parser,
      Arg ''registry'' ''KRABKA_DEMO_REGISTRY'' (Default ''http://127.0.0.1:8081'') String_parser,
      Arg ''schema_fetch_retry_initial_backoff'' ''KRABKA_DEMO_SCHEMA_FETCH_RETRY_INITIAL_BACKOFF'' Absent Positive_time_parser,
      Arg ''schema_fetch_retry_max_backoff'' ''KRABKA_DEMO_SCHEMA_FETCH_RETRY_MAX_BACKOFF'' Absent Positive_time_parser,
      Arg ''input_topic'' ''KRABKA_DEMO_INPUT_TOPIC'' (Default ''orders'') String_parser,
      Arg ''output_topic'' ''KRABKA_DEMO_OUTPUT_TOPIC'' (Default ''order-counts'') String_parser,
      Arg ''streams_application_id'' ''KRABKA_DEMO_STREAMS_APPLICATION_ID'' (Default ''orders-analytics'') Non_empty_parser,
      Arg ''consumer_group_id'' ''KRABKA_DEMO_CONSUMER_GROUP_ID'' (Default ''orders-processor'') Non_empty_parser,
      Arg ''orders_per_sec'' ''KRABKA_DEMO_ORDERS_PER_SEC'' (Default ''50Hz'') Nonnegative_frequency_parser,
      Arg ''producer_max_in_flight'' ''KRABKA_DEMO_PRODUCER_MAX_IN_FLIGHT'' (Default ''1'') Nonzero_usize_parser,
      Arg ''consumer_poll_timeout'' ''KRABKA_DEMO_CONSUMER_POLL_TIMEOUT'' (Default ''500ms'') Positive_time_parser,
      Arg ''validate_work'' ''KRABKA_DEMO_VALIDATE_WORK'' (Default ''150us'') Nonnegative_time_parser,
      Arg ''enrich_work'' ''KRABKA_DEMO_ENRICH_WORK'' (Default ''400us'') Nonnegative_time_parser,
      Arg ''fraud_check_work'' ''KRABKA_DEMO_FRAUD_CHECK_WORK'' (Default ''200us'') Nonnegative_time_parser,
      Arg ''fulfill_work'' ''KRABKA_DEMO_FULFILL_WORK'' (Default ''300us'') Nonnegative_time_parser,
      Arg ''slow_order_fraction'' ''KRABKA_DEMO_SLOW_ORDER_FRACTION'' (Default ''0.02'') Fraction_parser]"

definition consumer_args :: "arg list" where
  "consumer_args =
     [Arg ''consumer_leave_group_timeout'' ''KRABKA_DEMO_CONSUMER_LEAVE_GROUP_TIMEOUT'' Absent Positive_time_parser,
      Arg ''consumer_subscription_metadata_refresh_interval'' ''KRABKA_DEMO_CONSUMER_SUBSCRIPTION_METADATA_REFRESH_INTERVAL'' Absent Positive_time_parser,
      Arg ''consumer_startup_attempt_timeout'' ''KRABKA_DEMO_CONSUMER_STARTUP_ATTEMPT_TIMEOUT'' Absent Positive_time_parser,
      Arg ''consumer_startup_deadline'' ''KRABKA_DEMO_CONSUMER_STARTUP_DEADLINE'' Absent Positive_time_parser,
      Arg ''consumer_startup_initial_backoff'' ''KRABKA_DEMO_CONSUMER_STARTUP_INITIAL_BACKOFF'' Absent Positive_time_parser,
      Arg ''consumer_startup_max_backoff'' ''KRABKA_DEMO_CONSUMER_STARTUP_MAX_BACKOFF'' Absent Positive_time_parser,
      Arg ''consumer_coordinator_retry_timeout'' ''KRABKA_DEMO_CONSUMER_COORDINATOR_RETRY_TIMEOUT'' Absent Positive_time_parser,
      Arg ''consumer_coordinator_initial_backoff'' ''KRABKA_DEMO_CONSUMER_COORDINATOR_INITIAL_BACKOFF'' Absent Positive_time_parser,
      Arg ''consumer_coordinator_max_backoff'' ''KRABKA_DEMO_CONSUMER_COORDINATOR_MAX_BACKOFF'' Absent Positive_time_parser,
      Arg ''consumer_fetch_min'' ''KRABKA_DEMO_CONSUMER_FETCH_MIN'' Absent Positive_size_parser,
      Arg ''consumer_fetch_max'' ''KRABKA_DEMO_CONSUMER_FETCH_MAX'' Absent Positive_size_parser,
      Arg ''consumer_fetch_partition_max'' ''KRABKA_DEMO_CONSUMER_FETCH_PARTITION_MAX'' Absent Positive_size_parser,
      Arg ''consumer_session_timeout'' ''KRABKA_DEMO_CONSUMER_SESSION_TIMEOUT'' Absent Positive_time_parser,
      Arg ''consumer_rebalance_timeout'' ''KRABKA_DEMO_CONSUMER_REBALANCE_TIMEOUT'' Absent Positive_time_parser,
      Arg ''consumer_heartbeat_interval'' ''KRABKA_DEMO_CONSUMER_HEARTBEAT_INTERVAL'' Absent Positive_time_parser,
      Arg ''consumer_request_timeout'' ''KRABKA_DEMO_CONSUMER_REQUEST_TIMEOUT'' Absent Positive_time_parser,
      Arg ''consumer_auto_offset_reset'' ''KRABKA_DEMO_CONSUMER_AUTO_OFFSET_RESET'' Absent Enum_parser,
      Arg ''consumer_isolation_level'' ''KRABKA_DEMO_CONSUMER_ISOLATION_LEVEL'' Absent Enum_parser,
      Arg ''consumer_assignor'' ''KRABKA_DEMO_CONSUMER_ASSIGNOR'' Absent Enum_parser]"

definition streams_args :: "arg list" where
  "streams_args =
     [Arg ''streams_broker_dns_timeout'' ''KRABKA_DEMO_STREAMS_BROKER_DNS_TIMEOUT'' Absent Positive_time_parser,
      Arg ''streams_poll_interval'' ''KRABKA_DEMO_STREAMS_POLL_INTERVAL'' Absent Positive_time_parser,
      Arg ''streams_commit_interval'' ''KRABKA_DEMO_STREAMS_COMMIT_INTERVAL'' Absent Positive_time_parser,
      Arg ''streams_rebalance_timeout'' ''KRABKA_DEMO_STREAMS_REBALANCE_TIMEOUT'' Absent Positive_time_parser,
      Arg ''streams_leave_heartbeat_timeout'' ''KRABKA_DEMO_STREAMS_LEAVE_HEARTBEAT_TIMEOUT'' Absent Positive_time_parser,
      Arg ''streams_join_retry_backoff'' ''KRABKA_DEMO_STREAMS_JOIN_RETRY_BACKOFF'' Absent Positive_time_parser,
      Arg ''streams_interactive_query_queue_capacity'' ''KRABKA_DEMO_STREAMS_INTERACTIVE_QUERY_QUEUE_CAPACITY'' Absent Nonzero_usize_parser,
      Arg ''streams_state_store_cache_max'' ''KRABKA_DEMO_STREAMS_STATE_STORE_CACHE_MAX'' Absent Nonnegative_size_parser,
      Arg ''streams_fetch_min'' ''KRABKA_DEMO_STREAMS_FETCH_MIN'' Absent Fetch_min_parser]"

definition arg_long :: "arg \<Rightarrow> string" where
  "arg_long a = map (\<lambda>c. if c = CHR ''_'' then CHR ''-'' else c) (arg_field a)"

definition flag :: "arg \<Rightarrow> string" where
  "flag a = ''--'' @ arg_long a"

definition upper_ascii :: "char \<Rightarrow> char" where
  "upper_ascii c = (let n = of_char c :: nat in if 97 \<le> n \<and> n \<le> 122 then char_of (n - 32) else c)"

definition cli_args :: "string \<Rightarrow> arg list" where
  "cli_args queue_default = process_args queue_default @ consumer_args @ streams_args"

section \<open>Environment variables\<close>

lemma upper_ascii_table:
  "map upper_ascii ''abcdefghijklmnopqrstuvwxyz_'' = ''ABCDEFGHIJKLMNOPQRSTUVWXYZ_''"
  by code_simp

lemmas upper_ascii_letters = upper_ascii_table [unfolded list.map list.inject simp_thms]

definition env_matches :: "arg \<Rightarrow> bool" where
  "env_matches a \<longleftrightarrow> arg_env a = ''KRABKA_DEMO_'' @ map upper_ascii (arg_field a)"

lemmas env_simps = env_matches_def list.pred_inject arg.sel list.map append.simps upper_ascii_letters simp_thms

lemma env_consumer: "list_all env_matches consumer_args"
  by (simp only: consumer_args_def env_simps)

lemma env_streams: "list_all env_matches streams_args"
  by (simp only: streams_args_def env_simps)

lemma env_process: "list_all env_matches (process_args q)"
  by (simp only: process_args_def env_simps)

lemma distinct_envs: "distinct (map arg_env (cli_args q))"
  by code_simp

end
