(* ===== verification/Cli_Parse.thy ===== *)
theory Cli_Parse
  imports Cli_Args Config_Spec
begin

text \<open>
  \<open>crates/observability-demo-app/src/main.rs\<close>: \<open>Cli::parse\<close> as far as its attributes fix it. \<open>clap\<close>
  finds the text given for an argument on the command line or in its environment variable, which is
  the parameter \<open>found\<close>; the declaration adds the default text and the value parser. A missing
  required argument or a refused text ends the process: \<^const>\<open>None\<close>. Which of several refusals is
  reported is up to \<open>clap\<close>.
\<close>

section \<open>Values\<close>

text \<open>The value parsers that belong to libraries, and the default that is a library's constant.\<close>

record ('p, 't, 'b, 'en) value_parsers =
  parse_profiling :: "(string \<Rightarrow> string option) \<Rightarrow> 'p option"
  parse_positive_time :: "string \<Rightarrow> string + 't"
  parse_non_negative_byte_size :: "string \<Rightarrow> string + 'b"
  parse_offset_reset :: "string \<Rightarrow> string + 'en"
  parse_isolation_level :: "string \<Rightarrow> string + 'en"
  parse_assignor :: "string \<Rightarrow> string + 'en"
  empty_string_error :: string
  queue_default_text :: string

text \<open>\<open>ValueEnum\<close> of \<open>Role\<close>: the kebab-case names.\<close>

definition parse_role :: "string \<Rightarrow> string + role" where
  "parse_role s = ok_or ''invalid value'' (List.find (\<lambda>r. role_name r = s) [Produce, Stream, Consume])"

definition default_text :: "string \<Rightarrow> string \<Rightarrow> string option" where
  "default_text queue_default name =
     (case List.find (\<lambda>a. arg_field a = name) (cli_args queue_default) of
        Some (Arg _ _ (Default t) _) \<Rightarrow> Some t
      | _ \<Rightarrow> None)"

definition text_of :: "('p, 't, 'b, 'en) value_parsers \<Rightarrow> (string \<Rightarrow> string option) \<Rightarrow> string \<Rightarrow> string option" where
  "text_of P found name =
     (case found name of Some t \<Rightarrow> Some t | None \<Rightarrow> default_text (queue_default_text P) name)"

text \<open>A field that must have a value, and an \<open>Option\<close> field.\<close>

definition value_of ::
    "('p, 't, 'b, 'en) value_parsers \<Rightarrow> (string \<Rightarrow> string option) \<Rightarrow> string \<Rightarrow>
     (string \<Rightarrow> string + 'v) \<Rightarrow> 'v option" where
  "value_of P found name parser =
     (case text_of P found name of None \<Rightarrow> None
      | Some t \<Rightarrow> (case parser t of Inl _ \<Rightarrow> None | Inr v \<Rightarrow> Some v))"

definition given_value ::
    "('p, 't, 'b, 'en) value_parsers \<Rightarrow> (string \<Rightarrow> string option) \<Rightarrow> string \<Rightarrow>
     (string \<Rightarrow> string + 'v) \<Rightarrow> 'v option option" where
  "given_value P found name parser =
     (case text_of P found name of None \<Rightarrow> Some None
      | Some t \<Rightarrow> (case parser t of Inl _ \<Rightarrow> None | Inr v \<Rightarrow> Some (Some v)))"

definition parse_cli ::
    "('t, 'f, 'b) units \<Rightarrow> ('t, 'b, 'w, 'en) settings \<Rightarrow> ('p, 't, 'b, 'en) value_parsers \<Rightarrow>
     (string \<Rightarrow> string option) \<Rightarrow> ('p, 't, 'f, 'b, 'en) cli option" where
  "parse_cli U S P found =
     Option.bind (parse_profiling P found) (\<lambda>x1.
     Option.bind (value_of P found ''role'' parse_role) (\<lambda>x2.
     Option.bind (value_of P found ''bootstrap'' Inr) (\<lambda>x3.
     Option.bind (value_of P found ''client_dispatch_queue_capacity'' (parse_client_dispatch_queue_capacity S)) (\<lambda>x4.
     Option.bind (value_of P found ''client_frame_max'' (parse_client_frame_max U S)) (\<lambda>x5.
     Option.bind (value_of P found ''registry'' Inr) (\<lambda>x6.
     Option.bind (given_value P found ''schema_fetch_retry_initial_backoff'' (parse_positive_time P)) (\<lambda>x7.
     Option.bind (given_value P found ''schema_fetch_retry_max_backoff'' (parse_positive_time P)) (\<lambda>x8.
     Option.bind (value_of P found ''input_topic'' Inr) (\<lambda>x9.
     Option.bind (value_of P found ''output_topic'' Inr) (\<lambda>x10.
     Option.bind (value_of P found ''streams_application_id'' (parse_non_empty_string (empty_string_error P))) (\<lambda>x11.
     Option.bind (value_of P found ''consumer_group_id'' (parse_non_empty_string (empty_string_error P))) (\<lambda>x12.
     Option.bind (value_of P found ''orders_per_sec'' (parse_nonnegative_frequency U)) (\<lambda>x13.
     Option.bind (value_of P found ''producer_max_in_flight'' (\<lambda>s. map_err int_error_text (parse_nonzero_usize s))) (\<lambda>x14.
     Option.bind (value_of P found ''consumer_poll_timeout'' (parse_positive_time P)) (\<lambda>x15.
     Option.bind (value_of P found ''validate_work'' (parse_nonnegative_time U)) (\<lambda>x16.
     Option.bind (value_of P found ''enrich_work'' (parse_nonnegative_time U)) (\<lambda>x17.
     Option.bind (value_of P found ''fraud_check_work'' (parse_nonnegative_time U)) (\<lambda>x18.
     Option.bind (value_of P found ''fulfill_work'' (parse_nonnegative_time U)) (\<lambda>x19.
     Option.bind (value_of P found ''slow_order_fraction'' parse_fraction) (\<lambda>x20.
     Option.bind (given_value P found ''consumer_leave_group_timeout'' (parse_positive_time P)) (\<lambda>x21.
     Option.bind (given_value P found ''consumer_subscription_metadata_refresh_interval'' (parse_positive_time P)) (\<lambda>x22.
     Option.bind (given_value P found ''consumer_startup_attempt_timeout'' (parse_positive_time P)) (\<lambda>x23.
     Option.bind (given_value P found ''consumer_startup_deadline'' (parse_positive_time P)) (\<lambda>x24.
     Option.bind (given_value P found ''consumer_startup_initial_backoff'' (parse_positive_time P)) (\<lambda>x25.
     Option.bind (given_value P found ''consumer_startup_max_backoff'' (parse_positive_time P)) (\<lambda>x26.
     Option.bind (given_value P found ''consumer_coordinator_retry_timeout'' (parse_positive_time P)) (\<lambda>x27.
     Option.bind (given_value P found ''consumer_coordinator_initial_backoff'' (parse_positive_time P)) (\<lambda>x28.
     Option.bind (given_value P found ''consumer_coordinator_max_backoff'' (parse_positive_time P)) (\<lambda>x29.
     Option.bind (given_value P found ''consumer_fetch_min'' (parse_positive_byte_size U)) (\<lambda>x30.
     Option.bind (given_value P found ''consumer_fetch_max'' (parse_positive_byte_size U)) (\<lambda>x31.
     Option.bind (given_value P found ''consumer_fetch_partition_max'' (parse_positive_byte_size U)) (\<lambda>x32.
     Option.bind (given_value P found ''consumer_session_timeout'' (parse_positive_time P)) (\<lambda>x33.
     Option.bind (given_value P found ''consumer_rebalance_timeout'' (parse_positive_time P)) (\<lambda>x34.
     Option.bind (given_value P found ''consumer_heartbeat_interval'' (parse_positive_time P)) (\<lambda>x35.
     Option.bind (given_value P found ''consumer_request_timeout'' (parse_positive_time P)) (\<lambda>x36.
     Option.bind (given_value P found ''consumer_auto_offset_reset'' (parse_offset_reset P)) (\<lambda>x37.
     Option.bind (given_value P found ''consumer_isolation_level'' (parse_isolation_level P)) (\<lambda>x38.
     Option.bind (given_value P found ''consumer_assignor'' (parse_assignor P)) (\<lambda>x39.
     Option.bind (given_value P found ''streams_broker_dns_timeout'' (parse_positive_time P)) (\<lambda>x40.
     Option.bind (given_value P found ''streams_poll_interval'' (parse_positive_time P)) (\<lambda>x41.
     Option.bind (given_value P found ''streams_commit_interval'' (parse_positive_time P)) (\<lambda>x42.
     Option.bind (given_value P found ''streams_rebalance_timeout'' (parse_positive_time P)) (\<lambda>x43.
     Option.bind (given_value P found ''streams_leave_heartbeat_timeout'' (parse_positive_time P)) (\<lambda>x44.
     Option.bind (given_value P found ''streams_join_retry_backoff'' (parse_positive_time P)) (\<lambda>x45.
     Option.bind (given_value P found ''streams_interactive_query_queue_capacity'' (\<lambda>s. map_err int_error_text (parse_nonzero_usize s))) (\<lambda>x46.
     Option.bind (given_value P found ''streams_state_store_cache_max'' (parse_non_negative_byte_size P)) (\<lambda>x47.
     Option.bind (given_value P found ''streams_fetch_min'' (parse_fetch_min U S)) (\<lambda>x48.
          Some \<lparr>profiling = x1, role = x2, bootstrap = x3, client_dispatch_queue_capacity =
       x4, client_frame_max = x5, registry_url = x6, schema_fetch_retry_initial_backoff = x7,
       schema_fetch_retry_max_backoff = x8, input_topic = x9, output_topic = x10,
       streams_application_id = x11, consumer_group_id = x12, orders_per_sec = x13,
       producer_max_in_flight = x14, consumer_poll_timeout = x15, validate_work = x16, enrich_work =
       x17, fraud_check_work = x18, fulfill_work = x19, slow_order_fraction = x20,
       consumer_leave_group_timeout = x21, consumer_subscription_metadata_refresh_interval = x22,
       consumer_startup_attempt_timeout = x23, consumer_startup_deadline = x24,
       consumer_startup_initial_backoff = x25, consumer_startup_max_backoff = x26,
       consumer_coordinator_retry_timeout = x27, consumer_coordinator_initial_backoff = x28,
       consumer_coordinator_max_backoff = x29, consumer_fetch_min = x30, consumer_fetch_max = x31,
       consumer_fetch_partition_max = x32, consumer_session_timeout = x33,
       consumer_rebalance_timeout = x34, consumer_heartbeat_interval = x35, consumer_request_timeout
       = x36, consumer_auto_offset_reset = x37, consumer_isolation_level = x38, consumer_assignor =
       x39, streams_broker_dns_timeout = x40, streams_poll_interval = x41, streams_commit_interval =
       x42, streams_rebalance_timeout = x43, streams_leave_heartbeat_timeout = x44,
       streams_join_retry_backoff = x45, streams_interactive_query_queue_capacity = x46,
       streams_state_store_cache_max = x47, streams_fetch_min =
       x48\<rparr>))))))))))))))))))))))))))))))))))))))))))))))))"

section \<open>What a parsed line satisfies\<close>

lemma value_of_Some:
  "value_of P found name parser = Some v \<longleftrightarrow> (\<exists>t. text_of P found name = Some t \<and> parser t = Inr v)"
  by (simp add: value_of_def split: option.split sum.split)

lemma given_value_Some:
  "given_value P found name parser = Some v \<longleftrightarrow>
     (case text_of P found name of None \<Rightarrow> v = None | Some t \<Rightarrow> \<exists>w. parser t = Inr w \<and> v = Some w)"
  by (auto simp: given_value_def split: option.split sum.split)

lemma bind_SomeE:
  assumes "Option.bind m f = Some y"
  obtains x where "m = Some x" and "f x = Some y"
  using assms by (cases m) simp_all

lemma parse_cli_fields:
  assumes "parse_cli U S P found = Some c"
  shows
    "value_of P found ''role'' parse_role = Some (role c)"
    "value_of P found ''client_dispatch_queue_capacity'' (parse_client_dispatch_queue_capacity S) = Some (client_dispatch_queue_capacity c)"
    "value_of P found ''client_frame_max'' (parse_client_frame_max U S) = Some (client_frame_max c)"
    "value_of P found ''streams_application_id'' (parse_non_empty_string (empty_string_error P)) = Some (streams_application_id c)"
    "value_of P found ''consumer_group_id'' (parse_non_empty_string (empty_string_error P)) = Some (consumer_group_id c)"
    "value_of P found ''orders_per_sec'' (parse_nonnegative_frequency U) = Some (orders_per_sec c)"
    "value_of P found ''producer_max_in_flight'' (\<lambda>s. map_err int_error_text (parse_nonzero_usize s)) = Some (producer_max_in_flight c)"
    "value_of P found ''validate_work'' (parse_nonnegative_time U) = Some (validate_work c)"
    "value_of P found ''enrich_work'' (parse_nonnegative_time U) = Some (enrich_work c)"
    "value_of P found ''fraud_check_work'' (parse_nonnegative_time U) = Some (fraud_check_work c)"
    "value_of P found ''fulfill_work'' (parse_nonnegative_time U) = Some (fulfill_work c)"
    "value_of P found ''slow_order_fraction'' parse_fraction = Some (slow_order_fraction c)"
    "given_value P found ''streams_fetch_min'' (parse_fetch_min U S) = Some (streams_fetch_min c)"
    "value_of P found ''consumer_poll_timeout'' (parse_positive_time P) = Some (consumer_poll_timeout c)"
    "given_value P found ''streams_broker_dns_timeout'' (parse_positive_time P) = Some (streams_broker_dns_timeout c)"
    "given_value P found ''streams_poll_interval'' (parse_positive_time P) = Some (streams_poll_interval c)"
    "given_value P found ''streams_commit_interval'' (parse_positive_time P) = Some (streams_commit_interval c)"
    "given_value P found ''streams_rebalance_timeout'' (parse_positive_time P) = Some (streams_rebalance_timeout c)"
  using assms unfolding parse_cli_def
  by - (elim bind_SomeE; (simp only: option.inject)?; hypsubst; simp only: cli.select_convs)+

lemma distinct_fields: "distinct (map arg_field (cli_args q))"
proof -
  have "list_all env_matches (cli_args q)"
    using env_process env_consumer env_streams by (simp add: cli_args_def)
  then have "map arg_env (cli_args q) = map (\<lambda>n. ''KRABKA_DEMO_'' @ map upper_ascii n) (map arg_field (cli_args q))"
    by (simp add: env_matches_def list_all_iff)
  then show ?thesis using distinct_envs [of q] by (metis distinct_map)
qed

lemma find_distinct:
  "distinct (map f xs) \<Longrightarrow> a \<in> set xs \<Longrightarrow> List.find (\<lambda>b. f b = f a) xs = Some a"
  by (induction xs) auto

text \<open>The default of every declared argument, and its text when only the role is given.\<close>

lemma default_text_arg:
  "list_all (\<lambda>a. default_text q (arg_field a) =
     (case arg_default a of Default t \<Rightarrow> Some t | _ \<Rightarrow> None)) (cli_args q)"
proof -
  have "default_text q (arg_field a) = (case arg_default a of Default t \<Rightarrow> Some t | _ \<Rightarrow> None)"
    if "a \<in> set (cli_args q)" for a
    using find_distinct [OF distinct_fields that] by (cases a) (simp add: default_text_def)
  then show ?thesis by (simp add: list_all_iff)
qed

lemmas default_texts = default_text_arg [unfolded cli_args_def process_args_def consumer_args_def
  streams_args_def append.simps list.pred_inject arg.sel arg_default.case simp_thms]

lemma role_only_text:
  "text_of P [''role'' \<mapsto> t] n = (if n = ''role'' then Some t else default_text (queue_default_text P) n)"
  by (simp add: text_of_def)

lemma parse_role_name: "parse_role s = Inr r \<longleftrightarrow> s = role_name r"
  by (cases r) (auto simp: parse_role_def ok_or_def split: if_splits)

lemma parsed_limits:
  assumes "parse_cli U S P found = Some c"
    and "revalidates (queue_capacity_new S) (queue_capacity_get S)"
    and "revalidates (frame_max_try_from S) (frame_max_size S)"
    and "revalidates (fetch_min_try_from S) (fetch_min_size S)"
  shows "configure U S c \<noteq> None"
proof -
  note parsed = parse_cli_fields [OF assms(1)]
  obtain qs where "parse_client_dispatch_queue_capacity S qs = Inr (client_dispatch_queue_capacity c)"
    using parsed(2) by (auto simp: value_of_Some)
  moreover obtain fs where "parse_client_frame_max U S fs = Inr (client_frame_max c)"
    using parsed(3) by (auto simp: value_of_Some)
  moreover have "\<exists>t. parse_fetch_min U S t = Inr v" if "streams_fetch_min c = Some v" for v
    using parsed(13) that by (auto simp: given_value_Some split: option.splits)
  ultimately show ?thesis by (rule configured_no_panic [OF assms(2-4)])
qed

section \<open>An instance\<close>

definition demo_parsers :: "(unit, nat, nat, string) value_parsers" where
  "demo_parsers =
     \<lparr>parse_profiling = (\<lambda>_. Some ()),
      parse_positive_time = (\<lambda>s. map_err int_error_text (parse_nonzero_usize s)),
      parse_non_negative_byte_size = (\<lambda>s. map_err int_error_text (parse_unsigned s)),
      parse_offset_reset = Inr, parse_isolation_level = Inr, parse_assignor = Inr,
      empty_string_error = ''empty'', queue_default_text = ''64''\<rparr>"

text \<open>Units that read the default texts.\<close>

definition unit_texts :: "(string \<times> nat) list" where
  "unit_texts = [(''150us'', 150000), (''400us'', 400000), (''200us'', 200000), (''300us'', 300000),
     (''500ms'', 500000000), (''50Hz'', 50), (''100MiB'', 104857600)]"

definition read_unit :: "string \<Rightarrow> string + nat" where
  "read_unit s = ok_or ''unknown unit'' (map_of unit_texts s)"

definition text_units :: "(nat, nat, nat) units" where
  "text_units = demo_units\<lparr>parse_time := read_unit, parse_frequency := read_unit,
     parse_positive_byte_size := read_unit\<rparr>"

definition text_parsers :: "(unit, nat, nat, string) value_parsers" where
  "text_parsers = demo_parsers\<lparr>parse_positive_time := read_unit\<rparr>"

text \<open>
  With only the role on the command line the process gets the documented settings: every
  default text is accepted by its own parser, and no option of a role is set.
\<close>

lemma default_line_parsed:
  assumes "parse_profiling P [''role'' \<mapsto> role_name r] = Some p"
    and "parse_client_dispatch_queue_capacity S (queue_default_text P) = Inr q"
    and "parse_client_frame_max U S ''100MiB'' = Inr fm"
    and "parse_nonnegative_frequency U ''50Hz'' = Inr hz"
    and "parse_positive_time P ''500ms'' = Inr poll"
    and "parse_nonnegative_time U ''150us'' = Inr t1" and "parse_nonnegative_time U ''400us'' = Inr t2"
    and "parse_nonnegative_time U ''200us'' = Inr t3" and "parse_nonnegative_time U ''300us'' = Inr t4"
  shows "\<exists>c. parse_cli U S P [''role'' \<mapsto> role_name r] = Some c \<and> role c = r \<and>
    bootstrap c = ''127.0.0.1:9092'' \<and> registry_url c = ''http://127.0.0.1:8081'' \<and>
    input_topic c = ''orders'' \<and> output_topic c = ''order-counts'' \<and>
    consumer_group_id c = ''orders-processor'' \<and> streams_application_id c = ''orders-analytics'' \<and>
    orders_per_sec c = hz \<and> producer_max_in_flight c = 1 \<and> consumer_poll_timeout c = poll \<and>
    (validate_work c, enrich_work c, fraud_check_work c, fulfill_work c) = (t1, t2, t3, t4) \<and>
    slow_order_fraction c = f64_lit (2 / 100) \<and> no_consumer_option c \<and> no_stream_option c"
proof -
  have frac: "parse_fraction ''0.02'' = Inr (f64_lit (2 / 100))"
  proof -
    have "decimal_text 2 2 = ''0.02''" by code_simp
    then show ?thesis using parse_fraction_decimal [of 2 2] by simp
  qed
  have one: "map_err int_error_text (parse_nonzero_usize ''1'') = Inr 1"
    by (simp add: parse_nonzero_usize_def parse_unsigned_def char_digit_def)
  have rn: "parse_role (role_name r) = Inr r" by (simp add: parse_role_name)
  show ?thesis
    by (simp add: parse_cli_def value_of_def given_value_def role_only_text default_texts assms frac one rn
        parse_non_empty_string_def no_consumer_option_def no_stream_option_def)
qed


text \<open>The clamp of \<open>stage_delay\<close> never changes an accepted fraction.\<close>

lemma fraction_unclamped:
  assumes "parse_fraction v = Inr x"
  shows "is_finite64 x \<and> 0 \<le> f64_val x \<and> f64_val x \<le> 1 \<and> clamp64 x f64_zero (f64_lit 1) = x"
proof -
  obtain s m where x: "x = F64_Num s m" "0 \<le> f64_val x" "f64_val x \<le> 1"
    using assms by (rule parse_fraction_cases)
  have one: "f64_lit 1 = F64_Num False 1" using f64_lit_nat [of 1] by simp
  show ?thesis
    using x by (cases s) (auto simp: is_finite64_def clamp64_def one f64_zero_def)
qed

section \<open>Properties\<close>

text \<open>
  C31: an accepted command line is valid whatever the libraries do: the role is the one named, the
  consumer group and the streams application have a name, at least one send may be in flight, the
  rate and the stage times are not negative, and the slow share is a finite number between zero and
  one, so the clamp of \<open>stage_delay\<close> never changes it.
\<close>

theorem parsed_line_valid:
  assumes "parse_cli U S P found = Some c"
  shows "found ''role'' = Some (role_name (role c)) \<and>
    consumer_group_id c \<noteq> [] \<and> streams_application_id c \<noteq> [] \<and> 0 < producer_max_in_flight c \<and>
    \<not> freq_less U (orders_per_sec c) (freq_zero U) \<and>
    list_all (\<lambda>t. \<not> time_less U t (time_zero U))
      [validate_work c, enrich_work c, fraud_check_work c, fulfill_work c] \<and>
    is_finite64 (slow_order_fraction c) \<and>
    0 \<le> f64_val (slow_order_fraction c) \<and> f64_val (slow_order_fraction c) \<le> 1 \<and>
    clamp64 (slow_order_fraction c) f64_zero (f64_lit 1) = slow_order_fraction c"
proof -
  note parsed = parse_cli_fields [OF assms, unfolded value_of_Some]
  have "found ''role'' = Some (role_name (role c))"
    using parsed(1) by (auto simp: parse_role_name text_of_def default_texts split: option.splits)
  moreover have "streams_application_id c \<noteq> []" "consumer_group_id c \<noteq> []"
    using parsed(4,5) by (auto simp: parse_non_empty_string_def split: if_splits)
  moreover have "\<not> freq_less U (orders_per_sec c) (freq_zero U)"
    using parsed(6) by (auto simp: parse_nonnegative_frequency_def split: if_splits)
  moreover have "0 < producer_max_in_flight c"
    using parsed(7) by (auto simp: parse_nonzero_usize_def split: if_splits)
  moreover have "list_all (\<lambda>t. \<not> time_less U t (time_zero U))
      [validate_work c, enrich_work c, fraud_check_work c, fulfill_work c]"
    using parsed(8-11) by (auto simp: parse_nonnegative_time_def split: if_splits)
  moreover obtain t where "parse_fraction t = Inr (slow_order_fraction c)" using parsed(12) by blast
  then have "is_finite64 (slow_order_fraction c) \<and>
      0 \<le> f64_val (slow_order_fraction c) \<and> f64_val (slow_order_fraction c) \<le> 1 \<and>
      clamp64 (slow_order_fraction c) f64_zero (f64_lit 1) = slow_order_fraction c"
    by (rule fraction_unclamped)
  ultimately show ?thesis by blast
qed

lemma unit_text_simps:
  "read_unit ''150us'' = Inr 150000" "read_unit ''400us'' = Inr 400000" "read_unit ''200us'' = Inr 200000"
  "read_unit ''300us'' = Inr 300000" "read_unit ''500ms'' = Inr 500000000" "read_unit ''50Hz'' = Inr 50"
  "read_unit ''100MiB'' = Inr 104857600"
  by (simp_all add: read_unit_def unit_texts_def)

lemma demo_default_line:
  "parse_profiling text_parsers found = Some ()"
  "parse_client_dispatch_queue_capacity demo_settings (queue_default_text text_parsers) = Inr 64"
  "parse_client_frame_max text_units demo_settings ''100MiB'' = Inr 104857600"
  "parse_nonnegative_frequency text_units ''50Hz'' = Inr 50"
  "parse_positive_time text_parsers ''500ms'' = Inr 500000000"
  "parse_nonnegative_time text_units ''150us'' = Inr 150000"
  "parse_nonnegative_time text_units ''400us'' = Inr 400000"
  "parse_nonnegative_time text_units ''200us'' = Inr 200000"
  "parse_nonnegative_time text_units ''300us'' = Inr 300000"
  by (simp_all add: text_parsers_def demo_parsers_def text_units_def demo_units_def demo_settings_def
      demo_new_def parse_client_dispatch_queue_capacity_def parse_client_frame_max_def
      parse_nonnegative_frequency_def parse_nonnegative_time_def unit_text_simps
      parse_unsigned_def char_digit_def)

theorem parsed_line_valid_witness:
  "\<exists>c. parse_cli text_units demo_settings text_parsers [''role'' \<mapsto> ''consume''] = Some c \<and> role c = Consume \<and>
     0 < producer_max_in_flight c"
proof -
  obtain c where c: "parse_cli text_units demo_settings text_parsers [''role'' \<mapsto> ''consume''] = Some c"
    using default_line_parsed [of text_parsers Consume "()", OF demo_default_line] by auto
  from parsed_line_valid [OF c] have "role c = Consume" "0 < producer_max_in_flight c"
    by (cases "role c"; simp)+
  with c show ?thesis by blast
qed

end
