(* ===== verification/Cli_Refusal.thy ===== *)
theory Cli_Refusal
  imports Cli_Parse
begin

text \<open>
  From the text of a command line to the refusal of an option that belongs to another role: the
  argument table of \<open>Cli\<close>, the parsed fields and the gates of the \<open>effective_*\<close> functions of
  \<open>crates/observability-demo-app/src/main.rs\<close> agree on every one of the 28 options of a role.
\<close>

section \<open>The options of a parsed line\<close>

lemma parse_cli_options:
  assumes "parse_cli U S P found = Some c"
  shows "given_value P found ''consumer_leave_group_timeout'' (parse_positive_time P) = Some (consumer_leave_group_timeout c) \<and>
    given_value P found ''consumer_subscription_metadata_refresh_interval'' (parse_positive_time P) = Some (consumer_subscription_metadata_refresh_interval c) \<and>
    given_value P found ''consumer_startup_attempt_timeout'' (parse_positive_time P) = Some (consumer_startup_attempt_timeout c) \<and>
    given_value P found ''consumer_startup_deadline'' (parse_positive_time P) = Some (consumer_startup_deadline c) \<and>
    given_value P found ''consumer_startup_initial_backoff'' (parse_positive_time P) = Some (consumer_startup_initial_backoff c) \<and>
    given_value P found ''consumer_startup_max_backoff'' (parse_positive_time P) = Some (consumer_startup_max_backoff c) \<and>
    given_value P found ''consumer_coordinator_retry_timeout'' (parse_positive_time P) = Some (consumer_coordinator_retry_timeout c) \<and>
    given_value P found ''consumer_coordinator_initial_backoff'' (parse_positive_time P) = Some (consumer_coordinator_initial_backoff c) \<and>
    given_value P found ''consumer_coordinator_max_backoff'' (parse_positive_time P) = Some (consumer_coordinator_max_backoff c) \<and>
    given_value P found ''consumer_fetch_min'' (parse_positive_byte_size U) = Some (consumer_fetch_min c) \<and>
    given_value P found ''consumer_fetch_max'' (parse_positive_byte_size U) = Some (consumer_fetch_max c) \<and>
    given_value P found ''consumer_fetch_partition_max'' (parse_positive_byte_size U) = Some (consumer_fetch_partition_max c) \<and>
    given_value P found ''consumer_session_timeout'' (parse_positive_time P) = Some (consumer_session_timeout c) \<and>
    given_value P found ''consumer_rebalance_timeout'' (parse_positive_time P) = Some (consumer_rebalance_timeout c) \<and>
    given_value P found ''consumer_heartbeat_interval'' (parse_positive_time P) = Some (consumer_heartbeat_interval c) \<and>
    given_value P found ''consumer_request_timeout'' (parse_positive_time P) = Some (consumer_request_timeout c) \<and>
    given_value P found ''consumer_auto_offset_reset'' (parse_offset_reset P) = Some (consumer_auto_offset_reset c) \<and>
    given_value P found ''consumer_isolation_level'' (parse_isolation_level P) = Some (consumer_isolation_level c) \<and>
    given_value P found ''consumer_assignor'' (parse_assignor P) = Some (consumer_assignor c) \<and>
    given_value P found ''streams_broker_dns_timeout'' (parse_positive_time P) = Some (streams_broker_dns_timeout c) \<and>
    given_value P found ''streams_poll_interval'' (parse_positive_time P) = Some (streams_poll_interval c) \<and>
    given_value P found ''streams_commit_interval'' (parse_positive_time P) = Some (streams_commit_interval c) \<and>
    given_value P found ''streams_rebalance_timeout'' (parse_positive_time P) = Some (streams_rebalance_timeout c) \<and>
    given_value P found ''streams_leave_heartbeat_timeout'' (parse_positive_time P) = Some (streams_leave_heartbeat_timeout c) \<and>
    given_value P found ''streams_join_retry_backoff'' (parse_positive_time P) = Some (streams_join_retry_backoff c) \<and>
    given_value P found ''streams_interactive_query_queue_capacity'' (\<lambda>s. map_err int_error_text (parse_nonzero_usize s)) = Some (streams_interactive_query_queue_capacity c) \<and>
    given_value P found ''streams_state_store_cache_max'' (parse_non_negative_byte_size P) = Some (streams_state_store_cache_max c) \<and>
    given_value P found ''streams_fetch_min'' (parse_fetch_min U S) = Some (streams_fetch_min c)"
  using assms unfolding parse_cli_def
  by - (elim bind_SomeE; simp only: option.inject; hypsubst; simp only: cli.select_convs simp_thms)

lemma given_iff:
  assumes "given_value P found n parser = Some v" and "default_text (queue_default_text P) n = None"
  shows "v \<noteq> None \<longleftrightarrow> found n \<noteq> None"
  using assms by (auto simp: given_value_Some text_of_def split: option.splits)

lemma options_given:
  assumes "parse_cli U S P found = Some c"
  shows
    "consumer_leave_group_timeout c \<noteq> None \<longleftrightarrow> found ''consumer_leave_group_timeout'' \<noteq> None"
    "consumer_subscription_metadata_refresh_interval c \<noteq> None \<longleftrightarrow> found ''consumer_subscription_metadata_refresh_interval'' \<noteq> None"
    "consumer_startup_attempt_timeout c \<noteq> None \<longleftrightarrow> found ''consumer_startup_attempt_timeout'' \<noteq> None"
    "consumer_startup_deadline c \<noteq> None \<longleftrightarrow> found ''consumer_startup_deadline'' \<noteq> None"
    "consumer_startup_initial_backoff c \<noteq> None \<longleftrightarrow> found ''consumer_startup_initial_backoff'' \<noteq> None"
    "consumer_startup_max_backoff c \<noteq> None \<longleftrightarrow> found ''consumer_startup_max_backoff'' \<noteq> None"
    "consumer_coordinator_retry_timeout c \<noteq> None \<longleftrightarrow> found ''consumer_coordinator_retry_timeout'' \<noteq> None"
    "consumer_coordinator_initial_backoff c \<noteq> None \<longleftrightarrow> found ''consumer_coordinator_initial_backoff'' \<noteq> None"
    "consumer_coordinator_max_backoff c \<noteq> None \<longleftrightarrow> found ''consumer_coordinator_max_backoff'' \<noteq> None"
    "consumer_fetch_min c \<noteq> None \<longleftrightarrow> found ''consumer_fetch_min'' \<noteq> None"
    "consumer_fetch_max c \<noteq> None \<longleftrightarrow> found ''consumer_fetch_max'' \<noteq> None"
    "consumer_fetch_partition_max c \<noteq> None \<longleftrightarrow> found ''consumer_fetch_partition_max'' \<noteq> None"
    "consumer_session_timeout c \<noteq> None \<longleftrightarrow> found ''consumer_session_timeout'' \<noteq> None"
    "consumer_rebalance_timeout c \<noteq> None \<longleftrightarrow> found ''consumer_rebalance_timeout'' \<noteq> None"
    "consumer_heartbeat_interval c \<noteq> None \<longleftrightarrow> found ''consumer_heartbeat_interval'' \<noteq> None"
    "consumer_request_timeout c \<noteq> None \<longleftrightarrow> found ''consumer_request_timeout'' \<noteq> None"
    "consumer_auto_offset_reset c \<noteq> None \<longleftrightarrow> found ''consumer_auto_offset_reset'' \<noteq> None"
    "consumer_isolation_level c \<noteq> None \<longleftrightarrow> found ''consumer_isolation_level'' \<noteq> None"
    "consumer_assignor c \<noteq> None \<longleftrightarrow> found ''consumer_assignor'' \<noteq> None"
    "streams_broker_dns_timeout c \<noteq> None \<longleftrightarrow> found ''streams_broker_dns_timeout'' \<noteq> None"
    "streams_poll_interval c \<noteq> None \<longleftrightarrow> found ''streams_poll_interval'' \<noteq> None"
    "streams_commit_interval c \<noteq> None \<longleftrightarrow> found ''streams_commit_interval'' \<noteq> None"
    "streams_rebalance_timeout c \<noteq> None \<longleftrightarrow> found ''streams_rebalance_timeout'' \<noteq> None"
    "streams_leave_heartbeat_timeout c \<noteq> None \<longleftrightarrow> found ''streams_leave_heartbeat_timeout'' \<noteq> None"
    "streams_join_retry_backoff c \<noteq> None \<longleftrightarrow> found ''streams_join_retry_backoff'' \<noteq> None"
    "streams_interactive_query_queue_capacity c \<noteq> None \<longleftrightarrow> found ''streams_interactive_query_queue_capacity'' \<noteq> None"
    "streams_state_store_cache_max c \<noteq> None \<longleftrightarrow> found ''streams_state_store_cache_max'' \<noteq> None"
    "streams_fetch_min c \<noteq> None \<longleftrightarrow> found ''streams_fetch_min'' \<noteq> None"
  by (insert parse_cli_options [OF assms]; elim conjE; erule given_iff; simp only: default_texts simp_thms)+

text \<open>Every option of a role, by its field and its flag on the command line.\<close>

lemma declared:
  "list_ex (\<lambda>a. arg_field a = ''consumer_leave_group_timeout'' \<and> flag a = ''--consumer-leave-group-timeout'') consumer_args"
  "list_ex (\<lambda>a. arg_field a = ''consumer_subscription_metadata_refresh_interval'' \<and> flag a = ''--consumer-subscription-metadata-refresh-interval'') consumer_args"
  "list_ex (\<lambda>a. arg_field a = ''consumer_startup_attempt_timeout'' \<and> flag a = ''--consumer-startup-attempt-timeout'') consumer_args"
  "list_ex (\<lambda>a. arg_field a = ''consumer_startup_deadline'' \<and> flag a = ''--consumer-startup-deadline'') consumer_args"
  "list_ex (\<lambda>a. arg_field a = ''consumer_startup_initial_backoff'' \<and> flag a = ''--consumer-startup-initial-backoff'') consumer_args"
  "list_ex (\<lambda>a. arg_field a = ''consumer_startup_max_backoff'' \<and> flag a = ''--consumer-startup-max-backoff'') consumer_args"
  "list_ex (\<lambda>a. arg_field a = ''consumer_coordinator_retry_timeout'' \<and> flag a = ''--consumer-coordinator-retry-timeout'') consumer_args"
  "list_ex (\<lambda>a. arg_field a = ''consumer_coordinator_initial_backoff'' \<and> flag a = ''--consumer-coordinator-initial-backoff'') consumer_args"
  "list_ex (\<lambda>a. arg_field a = ''consumer_coordinator_max_backoff'' \<and> flag a = ''--consumer-coordinator-max-backoff'') consumer_args"
  "list_ex (\<lambda>a. arg_field a = ''consumer_fetch_min'' \<and> flag a = ''--consumer-fetch-min'') consumer_args"
  "list_ex (\<lambda>a. arg_field a = ''consumer_fetch_max'' \<and> flag a = ''--consumer-fetch-max'') consumer_args"
  "list_ex (\<lambda>a. arg_field a = ''consumer_fetch_partition_max'' \<and> flag a = ''--consumer-fetch-partition-max'') consumer_args"
  "list_ex (\<lambda>a. arg_field a = ''consumer_session_timeout'' \<and> flag a = ''--consumer-session-timeout'') consumer_args"
  "list_ex (\<lambda>a. arg_field a = ''consumer_rebalance_timeout'' \<and> flag a = ''--consumer-rebalance-timeout'') consumer_args"
  "list_ex (\<lambda>a. arg_field a = ''consumer_heartbeat_interval'' \<and> flag a = ''--consumer-heartbeat-interval'') consumer_args"
  "list_ex (\<lambda>a. arg_field a = ''consumer_request_timeout'' \<and> flag a = ''--consumer-request-timeout'') consumer_args"
  "list_ex (\<lambda>a. arg_field a = ''consumer_auto_offset_reset'' \<and> flag a = ''--consumer-auto-offset-reset'') consumer_args"
  "list_ex (\<lambda>a. arg_field a = ''consumer_isolation_level'' \<and> flag a = ''--consumer-isolation-level'') consumer_args"
  "list_ex (\<lambda>a. arg_field a = ''consumer_assignor'' \<and> flag a = ''--consumer-assignor'') consumer_args"
  "list_ex (\<lambda>a. arg_field a = ''streams_broker_dns_timeout'' \<and> flag a = ''--streams-broker-dns-timeout'') streams_args"
  "list_ex (\<lambda>a. arg_field a = ''streams_poll_interval'' \<and> flag a = ''--streams-poll-interval'') streams_args"
  "list_ex (\<lambda>a. arg_field a = ''streams_commit_interval'' \<and> flag a = ''--streams-commit-interval'') streams_args"
  "list_ex (\<lambda>a. arg_field a = ''streams_rebalance_timeout'' \<and> flag a = ''--streams-rebalance-timeout'') streams_args"
  "list_ex (\<lambda>a. arg_field a = ''streams_leave_heartbeat_timeout'' \<and> flag a = ''--streams-leave-heartbeat-timeout'') streams_args"
  "list_ex (\<lambda>a. arg_field a = ''streams_join_retry_backoff'' \<and> flag a = ''--streams-join-retry-backoff'') streams_args"
  "list_ex (\<lambda>a. arg_field a = ''streams_interactive_query_queue_capacity'' \<and> flag a = ''--streams-interactive-query-queue-capacity'') streams_args"
  "list_ex (\<lambda>a. arg_field a = ''streams_state_store_cache_max'' \<and> flag a = ''--streams-state-store-cache-max'') streams_args"
  "list_ex (\<lambda>a. arg_field a = ''streams_fetch_min'' \<and> flag a = ''--streams-fetch-min'') streams_args"
  by code_simp+

definition any_given :: "arg list \<Rightarrow> (string \<Rightarrow> string option) \<Rightarrow> bool" where
  "any_given args found \<longleftrightarrow> list_ex (\<lambda>a. found (arg_field a) \<noteq> None) args"

section \<open>Refusals\<close>

text \<open>
  The error says which of the given options is in the way: its message begins with the option's flag,
  may show its value, and ends with the role the option needs.
\<close>

definition names_option :: "arg list \<Rightarrow> (string \<Rightarrow> string option) \<Rightarrow> role \<Rightarrow> io_error \<Rightarrow> bool" where
  "names_option args found owner e \<longleftrightarrow>
     list_ex (\<lambda>a. found (arg_field a) \<noteq> None \<and>
       (\<exists>shown. e = InvalidInput (flag a @ shown @ '' is only valid with --role '' @ role_name owner) \<and>
          (shown = [] \<or> (\<exists>v. shown = '' ('' @ v @ '')'')))) args"

lemma names_given:
  assumes "list_ex (\<lambda>a. arg_field a = n \<and> flag a = f) args" and "found n \<noteq> None"
  shows "names_option args found owner (only_valid_with f v owner)"
    and "names_option args found owner (InvalidInput (f @ '' is only valid with --role '' @ role_name owner))"
proof -
  obtain a where a: "a \<in> set args" "arg_field a = n" "flag a = f"
    using assms(1) by (auto simp: list_ex_iff)
  have "only_valid_with f v owner =
      InvalidInput (flag a @ ('' ('' @ v @ '')'') @ '' is only valid with --role '' @ role_name owner)"
    by (simp add: only_valid_with_def a(3))
  then show "names_option args found owner (only_valid_with f v owner)"
    using a assms(2) unfolding names_option_def list_ex_iff by blast
  have "InvalidInput (f @ '' is only valid with --role '' @ role_name owner) =
      InvalidInput (flag a @ [] @ '' is only valid with --role '' @ role_name owner)"
    by (simp add: a(3))
  then show "names_option args found owner (InvalidInput (f @ '' is only valid with --role '' @ role_name owner))"
    using a assms(2) unfolding names_option_def list_ex_iff by blast
qed

text \<open>A check that passes exactly when \<open>ok\<close>, and otherwise fails with an error \<open>N\<close> describes.\<close>

definition gated :: "('e \<Rightarrow> bool) \<Rightarrow> bool \<Rightarrow> ('e + 'a) option \<Rightarrow> bool" where
  "gated N ok r = (case r of None \<Rightarrow> False | Some (Inl e) \<Rightarrow> N e \<and> \<not> ok | Some (Inr _) \<Rightarrow> ok)"

lemma gated_simps [simp]:
  "gated N ok (Some (Inr x)) \<longleftrightarrow> ok" "gated N ok (Some (Inl e)) \<longleftrightarrow> N e \<and> \<not> ok"
  by (simp_all add: gated_def)

lemma gated_try:
  assumes "gated N g r" and "\<And>x. gated N h (f x)"
  shows "gated N (g \<and> h) (try_res r f)"
proof (cases r)
  case (Some y)
  show ?thesis
  proof (cases y)
    case (Inr x)
    then show ?thesis using assms(1) assms(2) [of x] Some by (auto simp: gated_def split: option.splits sum.splits)
  qed (use assms(1) Some in simp)
qed (use assms(1) in \<open>simp add: gated_def\<close>)

lemma gated_bind:
  "gated N g (Some r) \<Longrightarrow> (\<And>x. gated N h (Some (f x))) \<Longrightarrow> gated N (g \<and> h) (Some (bind_res r f))"
  using gated_try [of N g "Some r" h "\<lambda>x. Some (f x)"] by (cases r) simp_all

text \<open>An option with a library default, and the first of several.\<close>

lemma gated_one:
  assumes "list_ex (\<lambda>a. arg_field a = n \<and> flag a = f) args" and "v \<noteq> None \<longleftrightarrow> found n \<noteq> None"
    and "role c \<noteq> owner"
  shows "gated (names_option args found owner) (v = None) (Some (case (if role c \<noteq> owner then v else None) of
      Some x \<Rightarrow> Inl (only_valid_with f (show_value x) owner) | None \<Rightarrow> or_default d new v))"
  using names_given(1) [OF assms(1)] assms(2,3) by (cases v) auto

lemma named_field:
  assumes "list_ex (\<lambda>a. arg_field a = n \<and> flag a = f) args" and "w \<noteq> None \<longleftrightarrow> found n \<noteq> None"
    and "Some v = w"
  shows "names_option args found owner (only_valid_with f shown owner)"
  using names_given(1) [OF assms(1)] assms(2,3) by blast

lemma gated_first:
  assumes "\<And>n v. (n, Some v) \<in> set options \<Longrightarrow> N (only_valid_with n (show_value v) owner)"
    and "role c \<noteq> owner" and "list_all (\<lambda>x. snd x = None) options \<Longrightarrow> \<exists>y. r = Inr y"
  shows "gated N (list_all (\<lambda>x. snd x = None) options)
    (Some (case (if role c \<noteq> owner then first_set options else None) of
       Some (name, v) \<Rightarrow> Inl (only_valid_with name (show_value v) owner) | None \<Rightarrow> r))"
proof (cases "first_set options")
  case None
  then have "list_all (\<lambda>x. snd x = None) options" by (force simp: first_set_None list_all_iff)
  then show ?thesis using assms(3) None by auto
next
  case (Some x)
  obtain n v where x: "x = (n, v)" by (cases x)
  have "(n, Some v) \<in> set options" using Some x by (auto simp: first_set_Some)
  then show ?thesis using assms(1,2) Some x by (force simp: list_all_iff)
qed

section \<open>The streams options\<close>

lemma streams_gates:
  assumes "parse_cli U S P found = Some c" and "role c \<noteq> Stream"
  shows
    "gated (names_option streams_args found Stream) (streams_poll_interval c = None \<and> streams_commit_interval c = None) (Some (effective_streams_runtime_cadence U S c))"
    "gated (names_option streams_args found Stream) (streams_broker_dns_timeout c = None) (Some (effective_streams_broker_dns_timeout U S c))"
    "gated (names_option streams_args found Stream) (streams_rebalance_timeout c = None) (Some (effective_streams_rebalance_timeout U S c))"
    "gated (names_option streams_args found Stream) (streams_leave_heartbeat_timeout c = None) (Some (effective_streams_leave_heartbeat_timeout U S c))"
    "gated (names_option streams_args found Stream) (streams_join_retry_backoff c = None) (Some (effective_streams_join_retry_backoff U S c))"
    "gated (names_option streams_args found Stream) (streams_interactive_query_queue_capacity c = None) (Some (effective_streams_interactive_query_queue_capacity S c))"
    "gated (names_option streams_args found Stream) (streams_state_store_cache_max c = None) (Some (effective_streams_state_store_cache_max_bytes U S c))"
    "gated (names_option streams_args found Stream) (streams_fetch_min c = None) (effective_streams_fetch_min U S c)"
proof -
  note named = declared [THEN gated_one]
  note given = options_given [OF assms(1)]
  show "gated (names_option streams_args found Stream) (streams_poll_interval c = None \<and> streams_commit_interval c = None) (Some (effective_streams_runtime_cadence U S c))"
    using assms(2) given(21,22) names_given(1) [OF declared(21)] names_given(1) [OF declared(22)]
    by (cases "streams_poll_interval c"; cases "streams_commit_interval c")
      (auto simp: effective_streams_runtime_cadence_def)
  show "gated (names_option streams_args found Stream) (streams_broker_dns_timeout c = None) (Some (effective_streams_broker_dns_timeout U S c))"
    unfolding stream_option_defs by (rule named(20) [where found = found and c = c and owner = Stream, OF given(20) assms(2)])
  show "gated (names_option streams_args found Stream) (streams_rebalance_timeout c = None) (Some (effective_streams_rebalance_timeout U S c))"
    unfolding stream_option_defs by (rule named(23) [where found = found and c = c and owner = Stream, OF given(23) assms(2)])
  show "gated (names_option streams_args found Stream) (streams_leave_heartbeat_timeout c = None) (Some (effective_streams_leave_heartbeat_timeout U S c))"
    unfolding stream_option_defs by (rule named(24) [where found = found and c = c and owner = Stream, OF given(24) assms(2)])
  show "gated (names_option streams_args found Stream) (streams_join_retry_backoff c = None) (Some (effective_streams_join_retry_backoff U S c))"
    unfolding stream_option_defs by (rule named(25) [where found = found and c = c and owner = Stream, OF given(25) assms(2)])
  show "gated (names_option streams_args found Stream) (streams_interactive_query_queue_capacity c = None) (Some (effective_streams_interactive_query_queue_capacity S c))"
    unfolding stream_option_defs by (rule named(26) [where found = found and c = c and owner = Stream, OF given(26) assms(2)])
  show "gated (names_option streams_args found Stream) (streams_state_store_cache_max c = None) (Some (effective_streams_state_store_cache_max_bytes U S c))"
    unfolding stream_option_defs by (rule named(27) [where found = found and c = c and owner = Stream, OF given(27) assms(2)])
  show "gated (names_option streams_args found Stream) (streams_fetch_min c = None) (effective_streams_fetch_min U S c)"
    using assms(2) given(28) names_given(1) [OF declared(28)]
    by (cases "streams_fetch_min c") (auto simp: effective_streams_fetch_min_def)
qed

lemma streams_refusal:
  assumes "parse_cli U S P found = Some c" and "role c \<noteq> Stream"
    and "client_resource_policy S c = Some limits" and "schema_fetch_retry_policy S c = Inr schema"
  shows "gated (names_option streams_args found Stream) (\<not> any_given streams_args found) (stream_runtime U S c)"
proof -
  have given: "(\<not> any_given streams_args found) \<longleftrightarrow>
      (streams_poll_interval c = None \<and> streams_commit_interval c = None) \<and>
      streams_broker_dns_timeout c = None \<and> streams_rebalance_timeout c = None \<and>
      streams_leave_heartbeat_timeout c = None \<and> streams_join_retry_backoff c = None \<and>
      streams_interactive_query_queue_capacity c = None \<and> streams_state_store_cache_max c = None \<and>
      streams_fetch_min c = None \<and> True"
    unfolding any_given_def streams_args_def list_ex_iff list.set bex_simps arg.sel
    unfolding options_given(20-28) [OF assms(1), symmetric]
    by (simp only: de_Morgan_disj not_not simp_thms conj_ac)
  note gates = streams_gates [OF assms(1,2)]
  obtain q f where l: "client_resource_policy S c = Some (q, f)" using assms(3) by (cases limits) auto
  show ?thesis
    unfolding stream_runtime_def l Option.bind.simps prod.case given assms(4)
    by (rule gated_try gates | simp only: split_def try_res_simps gated_simps)+
qed

section \<open>The consumer options\<close>

text \<open>The libraries accept their own defaults.\<close>

definition defaults_accepted :: "('t, 'f, 'b) units \<Rightarrow> ('t, 'b, 'w, 'en) settings \<Rightarrow> bool" where
  "defaults_accepted U S \<longleftrightarrow>
     (let d = retry_policy_default S in
      retry_policy_new S (startup_attempt_timeout S d) (startup_deadline S d) (startup_initial_backoff S d)
        (startup_max_backoff S d) (coordinator_retry_timeout S d) (coordinator_initial_backoff S d)
        (coordinator_max_backoff S d) = Inr d) \<and>
     (case (fetch_min_try_from S (bytes_of U 1), fetch_max_try_from S (mebibytes U 50),
        partition_max_try_from S (mebibytes U 1)) of
        (Inr mn, Inr mx, Inr pm) \<Rightarrow> bytes_i32 U (fetch_min_size S mn) \<le> bytes_i32 U (fetch_max_size S mx)
      | _ \<Rightarrow> False)"

lemma consumer_first_gates:
  assumes "parse_cli U S P found = Some c" and "role c \<noteq> Consume" and "defaults_accepted U S"
  shows
    "gated (names_option consumer_args found Consume) (list_all (\<lambda>x. snd x = None) (fetch_options c))
      (Some (effective_consumer_fetch_policy U S c))"
    "gated (names_option consumer_args found Consume) (list_all (\<lambda>x. snd x = None) (timing_options c))
      (Some (effective_consumer_timing U c))"
    "gated (names_option consumer_args found Consume) (list_all (\<lambda>x. snd x = None) (retry_options c))
      (Some (effective_consumer_retry_policy U S c))"
proof -
  note given = options_given [OF assms(1)]
  note named = declared [THEN named_field [where found = found]]
  show "gated (names_option consumer_args found Consume) (list_all (\<lambda>x. snd x = None) (fetch_options c))
      (Some (effective_consumer_fetch_policy U S c))"
    unfolding effective_consumer_fetch_policy_def
  proof (rule gated_first [OF _ assms(2)])
    show "names_option consumer_args found Consume (only_valid_with n (size_human U v) Consume)"
      if "(n, Some v) \<in> set (fetch_options c)" for n v
      using that unfolding fetch_options_def list.set insert_iff prod.inject empty_iff
      by (elim disjE conjE FalseE; hypsubst)
        (erule named(10) [OF given(10)], erule named(11) [OF given(11)], erule named(12) [OF given(12)])
    obtain mn mx pm where "fetch_min_try_from S (bytes_of U 1) = Inr mn"
      "fetch_max_try_from S (mebibytes U 50) = Inr mx" "partition_max_try_from S (mebibytes U 1) = Inr pm"
      "bytes_i32 U (fetch_min_size S mn) \<le> bytes_i32 U (fetch_max_size S mx)"
      using assms(3) unfolding defaults_accepted_def by (auto split: sum.splits)
    moreover assume "list_all (\<lambda>x. snd x = None) (fetch_options c)"
    then have "consumer_fetch_min c = None" "consumer_fetch_max c = None" "consumer_fetch_partition_max c = None"
      by (simp_all add: fetch_options_def)
    ultimately show "\<exists>y. bind_res (invalid (fetch_min_try_from S (unwrap_or (bytes_of U 1) (consumer_fetch_min c)))) (\<lambda>mn.
          bind_res (invalid (fetch_max_try_from S (unwrap_or (mebibytes U 50) (consumer_fetch_max c)))) (\<lambda>mx.
          if bytes_i32 U (fetch_max_size S mx) < bytes_i32 U (fetch_min_size S mn) then
            Inl (InvalidInput ''consumer fetch min must not exceed consumer fetch max'')
          else
          bind_res (invalid (partition_max_try_from S
            (unwrap_or (mebibytes U 1) (consumer_fetch_partition_max c)))) (\<lambda>pm.
          Inr (fetch_min_size S mn, fetch_max_size S mx, partition_max_size S pm)))) = Inr y"
      by simp
  qed
  show "gated (names_option consumer_args found Consume) (list_all (\<lambda>x. snd x = None) (timing_options c))
      (Some (effective_consumer_timing U c))"
    unfolding effective_consumer_timing_def
  proof (rule gated_first [OF _ assms(2)])
    show "names_option consumer_args found Consume (only_valid_with n (time_human U v) Consume)"
      if "(n, Some v) \<in> set (timing_options c)" for n v
      using that unfolding timing_options_def list.set insert_iff prod.inject empty_iff
      by (elim disjE conjE FalseE; hypsubst)
        (erule named(13) [OF given(13)], erule named(14) [OF given(14)], erule named(15) [OF given(15)], erule named(16) [OF given(16)])
  qed simp
  show "gated (names_option consumer_args found Consume) (list_all (\<lambda>x. snd x = None) (retry_options c))
      (Some (effective_consumer_retry_policy U S c))"
    unfolding effective_consumer_retry_policy_def
  proof (rule gated_first [OF _ assms(2)])
    show "names_option consumer_args found Consume (only_valid_with n (time_human U v) Consume)"
      if "(n, Some v) \<in> set (retry_options c)" for n v
      using that unfolding retry_options_def list.set insert_iff prod.inject empty_iff
      by (elim disjE conjE FalseE; hypsubst)
        (erule named(3) [OF given(3)], erule named(4) [OF given(4)], erule named(5) [OF given(5)], erule named(6) [OF given(6)], erule named(7) [OF given(7)], erule named(8) [OF given(8)], erule named(9) [OF given(9)])
  qed (use assms(3) in \<open>auto simp: retry_options_def defaults_accepted_def Let_def\<close>)
qed

lemma consumer_single_gates:
  assumes "parse_cli U S P found = Some c" and "role c \<noteq> Consume"
  shows
    "gated (names_option consumer_args found Consume) (list_all (\<lambda>x. \<not> snd x) (behavior_options c))
      (Some (effective_consumer_behavior S c))"
    "gated (names_option consumer_args found Consume) (consumer_leave_group_timeout c = None)
      (Some (effective_consumer_leave_group_timeout U S c))"
    "gated (names_option consumer_args found Consume) (consumer_subscription_metadata_refresh_interval c = None)
      (Some (effective_consumer_subscription_metadata_refresh_interval U S c))"
proof -
  note given = options_given [OF assms(1)]
  note named = declared [THEN gated_one]
  show "gated (names_option consumer_args found Consume) (consumer_leave_group_timeout c = None)
      (Some (effective_consumer_leave_group_timeout U S c))"
    unfolding consumer_option_defs
    by (rule named(1) [where found = found and c = c and owner = Consume, OF given(1) assms(2)])
  show "gated (names_option consumer_args found Consume) (consumer_subscription_metadata_refresh_interval c = None)
      (Some (effective_consumer_subscription_metadata_refresh_interval U S c))"
    unfolding consumer_option_defs
    by (rule named(2) [where found = found and c = c and owner = Consume, OF given(2) assms(2)])
  have own: "'' is only valid with --role consume'' = '' is only valid with --role '' @ role_name Consume"
    by simp
  note behavior = names_given(2) [where owner = Consume, folded own]
  show "gated (names_option consumer_args found Consume) (list_all (\<lambda>x. \<not> snd x) (behavior_options c))
      (Some (effective_consumer_behavior S c))"
    using assms(2) given(17-19) behavior [OF declared(17)] behavior [OF declared(18)] behavior [OF declared(19)]
    by (auto simp: effective_consumer_behavior_def behavior_options_def)
qed

lemma consumer_refusal:
  assumes "parse_cli U S P found = Some c" and "role c \<noteq> Consume" and "defaults_accepted U S"
    and "client_resource_policy S c = Some limits" and "schema_fetch_retry_policy S c = Inr schema"
  shows "gated (names_option consumer_args found Consume) (\<not> any_given consumer_args found) (consumer_runtime U S c)"
proof -
  have given: "(\<not> any_given consumer_args found) \<longleftrightarrow>
      list_all (\<lambda>x. snd x = None) (fetch_options c) \<and> list_all (\<lambda>x. snd x = None) (timing_options c) \<and>
      list_all (\<lambda>x. \<not> snd x) (behavior_options c) \<and>
      consumer_leave_group_timeout c = None \<and> consumer_subscription_metadata_refresh_interval c = None \<and>
      list_all (\<lambda>x. snd x = None) (retry_options c) \<and> True"
    unfolding any_given_def consumer_args_def list_ex_iff list.set bex_simps arg.sel
    unfolding options_given(1-19) [OF assms(1), symmetric] fetch_options_def timing_options_def
      behavior_options_def retry_options_def list.pred_inject snd_conv
    by (simp only: de_Morgan_disj not_not simp_thms conj_ac) simp
  note gates = consumer_first_gates [OF assms(1-3)] consumer_single_gates [OF assms(1,2)]
  obtain q f where l: "client_resource_policy S c = Some (q, f)" using assms(4) by (cases limits) auto
  show ?thesis
    unfolding consumer_runtime_def l Option.bind.simps prod.case given assms(5)
    by (rule gated_bind gates | simp only: split_def bind_res_simps gated_simps)+
qed

section \<open>Properties\<close>

lemma parsed_client_policy:
  assumes "parse_cli U S P found = Some c"
    and "revalidates (queue_capacity_new S) (queue_capacity_get S)"
    and "revalidates (frame_max_try_from S) (frame_max_size S)"
  obtains limits where "client_resource_policy S c = Some limits"
proof -
  note parsed = parse_cli_fields [OF assms(1)]
  obtain qs where "parse_client_dispatch_queue_capacity S qs = Inr (client_dispatch_queue_capacity c)"
    using parsed(2) by (auto simp: value_of_Some)
  moreover obtain fs where "parse_client_frame_max U S fs = Inr (client_frame_max c)"
    using parsed(3) by (auto simp: value_of_Some)
  ultimately show thesis using that client_resource_policy_parsed [OF assms(2,3)] by blast
qed

text \<open>
  C10: an option of another role on the command line is refused by its own name. For a parsed line
  whose role is not stream, a given streams option ends the configuration with an error that begins
  with the flag of a given streams option and says that it needs \<open>--role stream\<close>; for a role other
  than consume the same holds of a consumer option, unless the streams settings failed before; and a
  producer is configured exactly when no option of the two other roles was given.
\<close>

theorem foreign_option_named:
  assumes "parse_cli U S P found = Some c"
    and "revalidates (queue_capacity_new S) (queue_capacity_get S)"
    and "revalidates (frame_max_try_from S) (frame_max_size S)"
    and "schema_fetch_retry_policy S c = Inr schema" and "defaults_accepted U S"
  shows "(role c \<noteq> Stream \<and> any_given streams_args found \<longrightarrow>
      (\<exists>e. configure U S c = Some (Inl e) \<and> names_option streams_args found Stream e)) \<and>
    (role c \<noteq> Consume \<and> any_given consumer_args found \<and> (\<exists>sr. stream_runtime U S c = Some (Inr sr)) \<longrightarrow>
      (\<exists>e. configure U S c = Some (Inl e) \<and> names_option consumer_args found Consume e)) \<and>
    (role c = Produce \<longrightarrow>
      ((\<exists>cfg. configure U S c = Some (Inr cfg)) \<longleftrightarrow>
       \<not> any_given streams_args found \<and> \<not> any_given consumer_args found))"
proof -
  obtain limits where l: "client_resource_policy S c = Some limits"
    using parsed_client_policy [OF assms(1-3)] .
  note streams = streams_refusal [OF assms(1) _ l assms(4)]
  note consumer = consumer_refusal [OF assms(1) _ assms(5) l assms(4)]
  have "configure U S c = try_res (stream_runtime U S c) (\<lambda>sr. try_res (consumer_runtime U S c)
      (\<lambda>cr. Some (Inr (limits, schema, sr, cr))))"
    by (simp add: configure_def l assms(4))
  then show ?thesis
    using streams consumer
    by (cases "role c") (auto simp: gated_def try_res_def split: option.splits sum.splits)
qed

definition misplaced_line :: "string \<Rightarrow> string option" where
  "misplaced_line = [''role'' \<mapsto> ''produce'', ''consumer_startup_max_backoff'' \<mapsto> ''500ms'']"

lemma misplaced_parsed:
  "\<exists>c. parse_cli text_units demo_settings text_parsers misplaced_line = Some c \<and> role c = Produce \<and>
     schema_fetch_retry_initial_backoff c = None \<and> schema_fetch_retry_max_backoff c = None"
proof -
  have texts: "text_of text_parsers misplaced_line n =
      (if n = ''role'' then Some ''produce'' else if n = ''consumer_startup_max_backoff'' then Some ''500ms''
       else default_text (queue_default_text text_parsers) n)" for n
    by (simp add: text_of_def misplaced_line_def)
  have frac: "parse_fraction ''0.02'' = Inr (f64_lit (2 / 100))"
  proof -
    have "decimal_text 2 2 = ''0.02''" by code_simp
    then show ?thesis using parse_fraction_decimal [of 2 2] by simp
  qed
  have one: "map_err int_error_text (parse_nonzero_usize ''1'') = Inr 1"
    by (simp add: parse_nonzero_usize_def parse_unsigned_def char_digit_def)
  have rn: "parse_role ''produce'' = Inr Produce" by (simp add: parse_role_name)
  show ?thesis
    by (simp add: parse_cli_def value_of_def given_value_def texts default_texts demo_default_line frac one rn
        parse_non_empty_string_def)
qed

theorem foreign_option_named_witness:
  "\<exists>c shown. parse_cli text_units demo_settings text_parsers misplaced_line = Some c \<and>
     configure text_units demo_settings c = Some (Inl (InvalidInput
       (''--consumer-startup-max-backoff'' @ shown @ '' is only valid with --role consume'')))"
proof -
  obtain c where c: "parse_cli text_units demo_settings text_parsers misplaced_line = Some c" "role c = Produce"
    "schema_fetch_retry_initial_backoff c = None" "schema_fetch_retry_max_backoff c = None"
    using misplaced_parsed by blast
  have r: "revalidates (queue_capacity_new demo_settings) (queue_capacity_get demo_settings)"
    "revalidates (frame_max_try_from demo_settings) (frame_max_size demo_settings)"
    by (simp_all add: revalidates_def demo_settings_def demo_new_def split: if_splits)
  have d: "defaults_accepted text_units demo_settings"
    by (simp add: defaults_accepted_def text_units_def demo_units_def demo_settings_def demo_new_def)
  have s: "schema_fetch_retry_policy demo_settings c = Inr [10, 1000]"
    by (simp add: schema_fetch_retry_policy_def demo_settings_def c(3,4))
  have given: "\<not> any_given streams_args misplaced_line" "any_given consumer_args misplaced_line"
    by (simp_all add: any_given_def misplaced_line_def streams_args_def consumer_args_def)
  obtain limits where l: "client_resource_policy demo_settings c = Some limits"
    using parsed_client_policy [OF c(1) r] .
  have "\<exists>sr. stream_runtime text_units demo_settings c = Some (Inr sr)"
    using streams_refusal [OF c(1) _ l s] c(2) given(1)
    by (auto simp: gated_def split: option.splits sum.splits)
  then obtain e where e: "configure text_units demo_settings c = Some (Inl e)"
    "names_option consumer_args misplaced_line Consume e"
    using foreign_option_named [OF c(1) r s d] c(2) given(2) by auto
  then have "\<exists>shown. e = InvalidInput
      (''--consumer-startup-max-backoff'' @ shown @ '' is only valid with --role consume'')"
    unfolding names_option_def
    by (simp add: misplaced_line_def consumer_args_def flag_def arg_long_def) blast
  with c(1) e(1) show ?thesis by blast
qed

end
