(* ===== verification/Runtime.thy ===== *)
theory Runtime
  imports Metrics Config "HOL-Library.State_Monad" "HOL-Library.Monad_Syntax"
begin

text \<open>
  What the asynchronous code of \<open>main.rs\<close> does besides computing: it reads the clock, sleeps,
  sends records, opens spans, logs, and records metrics. A piece of sequential code is a state
  monad over a \<open>world\<close>: the environment (an arbitrary state \<open>'s\<close> the clock, the timer and the
  broker act on) and the trace of what the code did, in order. The clock, the timer and the producer
  are parameters; \<open>tracing\<close> and \<open>prometheus-client\<close> are sinks, so a call on them is an entry of the
  trace.
\<close>

section \<open>Effects\<close>

text \<open>The value of a span or event field; \<open>F_empty\<close> is \<open>field::Empty\<close> and an absent \<open>Option\<close>.\<close>

datatype field = F_str string | F_f64 f64 | F_int int | F_empty

datatype level = Info | Warn | Error

text \<open>The fields of the client's \<open>ProducerRecord\<close> the code sets; the others keep their defaults.\<close>

record producer_record =
  pr_topic :: string
  pr_key :: "bytes option"
  pr_value :: "bytes option"
  pr_headers :: "header list"

text \<open>
  \<open>Span_open\<close> creates a span with its fields and enters it; \<open>Span_root\<close> does so with \<open>parent: None\<close>;
  \<open>Span_close\<close> leaves the innermost one. \<open>Sent\<close> is one call of the producer with its success.
\<close>

datatype effect =
    Metric metric_call
  | Span_root string "(string \<times> field) list"
  | Span_open string "(string \<times> field) list"
  | Span_close
  | Span_record string field
  | Set_parent "(string \<times> bytes) list"
  | Log level string "(string \<times> field) list"
  | Sent producer_record bool
  | Slept duration

record 's world =
  env :: 's
  trace :: "effect list"

type_synonym ('s, 'a) action = "('s world, 'a) state"

definition emit :: "effect \<Rightarrow> ('s, unit) action" where
  "emit e = State_Monad.update (\<lambda>w. w\<lparr>trace := trace w @ [e]\<rparr>)"

definition metrics :: "metric_call list \<Rightarrow> ('s, unit) action" where
  "metrics cs = State_Monad.update (\<lambda>w. w\<lparr>trace := trace w @ map Metric cs\<rparr>)"

text \<open>A reading of the environment that may move it, such as \<open>Instant::now()\<close>.\<close>

definition external :: "('s \<Rightarrow> 'a \<times> 's) \<Rightarrow> ('s, 'a) action" where
  "external f = State (\<lambda>w. let (a, e) = f (env w) in (a, w\<lparr>env := e\<rparr>))"

record 's timer =
  read_clock :: "'s \<Rightarrow> duration \<times> 's"
  sleep_for :: "duration \<Rightarrow> 's \<Rightarrow> 's"

definition now :: "'s timer \<Rightarrow> ('s, duration) action" where
  "now T = external (read_clock T)"

text \<open>\<open>Instant::elapsed\<close> is zero for a clock that went back.\<close>

definition elapsed_since :: "'s timer \<Rightarrow> duration \<Rightarrow> ('s, duration) action" where
  "elapsed_since T start = do { t \<leftarrow> now T; State_Monad.return (t - start) }"

definition sleep :: "'s timer \<Rightarrow> duration \<Rightarrow> ('s, unit) action" where
  "sleep T d = do { external (\<lambda>e. ((), sleep_for T d e)); emit (Slept d) }"

section \<open>Running the actions\<close>

lemma env_trace_update [simp]:
  "env_update f (trace_update g w) = trace_update g (env_update f w)"
  by (cases w) simp

lemma run_emit [simp]: "run_state (emit e) w = ((), w\<lparr>trace := trace w @ [e]\<rparr>)"
  by (simp add: emit_def State_Monad.update_def State_Monad.set_def)

lemma run_metrics [simp]: "run_state (metrics cs) w = ((), w\<lparr>trace := trace w @ map Metric cs\<rparr>)"
  by (simp add: metrics_def State_Monad.update_def State_Monad.set_def)

lemma run_external:
  "run_state (external f) w = (fst (f (env w)), w\<lparr>env := snd (f (env w))\<rparr>)"
  by (simp add: external_def split: prod.split)

lemma run_sleep [simp]:
  "run_state (sleep T d) w =
     ((), w\<lparr>env := sleep_for T d (env w), trace := trace w @ [Slept d]\<rparr>)"
  by (simp add: sleep_def run_external)

lemma run_now [simp]:
  "run_state (now T) w = (fst (read_clock T (env w)), w\<lparr>env := snd (read_clock T (env w))\<rparr>)"
  by (simp add: now_def run_external)

lemma run_elapsed [simp]:
  "run_state (elapsed_since T start) w =
     (fst (read_clock T (env w)) - start, w\<lparr>env := snd (read_clock T (env w))\<rparr>)"
  by (simp add: elapsed_since_def)

section \<open>Reading a trace\<close>

fun calls :: "effect list \<Rightarrow> metric_call list" where
  "calls [] = []"
| "calls (Metric c # es) = c # calls es"
| "calls (_ # es) = calls es"

fun sends :: "effect list \<Rightarrow> (producer_record \<times> bool) list" where
  "sends [] = []"
| "sends (Sent r ok # es) = (r, ok) # sends es"
| "sends (_ # es) = sends es"

fun sleeps :: "effect list \<Rightarrow> duration list" where
  "sleeps [] = []"
| "sleeps (Slept d # es) = d # sleeps es"
| "sleeps (_ # es) = sleeps es"

text \<open>How many spans a trace leaves open, when it closes none it did not open.\<close>

fun span_depth :: "nat \<Rightarrow> effect list \<Rightarrow> nat option" where
  "span_depth n [] = Some n"
| "span_depth n (Span_root _ _ # es) = span_depth (Suc n) es"
| "span_depth n (Span_open _ _ # es) = span_depth (Suc n) es"
| "span_depth n (Span_close # es) = (case n of 0 \<Rightarrow> None | Suc k \<Rightarrow> span_depth k es)"
| "span_depth n (_ # es) = span_depth n es"

lemma calls_append [simp]: "calls (xs @ ys) = calls xs @ calls ys"
  by (induction xs rule: calls.induct) auto

lemma calls_Metric [simp]: "calls (map Metric cs) = cs"
  by (induction cs) auto

lemma sends_append [simp]: "sends (xs @ ys) = sends xs @ sends ys"
  by (induction xs rule: sends.induct) auto

lemma sends_Metric [simp]: "sends (map Metric cs) = []"
  by (induction cs) auto

lemma sleeps_append [simp]: "sleeps (xs @ ys) = sleeps xs @ sleeps ys"
  by (induction xs rule: sleeps.induct) auto

lemma sleeps_Metric [simp]: "sleeps (map Metric cs) = []"
  by (induction cs) auto

lemma span_depth_append:
  "span_depth n (xs @ ys) = Option.bind (span_depth n xs) (\<lambda>k. span_depth k ys)"
  by (induction n xs rule: span_depth.induct) (auto split: nat.split)

lemma span_depth_Metric [simp]: "span_depth n (map Metric cs) = Some n"
  by (induction cs) auto

end
