(* ===== verification/Publish.thy ===== *)
theory Publish
  imports Runtime Scheduler
begin

text \<open>
  \<open>crates/observability-demo-app/src/main.rs\<close>, the producer's delivery: \<open>publish_order\<close> with its
  span, headers and metrics, and the retry loop \<open>send_with_retry\<close>. The producer's \<open>send\<close>
  (\<open>transmit\<close>), the display of its error, the trace context of the current span and the clock are
  parameters.
\<close>

section \<open>The retry loop\<close>

fun retry_attempts ::
  "('e \<Rightarrow> string) \<Rightarrow> ('s, 'e + 'm) action \<Rightarrow> nat list \<Rightarrow> ('s, bool) action" where
  "retry_attempts err_text send [] = State_Monad.return False"
| "retry_attempts err_text send (attempt # rest) = do {
     r \<leftarrow> send;
     case r of
       Inr _ \<Rightarrow> State_Monad.return True
     | Inl e \<Rightarrow> do {
         metrics (record_error Producer_send);
         emit (Log Warn ''producer send failed; retrying''
           [(''attempt'', F_int (int attempt)), (''error'', F_str (err_text e))]);
         retry_attempts err_text send rest } }"

definition send_with_retry ::
  "('e \<Rightarrow> string) \<Rightarrow> ('s, 'e + 'm) action \<Rightarrow> ('s, bool) action" where
  "send_with_retry err_text send = retry_attempts err_text send [1..<4]"

section \<open>Publishing an order\<close>

text \<open>One call of the producer, noted in the trace.\<close>

definition send_record ::
  "(producer_record \<Rightarrow> 's \<Rightarrow> ('e + 'm) \<times> 's) \<Rightarrow> producer_record \<Rightarrow> ('s, 'e + 'm) action" where
  "send_record transmit r = do {
     result \<leftarrow> external (transmit r);
     emit (Sent r (is_ok result));
     State_Monad.return result }"

definition produce_fields :: "string \<Rightarrow> order \<Rightarrow> (string \<times> field) list" where
  "produce_fields topic ord =
     [(''otel.kind'', F_str ''producer''),
      (''otel.name'', F_str ''orders publish''),
      (''messaging.system'', F_str ''kafka''),
      (''messaging.destination.name'', F_str topic),
      (''messaging.operation'', F_str ''publish''),
      (''demo.order.id'', F_str (order_id ord)),
      (''demo.order.category'', F_str (category ord)),
      (''demo.order.region'', F_str (region ord)),
      (''demo.order.warehouse'', F_str (warehouse ord)),
      (''demo.order.payment_method'', F_str (payment_method ord)),
      (''demo.order.customer_tier'', F_str (customer_tier ord)),
      (''demo.order.amount'', F_f64 (amount ord)),
      (''demo.order.quantity'', F_int (sint (quantity ord))),
      (''otel.status_code'', F_empty)]"

definition order_record ::
  "(string \<times> string) list \<Rightarrow> string \<Rightarrow> bytes \<Rightarrow> order \<Rightarrow> producer_record" where
  "order_record trace_headers topic value ord =
     \<lparr>pr_topic = topic, pr_key = Some (string_bytes (category ord)), pr_value = Some value,
      pr_headers = order_headers trace_headers ord\<rparr>"

text \<open>
  \<open>publish_order\<close>; \<open>trace_headers\<close> is what \<open>current_trace_headers\<close> answers inside the span.
\<close>

definition publish_order ::
  "('t, 'f, 'b) units \<Rightarrow> 's timer \<Rightarrow> ('e \<Rightarrow> string) \<Rightarrow>
   (producer_record \<Rightarrow> 's \<Rightarrow> ('e + 'm) \<times> 's) \<Rightarrow> (string \<times> string) list \<Rightarrow>
   order \<Rightarrow> string \<Rightarrow> bytes \<Rightarrow> ('s, bool) action" where
  "publish_order U T err_text transmit trace_headers ord topic value = do {
     emit (Span_root ''produce_order'' (produce_fields topic ord));
     (if is_anomalous ord
      then emit (Log Warn ''anomalous zero-amount order'' [(''order_id'', F_str (order_id ord))])
      else State_Monad.return ());
     start \<leftarrow> now T;
     delivered \<leftarrow> send_with_retry err_text
       (send_record transmit (order_record trace_headers topic value ord));
     (if \<not> delivered then do {
        emit (Span_record ''otel.status_code'' (F_str ''ERROR''));
        emit (Log Error ''producer send failed after three attempts'' []) }
      else do {
        elapsed \<leftarrow> elapsed_since T start;
        metrics (record_produced (secs_f64 U) (category ord) (region ord) (payment_method ord)
          (amount ord) (from_std U elapsed)) });
     emit Span_close;
     State_Monad.return delivered }"

section \<open>What the retry loop does\<close>

lemma run_send_record:
  "run_state (send_record transmit r) w =
     (fst (transmit r (env w)),
      w\<lparr>env := snd (transmit r (env w)), trace := trace w @ [Sent r (is_ok (fst (transmit r (env w))))]\<rparr>)"
  by (simp add: send_record_def run_external)

text \<open>The environment after \<open>n\<close> sends of the same record.\<close>

fun env_after :: "(producer_record \<Rightarrow> 's \<Rightarrow> ('e + 'm) \<times> 's) \<Rightarrow> producer_record \<Rightarrow> nat \<Rightarrow> 's \<Rightarrow> 's" where
  "env_after transmit r 0 e = e"
| "env_after transmit r (Suc n) e = env_after transmit r n (snd (transmit r e))"

definition attempt_ok :: "(producer_record \<Rightarrow> 's \<Rightarrow> ('e + 'm) \<times> 's) \<Rightarrow> producer_record \<Rightarrow> 's \<Rightarrow> nat \<Rightarrow> bool" where
  "attempt_ok transmit r e n = is_ok (fst (transmit r (env_after transmit r n e)))"

lemma attempt_ok_Suc [simp]:
  "attempt_ok transmit r e 0 = is_ok (fst (transmit r e))"
  "attempt_ok transmit r e (Suc n) = attempt_ok transmit r (snd (transmit r e)) n"
  by (simp_all add: attempt_ok_def)

definition error_inc :: metric_call where
  "error_inc = Pipeline_errors_inc \<lparr>error_kind = ''producer_send''\<rparr>"

text \<open>
  The trace of the loop over \<open>attempts\<close>, when \<open>k\<close> sends failed first: the failed sends, each with its
  error counted and logged, then the successful one if there was one.
\<close>

definition retry_trace :: "producer_record \<Rightarrow> nat \<Rightarrow> bool \<Rightarrow> effect list \<Rightarrow> bool" where
  "retry_trace r k ok es \<longleftrightarrow>
     sends es = replicate k (r, False) @ (if ok then [(r, True)] else []) \<and>
     calls es = replicate k error_inc \<and>
     (\<forall>n. span_depth n es = Some n) \<and>
     (\<forall>f v. Span_record f v \<notin> set es)"

lemma retry_trace_Nil: "retry_trace r 0 False []"
  by (simp add: retry_trace_def)

lemma retry_trace_ok: "retry_trace r 0 True [Sent r True]"
  by (simp add: retry_trace_def)

lemma retry_trace_failed:
  "retry_trace r k ok es \<Longrightarrow>
   retry_trace r (Suc k) ok (Sent r False # map Metric (record_error Producer_send) @ Log l m fs # es)"
  by (simp add: retry_trace_def call_simps error_inc_def)

lemma retry_attempts_run:
  fixes err_text :: "'e \<Rightarrow> string" and transmit :: "producer_record \<Rightarrow> 's \<Rightarrow> ('e + 'm) \<times> 's"
    and r :: producer_record
  defines "run as w \<equiv> run_state (retry_attempts err_text (send_record transmit r) as) w"
  shows "\<exists>k es. trace (snd (run as w)) = trace w @ es \<and> retry_trace r k (fst (run as w)) es \<and>
    (if fst (run as w) then k < length as \<and> attempt_ok transmit r (env w) k else k = length as) \<and>
    (\<forall>n<k. \<not> attempt_ok transmit r (env w) n)"
proof (induction as arbitrary: w)
  case Nil
  show ?case using retry_trace_Nil by (simp add: run_def)
next
  case (Cons a as)
  show ?case
  proof (cases "fst (transmit r (env w))")
    case (Inr m)
    then have "fst (run (a # as) w)" "trace (snd (run (a # as) w)) = trace w @ [Sent r True]"
      by (simp_all add: run_def run_send_record)
    moreover have "attempt_ok transmit r (env w) 0" using Inr by simp
    ultimately show ?thesis using retry_trace_ok by (intro exI [of _ 0] exI) auto
  next
    case (Inl e)
    define pre where "pre = Sent r False # map Metric (record_error Producer_send) @
      [Log Warn ''producer send failed; retrying'' [(''attempt'', F_int (int a)), (''error'', F_str (err_text e))]]"
    define w' where "w' = w\<lparr>env := snd (transmit r (env w)), trace := trace w @ pre\<rparr>"
    have step: "run (a # as) w = run as w'"
      using Inl by (simp add: run_def run_send_record w'_def pre_def)
    from Cons [of w'] obtain k es where IH: "trace (snd (run as w')) = trace w' @ es"
      "retry_trace r k (fst (run as w')) es"
      "if fst (run as w') then k < length as \<and> attempt_ok transmit r (env w') k else k = length as"
      "\<forall>n<k. \<not> attempt_ok transmit r (env w') n"
      by blast
    have "retry_trace r (Suc k) (fst (run as w')) (pre @ es)"
      using retry_trace_failed [OF IH(2)] by (simp add: pre_def)
    moreover have "\<forall>n<Suc k. \<not> attempt_ok transmit r (env w) n"
      using IH(4) Inl by (auto simp: w'_def less_Suc_eq_0_disj)
    ultimately show ?thesis
      using IH(1,3) by (intro exI [of _ "Suc k"] exI [of _ "pre @ es"]) (auto simp: step w'_def)
  qed
qed

lemma send_with_retry_iff:
  fixes transmit :: "producer_record \<Rightarrow> 's \<Rightarrow> ('e + 'm) \<times> 's"
  shows "fst (run_state (send_with_retry err_text (send_record transmit r)) w) \<longleftrightarrow>
    (\<exists>n<3. attempt_ok transmit r (env w) n)"
  using retry_attempts_run [of err_text transmit r "[1..<4]" w]
  by (auto simp: send_with_retry_def split: if_splits)

section \<open>What publishing does\<close>

lemma is_call_error_inc [simp]:
  "is_error_inc error_inc" "\<not> is_produced_inc error_inc"
  by (simp_all add: call_kind_defs error_inc_def)

lemma filter_record_produced [simp]:
  "filter is_error_inc (record_produced f cat reg pay v t) = []"
  "filter is_produced_inc (record_produced f cat reg pay v t) =
    [Orders_produced_inc \<lparr>produced_category = cat, produced_region = reg, produced_payment_method = pay\<rparr>]"
  by (simp_all add: call_simps call_kind_defs)

text \<open>The whole trace of a publication, given the retry loop's.\<close>

definition publish_prefix :: "string \<Rightarrow> order \<Rightarrow> effect list" where
  "publish_prefix topic ord =
     Span_root ''produce_order'' (produce_fields topic ord) #
     (if is_anomalous ord
      then [Log Warn ''anomalous zero-amount order'' [(''order_id'', F_str (order_id ord))]] else [])"

definition publish_suffix :: "order \<Rightarrow> metric_call list \<Rightarrow> bool \<Rightarrow> effect list" where
  "publish_suffix ord cs ok =
     (if ok then map Metric cs
      else [Span_record ''otel.status_code'' (F_str ''ERROR''),
            Log Error ''producer send failed after three attempts'' []]) @ [Span_close]"

lemma publish_order_run:
  fixes transmit :: "producer_record \<Rightarrow> 's \<Rightarrow> ('e + 'm) \<times> 's" and w :: "'s world"
    and U :: "('t, 'f, 'b) units" and T :: "'s timer" and err_text :: "'e \<Rightarrow> string"
    and th :: "(string \<times> string) list" and ord :: order and topic :: string and payload :: bytes
  defines "w1 \<equiv> w\<lparr>env := snd (read_clock T (env w)), trace := trace w @ publish_prefix topic ord\<rparr>"
    and "loop \<equiv> send_with_retry err_text (send_record transmit (order_record th topic payload ord))"
    and "pub \<equiv> publish_order U T err_text transmit th ord topic payload"
  shows "fst (run_state pub w) = fst (run_state loop w1)"
    and "\<exists>t. trace (snd (run_state pub w)) = trace (snd (run_state loop w1)) @ publish_suffix ord
      (record_produced (secs_f64 U) (category ord) (region ord) (payment_method ord) (amount ord) t)
      (fst (run_state loop w1))"
proof -
  obtain ok w2 where l: "run_state loop w1 = (ok, w2)" by (cases "run_state loop w1")
  have pre: "run_state pub w = run_state (do {
      delivered \<leftarrow> loop;
      (if \<not> delivered then do {
         emit (Span_record ''otel.status_code'' (F_str ''ERROR''));
         emit (Log Error ''producer send failed after three attempts'' []) }
       else do {
         elapsed \<leftarrow> elapsed_since T (fst (read_clock T (env w)));
         metrics (record_produced (secs_f64 U) (category ord) (region ord) (payment_method ord)
           (amount ord) (from_std U elapsed)) });
      emit Span_close;
      State_Monad.return delivered }) w1"
    by (cases "is_anomalous ord")
      (simp_all add: pub_def publish_order_def loop_def w1_def publish_prefix_def cong: if_cong)
  show "fst (run_state pub w) = fst (run_state loop w1)"
    by (simp add: pre l)
  show "\<exists>t. trace (snd (run_state pub w)) = trace (snd (run_state loop w1)) @ publish_suffix ord
      (record_produced (secs_f64 U) (category ord) (region ord) (payment_method ord) (amount ord) t)
      (fst (run_state loop w1))"
    by (simp add: pre l publish_suffix_def) blast
qed

lemma publish_prefix_reads:
  "sends (publish_prefix topic ord) = []" "calls (publish_prefix topic ord) = []"
  "span_depth n (publish_prefix topic ord) = Some (Suc n)"
  "Span_record f v \<notin> set (publish_prefix topic ord)"
  by (simp_all add: publish_prefix_def)

lemma publish_suffix_reads:
  "sends (publish_suffix ord cs ok) = []"
  "calls (publish_suffix ord cs ok) = (if ok then cs else [])"
  "span_depth (Suc n) (publish_suffix ord cs ok) = Some n"
  "Span_record ''otel.status_code'' (F_str ''ERROR'') \<in> set (publish_suffix ord cs ok) \<longleftrightarrow> \<not> ok"
  by (auto simp: publish_suffix_def span_depth_append)

lemma less_three: "(\<exists>n<3. P n) \<longleftrightarrow> P 0 \<or> P 1 \<or> P (2::nat)"
  by (auto simp: numeral_3_eq_3 numeral_2_eq_2 less_Suc_eq)

lemma publish_order_trace:
  "let r = order_record th topic payload ord;
       (ok, w') = run_state (publish_order U T err_text transmit th ord topic payload) w
   in pr_key r = Some (string_bytes (category ord)) \<and>
     (\<exists>k es. trace w' = trace w @ es \<and>
       sends es = replicate k (r, False) @ (if ok then [(r, True)] else []) \<and>
       (if ok then k < 3 else k = 3) \<and>
       filter is_error_inc (calls es) = replicate k error_inc \<and>
       filter is_produced_inc (calls es) =
         (if ok then [Orders_produced_inc \<lparr>produced_category = category ord,
            produced_region = region ord, produced_payment_method = payment_method ord\<rparr>] else []) \<and>
       span_depth 0 es = Some 0 \<and>
       (Span_record ''otel.status_code'' (F_str ''ERROR'') \<in> set es \<longleftrightarrow> \<not> ok))"
proof -
  define r where "r = order_record th topic payload ord"
  define w1 where "w1 = w\<lparr>env := snd (read_clock T (env w)), trace := trace w @ publish_prefix topic ord\<rparr>"
  define pub where "pub = run_state (publish_order U T err_text transmit th ord topic payload) w"
  note run = publish_order_run [of U T err_text transmit th ord topic payload w, folded w1_def r_def pub_def]
  obtain k es where loop: "trace (snd (run_state (send_with_retry err_text (send_record transmit r)) w1)) = trace w1 @ es"
    "retry_trace r k (fst pub) es" "if fst pub then k < 3 else k = 3"
    using retry_attempts_run [of err_text transmit r "[1..<4]" w1] run(1)
    by (auto simp: send_with_retry_def split: if_splits)
  obtain t where full: "trace (snd pub) = trace w @ (publish_prefix topic ord @ es @ publish_suffix ord
      (record_produced (secs_f64 U) (category ord) (region ord) (payment_method ord) (amount ord) t) (fst pub))"
    (is "_ = _ @ ?full")
    using run loop(1) by (auto simp: w1_def)
  have "\<exists>k es. trace (snd pub) = trace w @ es \<and>
       sends es = replicate k (r, False) @ (if fst pub then [(r, True)] else []) \<and>
       (if fst pub then k < 3 else k = 3) \<and>
       filter is_error_inc (calls es) = replicate k error_inc \<and>
       filter is_produced_inc (calls es) =
         (if fst pub then [Orders_produced_inc \<lparr>produced_category = category ord,
            produced_region = region ord, produced_payment_method = payment_method ord\<rparr>] else []) \<and>
       span_depth 0 es = Some 0 \<and>
       (Span_record ''otel.status_code'' (F_str ''ERROR'') \<in> set es \<longleftrightarrow> \<not> fst pub)"
    using full loop(2,3)
    by (intro exI [of _ k] exI [of _ ?full])
      (auto simp: retry_trace_def publish_prefix_reads publish_suffix_reads span_depth_append filter_replicate)
  then show ?thesis
    by (simp add: r_def [symmetric] pub_def [symmetric] split_beta)
      (simp add: r_def order_record_def)
qed

section \<open>Properties\<close>

text \<open>
  C5: one publication, for every order, producer, clock and state: it makes at most three sends,
  all of the one record keyed by the order's category, and stops at the first success; it counts one
  \<open>producer_send\<close> error per failed send, also when a later one succeeds, and one produced order
  with the order's labels exactly when it succeeds; the span is closed and marked as an error
  exactly on failure.
\<close>

theorem publish_order_outcome:
  "let r = order_record th topic payload ord;
       (ok, w') = run_state (publish_order U T err_text transmit th ord topic payload) w
   in pr_key r = Some (string_bytes (category ord)) \<and>
     (\<exists>k es. trace w' = trace w @ es \<and>
       sends es = replicate k (r, False) @ (if ok then [(r, True)] else []) \<and>
       (if ok then k < 3 else k = 3) \<and>
       filter is_error_inc (calls es) = replicate k error_inc \<and>
       filter is_produced_inc (calls es) =
         (if ok then [Orders_produced_inc \<lparr>produced_category = category ord,
            produced_region = region ord, produced_payment_method = payment_method ord\<rparr>] else []) \<and>
       span_depth 0 es = Some 0 \<and>
       (Span_record ''otel.status_code'' (F_str ''ERROR'') \<in> set es \<longleftrightarrow> \<not> ok))"
  by (rule publish_order_trace)

text \<open>
  C20: a publication succeeds exactly when one of its first three sends would: no fourth is tried
  and none is given up early.
\<close>

theorem publish_order_succeeds_iff:
  "fst (run_state (publish_order U T err_text transmit th ord topic payload) w) \<longleftrightarrow>
   (let r = order_record th topic payload ord; e = snd (read_clock T (env w))
    in attempt_ok transmit r e 0 \<or> attempt_ok transmit r e 1 \<or> attempt_ok transmit r e 2)"
  by (simp only: publish_order_run(1) send_with_retry_iff less_three)
    (simp add: Let_def)

end
