(* ===== verification/Consumer.thy ===== *)
theory Consumer
  imports Runtime
begin

text \<open>
  \<open>crates/observability-demo-app/src/main.rs\<close>, the traced consumer: \<open>process_order_record\<close> with
  its span and the continued trace, \<open>process_order_inner\<close> with the two input failures,
  \<open>process_decoded_order\<close> with the stages, the outcome metric and the log line, and \<open>stage\<close>. The
  schema codec (\<open>deserialize\<close>), the clock and the timer are parameters. \<^const>\<open>None\<close> is a panic:
  the addition of the injected latency to a stage's work can overflow.
\<close>

section \<open>One stage\<close>

definition stage ::
  "('t, 'f, 'b) units \<Rightarrow> 's timer \<Rightarrow> string \<Rightarrow> duration \<Rightarrow> ('s, unit) action" where
  "stage U T name work = do {
     emit (Span_open ''stage'' [(''otel.name'', F_str name), (''demo.stage'', F_str name)]);
     start \<leftarrow> now T;
     sleep T work;
     elapsed \<leftarrow> elapsed_since T start;
     metrics (record_stage (secs_f64 U) name (from_std U elapsed));
     emit Span_close }"

section \<open>One decoded order\<close>

definition order_fields :: "order \<Rightarrow> (string \<times> field) list" where
  "order_fields ord =
     [(''demo.order.id'', F_str (order_id ord)),
      (''demo.order.category'', F_str (category ord)),
      (''demo.order.region'', F_str (region ord)),
      (''demo.order.warehouse'', F_str (warehouse ord)),
      (''demo.order.payment_method'', F_str (payment_method ord)),
      (''demo.order.customer_tier'', F_str (customer_tier ord)),
      (''demo.order.amount'', F_f64 (amount ord)),
      (''demo.order.quantity'', F_int (sint (quantity ord)))]"

definition stage_works :: "('t, 'f, 'b) units \<Rightarrow> ('p, 't, 'f, 'b, 'en) cli \<Rightarrow> stage_work" where
  "stage_works U c =
     \<lparr>sw_validate = to_std U (validate_work c), sw_enrich = to_std U (enrich_work c),
      sw_fraud_check = to_std U (fraud_check_work c), sw_fulfill = to_std U (fulfill_work c)\<rparr>"

text \<open>The index of a generated order id; anything else counts as index zero.\<close>

definition order_index :: "order \<Rightarrow> u64" where
  "order_index ord =
     (case strip_prefix ''o-'' (order_id ord) of
        None \<Rightarrow> 0
      | Some v \<Rightarrow> (case parse_u64 v of Inl _ \<Rightarrow> 0 | Inr i \<Rightarrow> i))"

definition outcome_log :: "order \<Rightarrow> string \<Rightarrow> effect" where
  "outcome_log ord outcome =
     (if outcome = ''anomalous'' then
        Log Warn ''dropped anomalous zero-amount order'' [(''order_id'', F_str (order_id ord))]
      else if outcome = ''fraud_rejected'' then
        Log Warn ''rejected suspected-fraud order''
          [(''order_id'', F_str (order_id ord)), (''amount'', F_f64 (amount ord)),
           (''payment_method'', F_str (payment_method ord))]
      else
        Log Info ''fulfilled order''
          [(''order_id'', F_str (order_id ord)), (''category'', F_str (category ord)),
           (''region'', F_str (region ord)), (''warehouse'', F_str (warehouse ord))])"

text \<open>The closure \<open>process_order\<close> runs each stage with.\<close>

definition run_stage ::
  "('t, 'f, 'b) units \<Rightarrow> 's timer \<Rightarrow> ('p, 't, 'f, 'b, 'en) cli \<Rightarrow> order \<Rightarrow> string \<Rightarrow>
   's world \<Rightarrow> 's world option" where
  "run_stage U T c ord name w =
     map_option (\<lambda>d. snd (run_state (stage U T name d) w))
       (stage_delay name (stage_works U c) (order_index ord) (slow_order_fraction c))"

definition process_decoded_order ::
  "('t, 'f, 'b) units \<Rightarrow> 's timer \<Rightarrow> ('p, 't, 'f, 'b, 'en) cli \<Rightarrow> order \<Rightarrow> 's world \<Rightarrow>
   's world option" where
  "process_decoded_order U T c ord w =
     (let (start, w1) = run_state (do {
            start \<leftarrow> now T;
            State_Monad.update (\<lambda>w. w\<lparr>trace := trace w @ map (\<lambda>(f, v). Span_record f v) (order_fields ord)\<rparr>);
            State_Monad.return start }) w
      in map_option (\<lambda>(outcome, w2). snd (run_state (do {
            emit (Span_record ''demo.order.outcome'' (F_str outcome));
            elapsed \<leftarrow> elapsed_since T start;
            metrics (record_processed (secs_f64 U) (category ord) (region ord) outcome (from_std U elapsed));
            emit (outcome_log ord outcome) }) w2))
          (process_order ord (run_stage U T c ord) w1))"

section \<open>One record\<close>

record consumer_record =
  rec_partition :: i32
  rec_offset :: i64
  rec_value :: "bytes option"
  rec_headers :: "header list"

definition process_order_inner ::
  "('t, 'f, 'b) units \<Rightarrow> 's timer \<Rightarrow> (string \<Rightarrow> bytes \<Rightarrow> 'e + order) \<Rightarrow> ('e \<Rightarrow> string) \<Rightarrow>
   ('p, 't, 'f, 'b, 'en) cli \<Rightarrow> consumer_record \<Rightarrow> 's world \<Rightarrow> 's world option" where
  "process_order_inner U T deserialize err_text c r w =
     (case decode_order (rec_value r) (deserialize (input_topic c)) of
        Inr ord \<Rightarrow> process_decoded_order U T c ord w
      | Inl MissingValue \<Rightarrow> Some (snd (run_state (do {
            metrics (record_error Missing_value);
            emit (Span_record ''otel.status_code'' (F_str ''ERROR''));
            emit (Log Warn ''order record has no value'' []) }) w))
      | Inl (Deserialize e) \<Rightarrow> Some (snd (run_state (do {
            metrics (record_error Deserialize_failed);
            emit (Span_record ''otel.status_code'' (F_str ''ERROR''));
            emit (Log Error ''failed to deserialize order'' [(''error'', F_str (err_text e))]) }) w)))"

definition option_field :: "string option \<Rightarrow> field" where
  "option_field v = (case v of None \<Rightarrow> F_empty | Some s \<Rightarrow> F_str s)"

definition process_fields :: "string \<Rightarrow> consumer_record \<Rightarrow> (string \<times> field) list" where
  "process_fields topic r =
     [(''otel.kind'', F_str ''consumer''),
      (''otel.name'', F_str ''orders process''),
      (''messaging.system'', F_str ''kafka''),
      (''messaging.source.name'', F_str topic),
      (''messaging.operation'', F_str ''process''),
      (''messaging.kafka.partition'', F_int (sint (rec_partition r))),
      (''messaging.kafka.offset'', F_int (sint (rec_offset r))),
      (''demo.order.id'', F_empty), (''demo.order.category'', F_empty),
      (''demo.order.region'', F_empty), (''demo.order.warehouse'', F_empty),
      (''demo.order.payment_method'', F_empty), (''demo.order.customer_tier'', F_empty),
      (''demo.order.amount'', F_empty), (''demo.order.quantity'', F_empty),
      (''demo.order.outcome'', F_empty),
      (''demo.header.region'', option_field (header_value (rec_headers r) ''x-demo-region'')),
      (''demo.header.tier'', option_field (header_value (rec_headers r) ''x-demo-tier'')),
      (''otel.status_code'', F_empty)]"

text \<open>
  \<open>continue_trace\<close> sets the parent of the span just created; the entry \<open>Set_parent\<close> is about the
  innermost span.
\<close>

definition process_order_record ::
  "('t, 'f, 'b) units \<Rightarrow> 's timer \<Rightarrow> (string \<Rightarrow> bytes \<Rightarrow> 'e + order) \<Rightarrow> ('e \<Rightarrow> string) \<Rightarrow>
   ('p, 't, 'f, 'b, 'en) cli \<Rightarrow> consumer_record \<Rightarrow> 's world \<Rightarrow> 's world option" where
  "process_order_record U T deserialize err_text c r w =
     (let w1 = snd (run_state
            (continue_trace (\<lambda>span pairs. do { span; emit (Set_parent pairs) })
              (emit (Span_open ''process_order'' (process_fields (input_topic c) r)))
              (rec_headers r)) w)
      in map_option (\<lambda>w2. snd (run_state (emit Span_close) w2))
           (process_order_inner U T deserialize err_text c r w1))"

section \<open>The index of an order id\<close>

lemma strip_order_prefix [simp]: "strip_prefix ''o-'' (CHR ''o'' # CHR ''-'' # s) = Some s"
  by (simp add: strip_prefix_def)

lemma order_index_order_at: "order_id ord = order_id (order_at i) \<Longrightarrow> order_index ord = i"
  by (simp add: order_index_def parse_u64_padded)

text \<open>The generator's ids are an encoding of the index.\<close>

interpretation order_ids: codec "\<lambda>i. order_id (order_at i)"
  "\<lambda>s. Option.bind (strip_prefix ''o-'' s) (\<lambda>v. case parse_u64 v of Inl _ \<Rightarrow> None | Inr i \<Rightarrow> Some i)"
  id "\<lambda>_. True"
  by unfold_locales (simp add: parse_u64_padded)

section \<open>What processing does\<close>

fun observed_stages :: "metric_call list \<Rightarrow> string list" where
  "observed_stages [] = []"
| "observed_stages (Stage_latency_observe l _ # cs) = stage_name l # observed_stages cs"
| "observed_stages (_ # cs) = observed_stages cs"

definition is_count :: "metric_call \<Rightarrow> bool" where
  "is_count c \<longleftrightarrow> is_processed_inc c \<or> is_error_inc c"

lemma is_count_simps [simp]:
  "is_count (Orders_processed_inc l)" "is_count (Pipeline_errors_inc k)"
  "\<not> is_count (Stage_latency_observe s t)" "\<not> is_count (Processing_latency_observe t)"
  by (simp_all add: is_count_def call_kind_defs)

lemma observed_stages_append [simp]:
  "observed_stages (xs @ ys) = observed_stages xs @ observed_stages ys"
  by (induction xs rule: observed_stages.induct) auto

text \<open>
  The trace of the stages \<open>ns\<close>, slept \<open>D\<close> each: one observation per stage in order, no record
  counted, every span closed.
\<close>

definition stages_trace :: "string list \<Rightarrow> (string \<Rightarrow> duration) \<Rightarrow> effect list \<Rightarrow> bool" where
  "stages_trace ns D es \<longleftrightarrow>
     observed_stages (calls es) = ns \<and> sleeps es = map D ns \<and> filter is_count (calls es) = [] \<and>
     (\<forall>n. span_depth n es = Some n)"

lemma run_stage_trace:
  assumes "stage_delay name (stage_works U c) (order_index ord) (slow_order_fraction c) = Some d"
  shows "\<exists>w' es. run_stage U T c ord name w = Some w' \<and> trace w' = trace w @ es \<and>
    stages_trace [name] (\<lambda>_. d) es"
  using assms
  by (simp add: run_stage_def stage_def call_simps stages_trace_def is_count_def call_kind_defs)

lemma stages_trace_Cons:
  "stages_trace [n] (\<lambda>_. D n) es \<Longrightarrow> stages_trace ns D fs \<Longrightarrow> stages_trace (n # ns) D (es @ fs)"
  by (simp add: stages_trace_def span_depth_append)

lemma run_stages_trace:
  assumes "\<forall>n \<in> set ns. stage_delay n (stage_works U c) (order_index ord) (slow_order_fraction c) = Some (D n)"
  shows "\<exists>w' es. run_stages (run_stage U T c ord) ns w = Some w' \<and> trace w' = trace w @ es \<and>
    stages_trace ns D es"
  using assms
proof (induction ns arbitrary: w)
  case Nil
  show ?case by (simp add: stages_trace_def)
next
  case (Cons n ns)
  obtain w1 es where 1: "run_stage U T c ord n w = Some w1" "trace w1 = trace w @ es"
    "stages_trace [n] (\<lambda>_. D n) es"
    using run_stage_trace Cons.prems by (metis list.set_intros(1))
  obtain w2 fs where 2: "run_stages (run_stage U T c ord) ns w1 = Some w2" "trace w2 = trace w1 @ fs"
    "stages_trace ns D fs"
    using Cons.IH [of w1] Cons.prems by (metis list.set_intros(2))
  show ?case using 1 2 stages_trace_Cons [OF 1(3) 2(3)] by auto
qed

text \<open>The delay of each stage, when the configured work leaves room for the injected latency.\<close>

definition work_fits :: "('t, 'f, 'b) units \<Rightarrow> ('p, 't, 'f, 'b, 'en) cli \<Rightarrow> bool" where
  "work_fits U c \<longleftrightarrow>
     list_all (\<lambda>n. stage_base n (stage_works U c) + 30000000 \<le> duration_max) STAGES"

lemma work_fits_iff:
  "work_fits U c \<longleftrightarrow> list_all (\<lambda>t. to_std U t + 30000000 \<le> duration_max)
     [validate_work c, enrich_work c, fraud_check_work c, fulfill_work c]"
  by (simp add: work_fits_def STAGES_def stage_base_def stage_works_def)

lemma stage_sleeps:
  "map (\<lambda>n. stage_base n (stage_works U c) + x) STAGES =
   map (\<lambda>t. to_std U t + x) [validate_work c, enrich_work c, fraud_check_work c, fulfill_work c]"
  by (simp add: STAGES_def stage_base_def stage_works_def)

definition injected :: "('p, 't, 'f, 'b, 'en) cli \<Rightarrow> order \<Rightarrow> duration" where
  "injected c ord =
     (if inject_latency (order_index ord) (slow_order_fraction c) then 30000000 else 0)"

lemma stage_delay_fits:
  assumes "work_fits U c" and "n \<in> set STAGES"
  shows "stage_delay n (stage_works U c) (order_index ord) (slow_order_fraction c) =
    Some (stage_base n (stage_works U c) + injected c ord)"
  using assms
  by (auto simp: stage_delay_def injected_def work_fits_def list_all_iff duration_add_def from_millis_def)

text \<open>What a record counts as, and what it sleeps.\<close>

definition record_count ::
  "(string \<Rightarrow> bytes \<Rightarrow> 'e + order) \<Rightarrow> string \<Rightarrow> consumer_record \<Rightarrow> metric_call" where
  "record_count deserialize topic r =
     (case rec_value r of
        None \<Rightarrow> Pipeline_errors_inc \<lparr>error_kind = ''missing_value''\<rparr>
      | Some v \<Rightarrow>
          (case deserialize topic v of
             Inl _ \<Rightarrow> Pipeline_errors_inc \<lparr>error_kind = ''deserialize''\<rparr>
           | Inr ord \<Rightarrow> Orders_processed_inc \<lparr>processed_category = category ord,
               processed_region = region ord, processed_outcome = classify_outcome ord\<rparr>))"

lemma calls_records [simp]: "calls (map (\<lambda>(f, v). Span_record f v) xs) = []"
  by (induction xs) auto

lemma sleeps_records [simp]: "sleeps (map (\<lambda>(f, v). Span_record f v) xs) = []"
  by (induction xs) auto

lemma span_depth_records [simp]: "span_depth n (map (\<lambda>(f, v). Span_record f v) xs) = Some n"
  by (induction xs) auto

lemma outcome_log_reads [simp]:
  "calls (outcome_log ord outcome # es) = calls es"
  "sleeps (outcome_log ord outcome # es) = sleeps es"
  "span_depth n (outcome_log ord outcome # es) = span_depth n es"
  by (simp_all add: outcome_log_def)

definition decoded_trace ::
  "('t, 'f, 'b) units \<Rightarrow> ('p, 't, 'f, 'b, 'en) cli \<Rightarrow> order \<Rightarrow> effect list \<Rightarrow> bool" where
  "decoded_trace U c ord es \<longleftrightarrow>
     observed_stages (calls es) = STAGES \<and>
     sleeps es = map (\<lambda>n. stage_base n (stage_works U c) + injected c ord) STAGES \<and>
     filter is_count (calls es) = [Orders_processed_inc \<lparr>processed_category = category ord,
        processed_region = region ord, processed_outcome = classify_outcome ord\<rparr>] \<and>
     outcome_log ord (classify_outcome ord) \<in> set es \<and>
     (\<forall>n. span_depth n es = Some n)"

lemma run_state_update [simp]: "run_state (State_Monad.update f) w = ((), f w)"
  by (simp add: State_Monad.update_def State_Monad.set_def)

lemma process_decoded_trace:
  assumes "work_fits U c"
  shows "\<exists>w' es. process_decoded_order U T c ord w = Some w' \<and> trace w' = trace w @ es \<and>
    decoded_trace U c ord es"
proof -
  define w1 where "w1 = w\<lparr>env := snd (read_clock T (env w)),
    trace := trace w @ map (\<lambda>(f, v). Span_record f v) (order_fields ord)\<rparr>"
  obtain w2 es where 2: "run_stages (run_stage U T c ord) STAGES w1 = Some w2" "trace w2 = trace w1 @ es"
    "stages_trace STAGES (\<lambda>n. stage_base n (stage_works U c) + injected c ord) es"
    using run_stages_trace [of STAGES U c ord _ T w1, OF ballI, OF stage_delay_fits [OF assms]] by blast
  have "\<exists>w' t. process_decoded_order U T c ord w = Some w' \<and>
      trace w' = trace w2 @ Span_record ''demo.order.outcome'' (F_str (classify_outcome ord)) #
        map Metric (record_processed (secs_f64 U) (category ord) (region ord) (classify_outcome ord) t) @
        [outcome_log ord (classify_outcome ord)]"
    using 2(1) by (simp add: process_decoded_order_def process_order_def w1_def) blast
  then show ?thesis
    using 2(2,3)
    by (auto simp: w1_def decoded_trace_def stages_trace_def span_depth_append call_simps)
qed

text \<open>The decoded order of a record, if it has one.\<close>

definition decoded :: "(string \<Rightarrow> bytes \<Rightarrow> 'e + order) \<Rightarrow> string \<Rightarrow> consumer_record \<Rightarrow> order option" where
  "decoded deserialize topic r =
     (case decode_order (rec_value r) (deserialize topic) of Inl _ \<Rightarrow> None | Inr ord \<Rightarrow> Some ord)"

definition record_trace ::
  "('t, 'f, 'b) units \<Rightarrow> (string \<Rightarrow> bytes \<Rightarrow> 'e + order) \<Rightarrow> ('p, 't, 'f, 'b, 'en) cli \<Rightarrow>
   consumer_record \<Rightarrow> effect list \<Rightarrow> bool" where
  "record_trace U deserialize c r es \<longleftrightarrow>
     filter is_count (calls es) = [record_count deserialize (input_topic c) r] \<and>
     span_depth 0 es = Some 0 \<and>
     (case decoded deserialize (input_topic c) r of
        None \<Rightarrow> sleeps es = [] \<and> observed_stages (calls es) = [] \<and>
          Span_record ''otel.status_code'' (F_str ''ERROR'') \<in> set es
      | Some ord \<Rightarrow> observed_stages (calls es) = STAGES \<and>
          sleeps es = map (\<lambda>n. stage_base n (stage_works U c) + injected c ord) STAGES \<and>
          outcome_log ord (classify_outcome ord) \<in> set es)"

text \<open>The part of the trace inside the record's span.\<close>

lemma process_inner_trace:
  assumes "work_fits U c"
  shows "\<exists>w' es. process_order_inner U T deserialize err_text c r w = Some w' \<and>
    trace w' = trace w @ es \<and>
    filter is_count (calls es) = [record_count deserialize (input_topic c) r] \<and>
    (\<forall>n. span_depth n es = Some n) \<and>
    (case decoded deserialize (input_topic c) r of
       None \<Rightarrow> sleeps es = [] \<and> observed_stages (calls es) = [] \<and>
         Span_record ''otel.status_code'' (F_str ''ERROR'') \<in> set es
     | Some ord \<Rightarrow> decoded_trace U c ord es)"
proof (cases "decode_order (rec_value r) (deserialize (input_topic c))")
  case (Inr ord)
  obtain w' es where p: "process_decoded_order U T c ord w = Some w'" "trace w' = trace w @ es"
    "decoded_trace U c ord es"
    using process_decoded_trace [OF assms] by metis
  have "record_count deserialize (input_topic c) r = Orders_processed_inc
      \<lparr>processed_category = category ord, processed_region = region ord,
       processed_outcome = classify_outcome ord\<rparr>"
    using Inr by (cases "rec_value r") (auto simp: record_count_def decode_order_def)
  then show ?thesis
    using p Inr by (auto simp: process_order_inner_def decoded_def decoded_trace_def)
next
  case (Inl e)
  then show ?thesis
    by (cases "rec_value r"; cases "deserialize (input_topic c) (the (rec_value r))")
      (auto simp: process_order_inner_def decoded_def record_count_def decode_order_def call_simps)
qed

lemma process_record_trace:
  assumes "work_fits U c"
  shows "\<exists>w' es. process_order_record U T deserialize err_text c r w = Some w' \<and>
    trace w' = trace w @ es \<and> record_trace U deserialize c r es"
proof -
  define pre where "pre = [Span_open ''process_order'' (process_fields (input_topic c) r),
    Set_parent (trace_pairs (rec_headers r))]"
  obtain w' es where p: "process_order_inner U T deserialize err_text c r (w\<lparr>trace := trace w @ pre\<rparr>) = Some w'"
    "trace w' = trace w @ pre @ es"
    "filter is_count (calls es) = [record_count deserialize (input_topic c) r]"
    "\<forall>n. span_depth n es = Some n"
    "case decoded deserialize (input_topic c) r of
       None \<Rightarrow> sleeps es = [] \<and> observed_stages (calls es) = [] \<and>
         Span_record ''otel.status_code'' (F_str ''ERROR'') \<in> set es
     | Some ord \<Rightarrow> decoded_trace U c ord es"
    using process_inner_trace [OF assms, of T deserialize err_text r "w\<lparr>trace := trace w @ pre\<rparr>"] by auto
  have "process_order_record U T deserialize err_text c r w = Some (w'\<lparr>trace := trace w' @ [Span_close]\<rparr>)"
    using p(1) by (simp add: process_order_record_def continue_trace_def pre_def)
  moreover have "record_trace U deserialize c r (pre @ es @ [Span_close])"
    using p(3-5)
    by (auto simp: record_trace_def pre_def decoded_trace_def span_depth_append split: option.splits)
  ultimately show ?thesis using p(2) by (intro exI conjI) auto
qed

section \<open>Properties\<close>

text \<open>
  C27: the consumer recovers the index of every generated order from its identifier, and two orders
  share an identifier only if they are the same one.
\<close>

theorem order_index_recovered:
  "order_index (order_at i) = i \<and> (order_id (order_at i) = order_id (order_at j) \<longleftrightarrow> i = j)"
  using order_index_order_at [OF refl] order_ids.encode_determines [of i j] by auto

end
