(* ===== verification/Consumer_Loop.thy ===== *)
theory Consumer_Loop
  imports Consumer Config_Spec
begin

text \<open>
  \<open>crates/observability-demo-app/src/main.rs\<close>, the loop of \<open>run_consume\<close>: a \<open>select!\<close> between
  \<open>shutdown_signal()\<close> and \<open>consumer.poll\<close>, the records of a batch processed one by one, and the
  close of the consumer. The loop is a state machine over what the runtime delivers.

  \<open>shutdown_signal()\<close> is called anew in every turn. Its first poll registers a listener, and
  dropping the future, when the other branch wins, drops the listener. A listener of \<open>tokio\<close> reports
  the signals delivered after its creation, and from the first registration on the process no longer
  dies of the signal: \<open>installed\<close>, \<open>armed\<close> and \<open>caught\<close> below. Installing the handlers is taken to
  succeed: the panic of \<open>expect("install SIGTERM handler")\<close>, and an error of \<open>ctrl_c\<close>, which would
  end the wait as a signal does, are left out.
\<close>

section \<open>The state\<close>

datatype 'e mode =
    Selecting
  | Handling "consumer_record list"
  | Closing
  | Stopped "'e + unit"
  | Killed
  | Panicked

record ('s, 'e) poll_loop =
  mode :: "'e mode"
  installed :: bool
  armed :: bool
  caught :: bool
  world :: "'s world"
  polled :: "consumer_record list"
  handled :: "consumer_record list"

definition loop_init :: "'s world \<Rightarrow> ('s, 'e) poll_loop" where
  "loop_init w =
     \<lparr>mode = Selecting, installed = False, armed = False, caught = False, world = w,
      polled = [], handled = []\<rparr>"

section \<open>The steps\<close>

text \<open>
  \<open>Signal\<close>: the runtime delivers SIGTERM or SIGINT. \<open>Poll_shutdown\<close> and \<open>Poll_ready\<close>: the
  \<open>select!\<close> polls its first branch, or finds its second ready with the result. \<open>Handle\<close>: one turn
  of the \<open>for\<close> over the batch. \<open>Close\<close>: \<open>consumer.close()\<close> answers.
\<close>

datatype 'e loop_event =
    Signal
  | Poll_shutdown
  | Poll_ready "'e + consumer_record list"
  | Handle
  | Close "'e + unit"

definition running :: "'e mode \<Rightarrow> bool" where
  "running m = (case m of Stopped _ \<Rightarrow> False | Killed \<Rightarrow> False | Panicked \<Rightarrow> False | _ \<Rightarrow> True)"

fun loop_enabled :: "'e loop_event \<Rightarrow> 'e mode \<Rightarrow> bool" where
  "loop_enabled Signal m = running m"
| "loop_enabled Poll_shutdown m = (m = Selecting)"
| "loop_enabled (Poll_ready _) m = (m = Selecting)"
| "loop_enabled Handle m = (case m of Handling _ \<Rightarrow> True | _ \<Rightarrow> False)"
| "loop_enabled (Close _) m = (m = Closing)"

definition drop_listener :: "('s, 'e) poll_loop \<Rightarrow> ('s, 'e) poll_loop" where
  "drop_listener s = s\<lparr>armed := False, caught := False\<rparr>"

definition handle_next ::
  "(consumer_record \<Rightarrow> 's world \<Rightarrow> 's world option) \<Rightarrow> consumer_record list \<Rightarrow>
   ('s, 'e) poll_loop \<Rightarrow> ('s, 'e) poll_loop" where
  "handle_next process rs s =
     (case rs of
        [] \<Rightarrow> s\<lparr>mode := Selecting\<rparr>
      | r # rs' \<Rightarrow>
          (case process r (world s) of
             None \<Rightarrow> s\<lparr>mode := Panicked\<rparr>
           | Some w \<Rightarrow> s\<lparr>mode := Handling rs', world := w, handled := handled s @ [r]\<rparr>))"

fun loop_apply ::
  "(consumer_record \<Rightarrow> 's world \<Rightarrow> 's world option) \<Rightarrow> 'e loop_event \<Rightarrow>
   ('s, 'e) poll_loop \<Rightarrow> ('s, 'e) poll_loop" where
  "loop_apply process Signal s =
     (if \<not> installed s then s\<lparr>mode := Killed\<rparr>
      else if armed s then s\<lparr>caught := True\<rparr>
      else s)"
| "loop_apply process Poll_shutdown s =
     (if caught s then (drop_listener s)\<lparr>mode := Closing\<rparr>
      else s\<lparr>installed := True, armed := True\<rparr>)"
| "loop_apply process (Poll_ready (Inl e)) s = (drop_listener s)\<lparr>mode := Stopped (Inl e)\<rparr>"
| "loop_apply process (Poll_ready (Inr rs)) s =
     (drop_listener s)\<lparr>mode := Handling rs, polled := polled s @ rs\<rparr>"
| "loop_apply process Handle s =
     (case mode s of Handling rs \<Rightarrow> handle_next process rs s | _ \<Rightarrow> s)"
| "loop_apply process (Close r) s = s\<lparr>mode := Stopped r\<rparr>"

inductive loop_step ::
  "(consumer_record \<Rightarrow> 's world \<Rightarrow> 's world option) \<Rightarrow> ('s, 'e) poll_loop \<Rightarrow> ('s, 'e) poll_loop \<Rightarrow> bool"
  for process :: "consumer_record \<Rightarrow> 's world \<Rightarrow> 's world option" where
  loop_stepI: "loop_enabled ev (mode s) \<Longrightarrow> loop_step process s (loop_apply process ev s)"

inductive_cases loop_stepE: "loop_step process s t"

fun run_loop ::
  "(consumer_record \<Rightarrow> 's world \<Rightarrow> 's world option) \<Rightarrow> 'e loop_event list \<Rightarrow> ('s, 'e) poll_loop \<Rightarrow>
   ('s, 'e) poll_loop option" where
  "run_loop process [] s = Some s"
| "run_loop process (ev # evs) s =
     (if loop_enabled ev (mode s) then run_loop process evs (loop_apply process ev s) else None)"

abbreviation loop_reachable ::
  "(consumer_record \<Rightarrow> 's world \<Rightarrow> 's world option) \<Rightarrow> 's world \<Rightarrow> ('s, 'e) poll_loop \<Rightarrow> bool" where
  "loop_reachable process w \<equiv> reachable (\<lambda>s. s = loop_init w) (loop_step process)"

lemma run_loop_reachable:
  "run_loop process evs s = Some t \<Longrightarrow> loop_reachable process w s \<Longrightarrow> loop_reachable process w t"
  by (induction evs arbitrary: s) (auto split: if_splits intro: reach_step loop_stepI)

section \<open>Invariants\<close>

text \<open>Processing a list of records in order.\<close>

fun process_all ::
  "(consumer_record \<Rightarrow> 's world \<Rightarrow> 's world option) \<Rightarrow> consumer_record list \<Rightarrow> 's world \<Rightarrow>
   's world option" where
  "process_all process [] w = Some w"
| "process_all process (r # rs) w = Option.bind (process r w) (process_all process rs)"

lemma process_all_append:
  "process_all process (xs @ ys) w = Option.bind (process_all process xs w) (process_all process ys)"
  by (induction xs arbitrary: w) (auto split: bind_split)

definition batch_inv ::
  "(consumer_record \<Rightarrow> 's world \<Rightarrow> 's world option) \<Rightarrow> 's world \<Rightarrow> ('s, 'e) poll_loop \<Rightarrow> bool" where
  "batch_inv process w s \<longleftrightarrow>
     process_all process (handled s) w = Some (world s) \<and>
     (case mode s of
        Handling rs \<Rightarrow> polled s = handled s @ rs \<and> \<not> armed s
      | Selecting \<Rightarrow> polled s = handled s
      | Closing \<Rightarrow> polled s = handled s
      | Stopped _ \<Rightarrow> polled s = handled s
      | _ \<Rightarrow> \<exists>rs. polled s = handled s @ rs) \<and>
     (mode s = Panicked \<longrightarrow> (\<exists>r v. process r v = None)) \<and>
     (caught s \<longrightarrow> armed s) \<and> (armed s \<longrightarrow> installed s)"

lemmas loop_defs = drop_listener_def handle_next_def running_def batch_inv_def

lemma batch_inv_event:
  assumes "batch_inv process w s" and "loop_enabled ev (mode s)"
  shows "batch_inv process w (loop_apply process ev s)"
proof (cases ev)
  case Signal
  then show ?thesis using assms by (cases "mode s") (auto simp: loop_defs)
next
  case Poll_shutdown
  then show ?thesis using assms by (auto simp: loop_defs)
next
  case (Poll_ready r)
  then show ?thesis using assms by (cases r) (auto simp: loop_defs)
next
  case Handle
  then obtain rs where rs: "mode s = Handling rs" using assms(2) by (cases "mode s") auto
  show ?thesis
  proof (cases rs)
    case Nil
    then show ?thesis using assms(1) rs Handle by (auto simp: loop_defs)
  next
    case (Cons r rs')
    then show ?thesis using assms(1) rs Handle
      by (cases "process r (world s)") (auto simp: loop_defs process_all_append)
  qed
next
  case (Close r)
  then show ?thesis using assms by (simp add: loop_defs)
qed

interpretation consume: invariant_system "\<lambda>s. s = loop_init w" "loop_step process" "batch_inv process w"
  for process :: "consumer_record \<Rightarrow> 's world \<Rightarrow> 's world option" and w :: "'s world"
proof unfold_locales
  show "batch_inv process w s" if "s = loop_init w" for s :: "('s, 'e) poll_loop"
    using that by (simp add: loop_init_def batch_inv_def)
  show "batch_inv process w t" if "batch_inv process w s" "loop_step process s t"
    for s t :: "('s, 'e) poll_loop"
    using that(2,1) by (auto elim: loop_stepE intro: batch_inv_event)
qed

text \<open>Without a further signal a loop whose listener saw none goes on.\<close>

definition unheard :: "('s, 'e) poll_loop \<Rightarrow> bool" where
  "unheard s \<longleftrightarrow> \<not> caught s \<and> mode s \<noteq> Closing \<and> mode s \<noteq> Stopped (Inr ())"

lemma unheard_event:
  assumes "unheard s" and "ev \<noteq> Signal" and "loop_enabled ev (mode s)"
  shows "unheard (loop_apply process ev s)"
proof (cases ev)
  case (Poll_ready r)
  then show ?thesis using assms by (cases r) (auto simp: unheard_def drop_listener_def)
next
  case Handle
  then show ?thesis using assms
    by (auto simp: unheard_def handle_next_def split: mode.splits list.splits option.splits)
qed (use assms in \<open>auto simp: unheard_def\<close>)

lemma unheard_run:
  "run_loop process evs s = Some t \<Longrightarrow> Signal \<notin> set evs \<Longrightarrow> unheard s \<Longrightarrow> unheard t"
  by (induction evs arbitrary: s) (auto split: if_splits intro: unheard_event)

section \<open>A run\<close>

text \<open>A clock that a reading and a sleep move on; a batch of one tombstone; a signal meanwhile.\<close>

definition demo_timer :: "nat timer" where
  "demo_timer = \<lparr>read_clock = (\<lambda>e. (e, e + 1)), sleep_for = (\<lambda>d e. e + d)\<rparr>"

definition tombstone :: consumer_record where
  "tombstone = \<lparr>rec_partition = 0, rec_offset = 0, rec_value = None, rec_headers = []\<rparr>"

definition no_codec :: "string \<Rightarrow> bytes \<Rightarrow> string + order" where
  "no_codec topic v = Inl ''no schema''"

definition demo_world :: "nat world" where
  "demo_world = \<lparr>env = 0, trace = []\<rparr>"

definition demo_process :: "consumer_record \<Rightarrow> nat world \<Rightarrow> nat world option" where
  "demo_process = process_order_record demo_units demo_timer no_codec (\<lambda>e. e) (demo_cli Consume)"

definition before_signal :: "string loop_event list" where
  "before_signal = [Poll_shutdown, Poll_ready (Inr [tombstone])]"

definition after_signal :: "string loop_event list" where
  "after_signal = [Handle, Handle, Poll_shutdown, Poll_ready (Inr [])]"

lemma demo_work_fits: "work_fits demo_units (demo_cli r)"
  by (simp add: work_fits_def STAGES_def stage_base_def stage_works_def demo_units_def demo_cli_def
      duration_max_def)

definition in_batch :: "(nat, string) poll_loop" where
  "in_batch = (loop_init demo_world)\<lparr>mode := Handling [tombstone], installed := True, polled := [tombstone]\<rparr>"

lemma demo_before: "run_loop process before_signal (loop_init demo_world) = Some in_batch"
  by (simp add: before_signal_def loop_init_def drop_listener_def in_batch_def)

lemma demo_in_batch: "loop_reachable process demo_world in_batch"
  using run_loop_reachable [OF demo_before] by (simp add: reach_init)

lemma demo_after:
  "\<exists>t. run_loop demo_process after_signal in_batch = Some t \<and> mode t = Handling [] \<and>
     handled t = [tombstone]"
proof -
  obtain w' where "demo_process tombstone demo_world = Some w'"
    unfolding demo_process_def using process_record_trace [OF demo_work_fits] by blast
  then show ?thesis
    by (simp add: after_signal_def in_batch_def loop_init_def handle_next_def drop_listener_def)
qed

section \<open>Properties\<close>

lemma process_all_counts:
  assumes "work_fits U c"
  shows "process_all (process_order_record U T deserialize err_text c) rs w = Some w' \<Longrightarrow>
    \<exists>es. trace w' = trace w @ es \<and>
      filter is_count (calls es) = map (record_count deserialize (input_topic c)) rs"
proof (induction rs arbitrary: w)
  case (Cons r rs)
  obtain w1 es where 1: "process_order_record U T deserialize err_text c r w = Some w1"
    "trace w1 = trace w @ es" "record_trace U deserialize c r es"
    using process_record_trace [OF assms] by metis
  then have "process_all (process_order_record U T deserialize err_text c) rs w1 = Some w'"
    using Cons.prems by simp
  from Cons.IH [OF this] 1 show ?case by (auto simp: record_trace_def)
qed simp

text \<open>A run of the loop from its start does not panic.\<close>

lemma loop_no_panic:
  assumes "run_loop (process_order_record U T deserialize err_text c) evs (loop_init w) = Some t"
    and "work_fits U c"
  shows "mode t \<noteq> Panicked"
proof -
  let ?process = "process_order_record U T deserialize err_text c"
  have "loop_reachable ?process w t"
    by (rule run_loop_reachable [OF assms(1)]) (simp add: reach_init)
  then have "batch_inv ?process w t" by (rule consume.inv_reachable)
  then show ?thesis
    using process_record_trace [OF assms(2)] unfolding batch_inv_def by (metis option.distinct(1))
qed

text \<open>
  C6: one record, whatever its content, clock and state: it is counted exactly once, as processed
  with its outcome or as the input failure it is; a decoded order passes every stage once, in order,
  each sleeping its work and the injected latency; a failed record sleeps nothing and marks its span;
  every span is closed; and nothing panics while each stage's work stays 30 ms below the largest
  \<open>Duration\<close>.
\<close>

theorem record_processed_once:
  assumes "list_all (\<lambda>t. to_std U t + 30000000 \<le> duration_max)
    [validate_work c, enrich_work c, fraud_check_work c, fulfill_work c]"
  shows "\<exists>w' es. process_order_record U T deserialize err_text c r w = Some w' \<and> trace w' = trace w @ es \<and>
    filter is_count (calls es) = [record_count deserialize (input_topic c) r] \<and> span_depth 0 es = Some 0 \<and>
    (case decoded deserialize (input_topic c) r of
       None \<Rightarrow> sleeps es = [] \<and> observed_stages (calls es) = [] \<and>
         Span_record ''otel.status_code'' (F_str ''ERROR'') \<in> set es
     | Some ord \<Rightarrow> observed_stages (calls es) = [''validate'', ''enrich'', ''fraud_check'', ''fulfill''] \<and>
         sleeps es = map (\<lambda>t. to_std U t +
             (if inject_latency (order_index ord) (slow_order_fraction c) then 30000000 else 0))
           [validate_work c, enrich_work c, fraud_check_work c, fulfill_work c] \<and>
         outcome_log ord (classify_outcome ord) \<in> set es)"
  using process_record_trace [of U c T deserialize err_text r w] assms
  unfolding work_fits_iff record_trace_def injected_def stage_sleeps unfolding STAGES_def by blast

theorem record_processed_once_witness:
  "\<exists>w' es. demo_process tombstone demo_world = Some w' \<and> trace w' = es \<and> sleeps es = [] \<and>
     Span_record ''otel.status_code'' (F_str ''ERROR'') \<in> set es"
proof -
  have "decoded no_codec topic tombstone = None" for topic
    by (simp add: decoded_def decode_order_def tombstone_def)
  then show ?thesis
    using record_processed_once [OF demo_work_fits [unfolded work_fits_iff], of demo_timer no_codec "\<lambda>e. e"
        Consume tombstone demo_world]
    by (auto simp: demo_process_def demo_world_def)
qed



text \<open>
  C7: the consumer loses no record it polled and counts none twice: in every reachable state the
  processed records are a prefix of the polled ones, in order, and the counters were incremented
  once for each of them, by its outcome or by its input failure; the loop does not panic, and a
  clean stop is reached only with every polled record processed.
\<close>

theorem loop_accounts_for_records:
  assumes "loop_reachable (process_order_record U T deserialize err_text c) w s" and "work_fits U c"
  shows "\<exists>es rs. trace (world s) = trace w @ es \<and> polled s = handled s @ rs \<and>
    filter is_count (calls es) = map (record_count deserialize (input_topic c)) (handled s) \<and>
    mode s \<noteq> Panicked \<and> (mode s = Stopped (Inr ()) \<longrightarrow> rs = [])"
proof -
  have inv: "batch_inv (process_order_record U T deserialize err_text c) w s"
    by (rule consume.inv_reachable [OF assms(1)])
  then obtain es where "trace (world s) = trace w @ es"
    "filter is_count (calls es) = map (record_count deserialize (input_topic c)) (handled s)"
    using process_all_counts [OF assms(2)] unfolding batch_inv_def by blast
  moreover have "mode s \<noteq> Panicked"
    using inv process_record_trace [OF assms(2)] unfolding batch_inv_def by (metis option.distinct(1))
  moreover have "\<exists>rs. polled s = handled s @ rs \<and> (mode s = Stopped (Inr ()) \<longrightarrow> rs = [])"
    using inv by (cases "mode s") (auto simp: batch_inv_def)
  ultimately show ?thesis by blast
qed

theorem loop_accounts_for_records_witness:
  "\<exists>(t :: (nat, string) poll_loop) es. loop_reachable demo_process demo_world t \<and> mode t = Handling [] \<and>
     trace (world t) = es \<and>
     filter is_count (calls es) = [Pipeline_errors_inc \<lparr>error_kind = ''missing_value''\<rparr>]"
proof -
  obtain t where t: "run_loop demo_process after_signal in_batch = Some t" "mode t = Handling []"
    "handled t = [tombstone]"
    using demo_after by blast
  then have r: "loop_reachable demo_process demo_world t"
    using run_loop_reachable demo_in_batch by blast
  have "record_count no_codec topic tombstone = Pipeline_errors_inc \<lparr>error_kind = ''missing_value''\<rparr>" for topic
    by (simp add: record_count_def tombstone_def)
  then show ?thesis
    using loop_accounts_for_records [OF r [unfolded demo_process_def] demo_work_fits] r t(2,3)
    by (intro exI [of _ t] exI [of _ "trace (world t)"]) (auto simp: demo_world_def)
qed

text \<open>
  C8: a termination signal delivered while a batch is processed is lost: it changes nothing, and
  without a second signal no continuation of the loop ever closes the consumer.
\<close>

theorem signal_while_handling_is_lost:
  assumes "loop_reachable process w s" and "mode s = Handling rs" and "installed s"
    and "run_loop process evs (loop_apply process Signal s) = Some t" and "Signal \<notin> set evs"
  shows "loop_apply process Signal s = s \<and> mode t \<noteq> Closing \<and> mode t \<noteq> Stopped (Inr ())"
proof -
  have inv: "batch_inv process w s" by (rule consume.inv_reachable [OF assms(1)])
  then have lost: "loop_apply process Signal s = s" and "unheard s"
    using assms(2,3) by (auto simp: batch_inv_def unheard_def)
  then have "unheard t" using unheard_run assms(4,5) by metis
  with lost show ?thesis by (simp add: unheard_def)
qed

theorem signal_while_handling_is_lost_witness:
  "\<exists>t. run_loop demo_process after_signal (loop_apply demo_process Signal in_batch) = Some t \<and>
     mode t \<noteq> Stopped (Inr ())"
proof -
  have b: "mode in_batch = Handling [tombstone]" "installed in_batch"
    by (simp_all add: in_batch_def)
  have same: "loop_apply demo_process Signal in_batch = in_batch"
    by (simp add: in_batch_def loop_init_def)
  obtain t where t: "run_loop demo_process after_signal (loop_apply demo_process Signal in_batch) = Some t"
    unfolding same using demo_after by blast
  have "Signal \<notin> set after_signal" by (simp add: after_signal_def)
  from signal_while_handling_is_lost [OF demo_in_batch b t this] t show ?thesis by blast
qed

end
