(* ===== verification/Streams_App.thy ===== *)
theory Streams_App
  imports Runtime
begin

text \<open>
  \<open>crates/observability-demo-app/src/main.rs\<close>, the streams role \<open>run_stream\<close>: the settings it
  hands to the application builder, the topology it builds, the handler of the topology's \<open>peek\<close>,
  and the run until shutdown. Grouping, counting and the state store are the streams library's: the
  handler is applied to the updates the library produces.
\<close>

section \<open>The application\<close>

record ('b, 'w) streams_settings =
  ss_bootstrap :: string
  ss_application_id :: string
  ss_schema_registry :: string
  ss_fetch_retry_policy :: 'w
  ss_broker_dns_timeout :: 'w
  ss_client_dispatch_queue_capacity :: 'w
  ss_client_frame_max :: 'w
  ss_fetch_min :: 'w
  ss_poll_interval :: 'w
  ss_commit_interval :: 'w
  ss_rebalance_timeout :: 'w
  ss_leave_heartbeat_timeout :: 'w
  ss_join_retry_backoff :: 'w
  ss_interactive_query_queue_capacity :: 'w
  ss_cache_max_bytes :: 'b

text \<open>\<open>cache_size\<close> is the \<open>size()\<close> of the validated cache budget.\<close>

definition streams_settings_of ::
  "('w \<Rightarrow> 'b) \<Rightarrow> ('p, 't, 'f, 'b, 'en) cli \<Rightarrow> 'w StreamRuntime \<Rightarrow> ('b, 'w) streams_settings" where
  "streams_settings_of cache_size c rt =
     \<lparr>ss_bootstrap = bootstrap c, ss_application_id = streams_application_id c,
      ss_schema_registry = registry_url c,
      ss_fetch_retry_policy = sr_schema_fetch_retry_policy rt,
      ss_broker_dns_timeout = sr_broker_dns_timeout rt,
      ss_client_dispatch_queue_capacity = sr_dispatch_queue_capacity rt,
      ss_client_frame_max = sr_frame_max rt,
      ss_fetch_min = sr_fetch_min rt,
      ss_poll_interval = sr_poll_interval rt,
      ss_commit_interval = sr_commit_interval rt,
      ss_rebalance_timeout = sr_rebalance_timeout rt,
      ss_leave_heartbeat_timeout = sr_leave_heartbeat_timeout rt,
      ss_join_retry_backoff = sr_join_retry_backoff rt,
      ss_interactive_query_queue_capacity = sr_query_queue_capacity rt,
      ss_cache_max_bytes = cache_size (sr_state_store_cache_max_bytes rt)\<rparr>"

datatype topology_node =
    Source_topics "string list"
  | Group_by_key
  | Count_store string
  | To_stream
  | Peek_counts
  | Sink_topic string

definition topology :: "('p, 't, 'f, 'b, 'en) cli \<Rightarrow> topology_node list" where
  "topology c =
     [Source_topics [input_topic c], Group_by_key, Count_store ''orders-by-category-store'',
      To_stream, Peek_counts, Sink_topic (output_topic c)]"

section \<open>The handler\<close>

definition peek_count :: "string \<Rightarrow> i64 \<Rightarrow> ('s, unit) action" where
  "peek_count cat n = do {
     emit (Span_open ''stream_category_count''
       [(''otel.kind'', F_str ''consumer''), (''messaging.system'', F_str ''kafka''),
        (''demo.order.category'', F_str cat), (''demo.order.count'', F_int (sint n))]);
     metrics (record_stream cat n);
     emit (Log Info ''streams state-store count updated'' []);
     emit Span_close }"

text \<open>The handler over the updates that reach it.\<close>

fun peek_all :: "(string \<times> i64) list \<Rightarrow> ('s, unit) action" where
  "peek_all [] = State_Monad.return ()"
| "peek_all ((cat, n) # us) = do { peek_count cat n; peek_all us }"

section \<open>The run\<close>

text \<open>
  The application is built with its settings and run on its topology, the process waits for the
  shutdown, and the streams are closed: a failed start returns at once, without waiting. The answers
  of \<open>run\<close> and \<open>close\<close> are parameters, as a function of what the role passes.
\<close>

datatype ('b, 'w) stream_phase =
    Stream_started "('b, 'w) streams_settings" "topology_node list"
  | Stream_waited
  | Stream_closed

definition run_stream ::
  "('w \<Rightarrow> 'b) \<Rightarrow> (('b, 'w) streams_settings \<Rightarrow> topology_node list \<Rightarrow> 'e + unit) \<Rightarrow> 'e + unit \<Rightarrow>
   ('p, 't, 'f, 'b, 'en) cli \<Rightarrow> 'w StreamRuntime \<Rightarrow> ('b, 'w) stream_phase list \<times> ('e + unit)" where
  "run_stream cache_size run close c rt =
     (let app = streams_settings_of cache_size c rt in
      case run app (topology c) of
        Inl e \<Rightarrow> ([], Inl e)
      | Inr _ \<Rightarrow>
          (case close of
             Inl e \<Rightarrow> ([Stream_started app (topology c), Stream_waited], Inl e)
           | Inr _ \<Rightarrow> ([Stream_started app (topology c), Stream_waited, Stream_closed], Inr ())))"

section \<open>Reading the metrics\<close>

text \<open>The value of a gauge is the last one set; a counter's is the number of its increments.\<close>

definition gauge_value :: "string \<Rightarrow> metric_call list \<Rightarrow> i64 option" where
  "gauge_value cat cs =
     fold (\<lambda>call v. case call of
        Stream_category_set l n \<Rightarrow> if label_category l = cat then Some n else v
      | _ \<Rightarrow> v) cs None"

definition stream_records_value :: "metric_call list \<Rightarrow> nat" where
  "stream_records_value cs = count_list cs Stream_records_inc"

definition update_calls :: "(string \<times> i64) list \<Rightarrow> metric_call list" where
  "update_calls us = concat (map (\<lambda>(cat, n). record_stream cat n) us)"

lemma peek_all_trace:
  "\<exists>es. trace (snd (run_state (peek_all us) w)) = trace w @ es \<and> calls es = update_calls us \<and>
     (\<forall>n. span_depth n es = Some n)"
proof (induction us arbitrary: w rule: peek_all.induct)
  case 1
  show ?case by (simp add: update_calls_def)
next
  case (2 cat n us)
  define pre where "pre = [Span_open ''stream_category_count''
      [(''otel.kind'', F_str ''consumer''), (''messaging.system'', F_str ''kafka''),
       (''demo.order.category'', F_str cat), (''demo.order.count'', F_int (sint n))]] @
    map Metric (record_stream cat n) @ [Log Info ''streams state-store count updated'' [], Span_close]"
  obtain es where es: "trace (snd (run_state (peek_all us) (w\<lparr>trace := trace w @ pre\<rparr>))) = trace w @ pre @ es"
    "calls es = update_calls us" "\<forall>n. span_depth n es = Some n"
    using 2 [of "w\<lparr>trace := trace w @ pre\<rparr>"] by auto
  have "run_state (peek_all ((cat, n) # us)) w = run_state (peek_all us) (w\<lparr>trace := trace w @ pre\<rparr>)"
    by (simp add: peek_count_def pre_def)
  moreover have "calls (pre @ es) = update_calls ((cat, n) # us)" "\<forall>k. span_depth k (pre @ es) = Some k"
    using es(2,3) by (simp_all add: pre_def update_calls_def span_depth_append)
  ultimately show ?case using es(1) by metis
qed

lemma fold_gauge:
  "fold (\<lambda>call v. case call of
      Stream_category_set l n \<Rightarrow> if label_category l = cat then Some n else v | _ \<Rightarrow> v)
     (update_calls us) v = (case map_of (rev us) cat of None \<Rightarrow> v | Some n \<Rightarrow> Some n)"
proof (induction us arbitrary: v)
  case (Cons u us)
  then show ?case
    by (cases u) (auto simp: update_calls_def call_simps map_add_def split: option.split)
qed (simp add: update_calls_def)

lemma update_calls_records: "stream_records_value (update_calls us) = length us"
  by (induction us) (auto simp: update_calls_def stream_records_value_def call_simps)

section \<open>Counting\<close>

text \<open>
  What the library's \<open>group_by_key().count()\<close> promises of the updates it forwards when records with
  the keys \<open>keys\<close> arrived: a store cache may drop intermediate counts, but the last update of every
  key carries its count, and a key without a record has none.
\<close>

definition last_counts :: "string list \<Rightarrow> (string \<times> i64) list \<Rightarrow> bool" where
  "last_counts keys us \<longleftrightarrow>
     list_all (\<lambda>k. map_of (rev us) k = (if k \<in> set keys then Some (of_nat (count_list keys k)) else None))
       (keys @ map fst us)"

lemma last_counts_lookup:
  assumes "last_counts keys us"
  shows "map_of (rev us) k = (if k \<in> set keys then Some (of_nat (count_list keys k)) else None)"
proof (cases "k \<in> set keys \<or> k \<in> fst ` set us")
  case True
  then show ?thesis using assms by (auto simp: last_counts_def list_all_iff)
next
  case False
  then have "map_of (rev us) k = None" by (simp add: map_of_eq_None_iff)
  with False show ?thesis by simp
qed

text \<open>Without a cache every record forwards the new count of its key.\<close>

definition running_counts :: "string list \<Rightarrow> (string \<times> i64) list" where
  "running_counts keys =
     map (\<lambda>i. (keys ! i, of_nat (count_list (take (Suc i) keys) (keys ! i)))) [0..<length keys]"

lemma running_counts_snoc:
  "running_counts (keys @ [k]) = running_counts keys @ [(k, of_nat (count_list (keys @ [k]) k))]"
  by (simp add: running_counts_def nth_append)

lemma running_counts_lookup:
  "map_of (rev (running_counts keys)) k =
    (if k \<in> set keys then Some (of_nat (count_list keys k)) else None)"
proof (induction keys rule: rev_induct)
  case (snoc x keys)
  then show ?case by (simp add: running_counts_snoc)
qed (simp add: running_counts_def)

lemma last_counts_running: "last_counts keys (running_counts keys)"
  by (simp add: last_counts_def running_counts_lookup list_all_iff)

text \<open>
  \<open>count_topology_aggregates_by_category\<close> of \<open>lib.rs\<close>: the loop over the records read from the output
  topic keeps the latest count of the books.
\<close>

definition latest_books :: "(string \<times> i64) list \<Rightarrow> i64" where
  "latest_books outputs = fold (\<lambda>(key, value) books. if key = ''books'' then value else books) outputs 0"

definition count_topology_aggregates_by_category :: "(string \<times> i64) list \<Rightarrow> bool" where
  "count_topology_aggregates_by_category outputs \<longleftrightarrow> latest_books outputs = 2"

lemma fold_latest:
  "fold (\<lambda>(key, value) books. if key = ''books'' then value else books) us v =
    (case map_of (rev us) ''books'' of None \<Rightarrow> v | Some n \<Rightarrow> n)"
  by (induction us arbitrary: v) (auto simp: map_add_def split: option.split)

lemma count_topology_holds:
  "last_counts [''books'', ''books'', ''toys''] outputs \<Longrightarrow> count_topology_aggregates_by_category outputs"
  by (simp add: count_topology_aggregates_by_category_def latest_books_def fold_latest last_counts_lookup)

text \<open>The gauge of a category after the handler saw the updates.\<close>

lemma peek_all_gauge:
  obtains es where "trace (snd (run_state (peek_all us) w)) = trace w @ es"
    and "gauge_value cat (calls es) = map_of (rev us) cat"
    and "stream_records_value (calls es) = length us" and "span_depth 0 es = Some 0"
proof -
  obtain es where es: "trace (snd (run_state (peek_all us) w)) = trace w @ es"
    "calls es = update_calls us" "\<forall>n. span_depth n es = Some n"
    using peek_all_trace by blast
  have "gauge_value cat (calls es) = map_of (rev us) cat"
    by (simp add: gauge_value_def es(2) fold_gauge split: option.split)
  with es show thesis by (intro that [of es]) (simp_all add: update_calls_records)
qed

end
