(* ===== verification/Demo_Main.thy ===== *)
theory Demo_Main
  imports Scheduler_Spec Publish Consumer_Loop Streams_App Cli_Parse
begin

text \<open>
  \<open>crates/observability-demo-app/src/main.rs\<close>, the process: what \<open>main\<close> does in which order and
  which failure ends it where, the three roles with the settings their clients are built with, and the
  closure each order is delivered by. The calls into \<open>krabka-telemetry\<close> and the three clients answer
  as a parameter says; the loops of the producer and of the consumer are those of \<open>Scheduler\<close> and
  \<open>Consumer_Loop\<close>, run over the events the parameter gives.
\<close>

section \<open>Client settings\<close>

record 'b producer_settings =
  ps_bootstrap :: string
  ps_dispatch_queue_capacity :: nat
  ps_frame_max :: 'b
  ps_acks_all :: bool

definition producer_settings_of ::
  "('t, 'b, 'w, 'en) settings \<Rightarrow> ('p, 't, 'f, 'b, 'en) cli \<Rightarrow> 'w \<Rightarrow> 'w \<Rightarrow> 'b producer_settings" where
  "producer_settings_of S c queue_capacity frame_max =
     \<lparr>ps_bootstrap = bootstrap c, ps_dispatch_queue_capacity = queue_capacity_get S queue_capacity,
      ps_frame_max = frame_max_size S frame_max, ps_acks_all = True\<rparr>"

text \<open>\<open>timeout_as_time\<close> is \<open>.duration().as_time()\<close> of the two validated consumer timeouts.\<close>

record ('t, 'b, 'w, 'en) consumer_settings =
  cs_bootstrap :: string
  cs_group_id :: string
  cs_subscribe :: "string list"
  cs_dispatch_queue_capacity :: nat
  cs_frame_max :: 'b
  cs_leave_group_timeout :: 't
  cs_metadata_refresh_interval :: 't
  cs_retry_policy :: 'w
  cs_fetch_min :: 'b
  cs_fetch_max :: 'b
  cs_fetch_partition_max :: 'b
  cs_session_timeout :: 't
  cs_max_poll_interval :: 't
  cs_heartbeat_interval :: 't
  cs_request_timeout :: 't
  cs_auto_offset_reset :: 'en
  cs_isolation_level :: 'en
  cs_assignors :: "'en list"

definition consumer_settings_of ::
  "('w \<Rightarrow> 't) \<Rightarrow> ('t, 'b, 'w, 'en) settings \<Rightarrow> ('p, 't, 'f, 'b, 'en) cli \<Rightarrow>
   ('t, 'b, 'w, 'en) ConsumerRuntime \<Rightarrow> ('t, 'b, 'w, 'en) consumer_settings" where
  "consumer_settings_of timeout_as_time S c rt =
     \<lparr>cs_bootstrap = bootstrap c, cs_group_id = consumer_group_id c, cs_subscribe = [input_topic c],
      cs_dispatch_queue_capacity = queue_capacity_get S (cr_dispatch_queue_capacity rt),
      cs_frame_max = frame_max_size S (cr_frame_max rt),
      cs_leave_group_timeout = timeout_as_time (cr_leave_group_timeout rt),
      cs_metadata_refresh_interval = timeout_as_time (cr_metadata_refresh_interval rt),
      cs_retry_policy = cr_retry_policy rt, cs_fetch_min = cr_fetch_min rt,
      cs_fetch_max = cr_fetch_max rt, cs_fetch_partition_max = cr_fetch_partition_max rt,
      cs_session_timeout = cr_session_timeout rt, cs_max_poll_interval = cr_rebalance_timeout rt,
      cs_heartbeat_interval = cr_heartbeat_interval rt, cs_request_timeout = cr_request_timeout rt,
      cs_auto_offset_reset = cr_auto_offset_reset rt, cs_isolation_level = cr_isolation_level rt,
      cs_assignors = [cr_assignor rt]\<rparr>"

section \<open>The schema codec\<close>

text \<open>
  \<open>order_serde\<close>: the cache over the registry, the process-wide default registry, the subject of the
  topic and the prewarming, whose failure is the function's.
\<close>

datatype 'w serde_step =
    Cache_built string 'w
  | Default_registry_set
  | Subject_prepared string
  | Cache_prewarmed

definition order_serde ::
  "('p, 't, 'f, 'b, 'en) cli \<Rightarrow> string \<Rightarrow> 'w \<Rightarrow> 'e + unit \<Rightarrow> 'w serde_step list \<times> ('e + unit)" where
  "order_serde c topic fetch_retry_policy prewarm =
     (let prepared = [Cache_built (registry_url c) fetch_retry_policy, Default_registry_set,
          Subject_prepared topic]
      in case prewarm of
           Inl e \<Rightarrow> (prepared, Inl e)
         | Inr _ \<Rightarrow> (prepared @ [Cache_prewarmed], Inr ()))"

lemma snd_order_serde [simp]: "snd (order_serde c topic policy prewarm) = prewarm"
  by (cases prewarm) (simp_all add: order_serde_def)

lemma hd_order_serde [simp]:
  "hd (fst (order_serde c topic policy prewarm)) = Cache_built (registry_url c) policy"
  by (cases prewarm) (simp_all add: order_serde_def)

section \<open>The steps of a process\<close>

text \<open>What each role does with its clients; \<open>step_role\<close> says whose step it is.\<close>

datatype ('t, 'b, 'w, 'en) main_step =
    Telemetry_started
  | Revision_logged string string role
  | Admin_served string
  | Serde "'w serde_step"
  | Producer_built "'b producer_settings"
  | Producer_paused
  | Orders_sent "order list"
  | Streams "('b, 'w) stream_phase"
  | Consumer_built "('t, 'b, 'w, 'en) consumer_settings"
  | Records_processed "consumer_record list"
  | Consumer_closed
  | Telemetry_shut_down

fun step_role :: "('t, 'b, 'w, 'en) main_step \<Rightarrow> role option" where
  "step_role (Producer_built _) = Some Produce"
| "step_role Producer_paused = Some Produce"
| "step_role (Orders_sent _) = Some Produce"
| "step_role (Streams _) = Some Stream"
| "step_role (Consumer_built _) = Some Consume"
| "step_role (Records_processed _) = Some Consume"
| "step_role Consumer_closed = Some Consume"
| "step_role _ = None"

text \<open>How a process is left; a loop whose events are used up is still running.\<close>

datatype 'e ending = Ended "'e + unit" | Process_panicked | Process_killed | Still_running

text \<open>
  The libraries and the outside: what the accessors, the codec, the clients and the runtime answer.
  \<open>send_events\<close> and \<open>poll_events\<close> are what the runtime delivers to the two loops; \<open>delivery_world\<close>
  is the state of the world in which the delivery of an order starts.
\<close>

record ('t, 'b, 'w, 'en, 'e, 'm, 's) outside =
  as_time_of :: "'w \<Rightarrow> 't"
  size_of_cache :: "'w \<Rightarrow> 'b"
  clock :: "'s timer"
  error_text :: "'e \<Rightarrow> string"
  serialize_order :: "string \<Rightarrow> order \<Rightarrow> bytes"
  deserialize_order :: "string \<Rightarrow> bytes \<Rightarrow> 'e + order"
  span_headers :: "order \<Rightarrow> (string \<times> string) list"
  transmit_record :: "producer_record \<Rightarrow> 's \<Rightarrow> ('e + 'm) \<times> 's"
  delivery_world :: "order \<Rightarrow> 's world"
  telemetry_result :: "'e + unit"
  admin_result :: "string \<Rightarrow> 'e + unit"
  prewarm_result :: "'e + unit"
  producer_build :: "'b producer_settings \<Rightarrow> 'e + unit"
  send_events :: "'e event list"
  streams_run :: "('b, 'w) streams_settings \<Rightarrow> topology_node list \<Rightarrow> 'e + unit"
  streams_close :: "'e + unit"
  consumer_build :: "('t, 'b, 'w, 'en) consumer_settings \<Rightarrow> 'e + unit"
  poll_events :: "'e loop_event list"
  start_world :: "'s world"

section \<open>The producer role\<close>

text \<open>
  The closure of \<open>send_orders\<close>: what one admitted order becomes. The trace headers are those of the
  order's own span.
\<close>

definition deliver ::
  "('t, 'f, 'b) units \<Rightarrow> 's timer \<Rightarrow> ('e \<Rightarrow> string) \<Rightarrow>
   (producer_record \<Rightarrow> 's \<Rightarrow> ('e + 'm) \<times> 's) \<Rightarrow> (order \<Rightarrow> (string \<times> string) list) \<Rightarrow>
   (string \<Rightarrow> order \<Rightarrow> bytes) \<Rightarrow> ('p, 't, 'f, 'b, 'en) cli \<Rightarrow> order \<Rightarrow> ('s, bool) action" where
  "deliver U T err_text transmit trace_headers serialize c ord =
     publish_order U T err_text transmit (trace_headers ord) ord (input_topic c)
       (serialize (input_topic c) ord)"

lemma deliver_sends:
  assumes "trace (snd (run_state (deliver U T err_text transmit th serialize c ord) w)) = trace w @ es"
    and "(p, ok) \<in> set (sends es)"
  shows "p = order_record (th ord) (input_topic c) (serialize (input_topic c) ord) ord"
proof -
  have "\<exists>k es' b. trace (snd (run_state (deliver U T err_text transmit th serialize c ord) w)) = trace w @ es' \<and>
      sends es' = replicate k (order_record (th ord) (input_topic c) (serialize (input_topic c) ord) ord, False) @
        (if b then [(order_record (th ord) (input_topic c) (serialize (input_topic c) ord) ord, True)] else [])"
    using publish_order_trace [of "th ord" "input_topic c" "serialize (input_topic c) ord" ord U T err_text transmit w]
    unfolding deliver_def Let_def split_beta by blast
  then show ?thesis using assms by (auto split: if_splits)
qed


fun phase_end :: "'e phase \<Rightarrow> 'e ending" where
  "phase_end (Finished (Inl e)) = Ended (Inl e)"
| "phase_end (Finished (Inr _)) = Ended (Inr ())"
| "phase_end _ = Still_running"

lemma phase_end_no_panic [simp]: "phase_end p \<noteq> Process_panicked"
  by (cases p rule: phase_end.cases) simp_all

text \<open>
  An error of the schema or of the client, a pause until shutdown at rate zero, or the sending loop
  with its period and limit, whose deliveries end as the closure does. \<open>tokio::time::interval\<close> panics
  on a zero period, to which a rate beyond the resolution of \<open>Duration\<close> is converted. The result is
  \<^const>\<open>None\<close> when the events are none of the loop's.
\<close>

definition run_produce ::
  "('t, 'f, 'b) units \<Rightarrow> ('t, 'b, 'w, 'en) settings \<Rightarrow> ('p, 't, 'f, 'b, 'en) cli \<Rightarrow> 'w \<Rightarrow> 'w \<Rightarrow> 'w \<Rightarrow>
   ('t, 'b, 'w, 'en, 'e, 'm, 's) outside \<Rightarrow> (('t, 'b, 'w, 'en) main_step list \<times> 'e ending) option" where
  "run_produce U S c schema queue_capacity frame_max out =
     (let (serde, prepared) = order_serde c (input_topic c) schema (prewarm_result out);
          settings = producer_settings_of S c queue_capacity frame_max in
      case prepared of
        Inl e \<Rightarrow> Some (map Serde serde, Ended (Inl e))
      | Inr _ \<Rightarrow>
     (case producer_build out settings of
        Inl e \<Rightarrow> Some (map Serde serde, Ended (Inl e))
      | Inr _ \<Rightarrow>
          let built = map Serde serde @ [Producer_built settings] in
          if freq_eq U (orders_per_sec c) (freq_zero U) then Some (built @ [Producer_paused], Ended (Inr ()))
          else
            let period = to_std U (freq_recip U (orders_per_sec c));
                delivery = (\<lambda>ord. fst (run_state (deliver U (clock out) (error_text out) (transmit_record out)
                  (span_headers out) (serialize_order out) c ord) (delivery_world out ord))) in
            if period = 0 then Some (built, Process_panicked)
            else if \<not> list_all (follows delivery) (send_events out) then None
            else map_option (\<lambda>s. (built @ [Orders_sent (started s)],
                phase_end (phase s)))
              (run_events period (producer_max_in_flight c) (send_events out) sched_init)))"

section \<open>The consumer role\<close>

fun mode_end :: "'e mode \<Rightarrow> 'e ending" where
  "mode_end (Stopped r) = Ended r"
| "mode_end Killed = Process_killed"
| "mode_end Panicked = Process_panicked"
| "mode_end _ = Still_running"

lemma mode_end_iff [simp]:
  "mode_end m = Process_panicked \<longleftrightarrow> m = Panicked" "mode_end m = Ended r \<longleftrightarrow> m = Stopped r"
  by (cases m; simp)+

definition run_consume ::
  "('t, 'f, 'b) units \<Rightarrow> ('t, 'b, 'w, 'en) settings \<Rightarrow> ('p, 't, 'f, 'b, 'en) cli \<Rightarrow>
   ('t, 'b, 'w, 'en) ConsumerRuntime \<Rightarrow> ('t, 'b, 'w, 'en, 'e, 'm, 's) outside \<Rightarrow>
   (('t, 'b, 'w, 'en) main_step list \<times> 'e ending) option" where
  "run_consume U S c rt out =
     (let (serde, prepared) = order_serde c (input_topic c) (cr_schema_fetch_retry_policy rt) (prewarm_result out);
          settings = consumer_settings_of (as_time_of out) S c rt in
      case prepared of
        Inl e \<Rightarrow> Some (map Serde serde, Ended (Inl e))
      | Inr _ \<Rightarrow>
     (case consumer_build out settings of
        Inl e \<Rightarrow> Some (map Serde serde, Ended (Inl e))
      | Inr _ \<Rightarrow>
          map_option (\<lambda>s. (map Serde serde @ [Consumer_built settings, Records_processed (handled s)] @
              (if mode s = Stopped (Inr ()) then [Consumer_closed] else []),
              mode_end (mode s)))
            (run_loop (process_order_record U (clock out) (deserialize_order out) (error_text out) c)
              (poll_events out) (loop_init (start_world out)))))"

section \<open>The process\<close>

text \<open>The \<open>match\<close> on the role, with what the configuration returned for each.\<close>

definition role_run ::
  "('t, 'f, 'b) units \<Rightarrow> ('t, 'b, 'w, 'en) settings \<Rightarrow> ('p, 't, 'f, 'b, 'en) cli \<Rightarrow>
   ('w \<times> 'w) \<times> 'w \<times> 'w StreamRuntime \<times> ('t, 'b, 'w, 'en) ConsumerRuntime \<Rightarrow>
   ('t, 'b, 'w, 'en, 'e, 'm, 's) outside \<Rightarrow> (('t, 'b, 'w, 'en) main_step list \<times> 'e ending) option" where
  "role_run U S c cfg out =
     (case cfg of ((queue_capacity, frame_max), schema, sr, cr) \<Rightarrow>
       (case role c of
          Produce \<Rightarrow> run_produce U S c schema queue_capacity frame_max out
        | Stream \<Rightarrow> Some (map_prod (map Streams) Ended
            (run_stream (size_of_cache out) (streams_run out) (streams_close out) c sr))
        | Consume \<Rightarrow> run_consume U S c cr out))"

text \<open>
  \<open>main\<close>'s error is \<open>BoxError\<close>: \<open>Inl\<close> an \<open>io::Error\<close> of the configuration, \<open>Inr\<close> any other. The
  telemetry's own configuration, the metrics router and the profiling arguments go to the libraries as
  they are, and are part of the answers.
\<close>

fun end_of :: "'e ending \<Rightarrow> (io_error + 'e) ending" where
  "end_of (Ended (Inl e)) = Ended (Inl (Inr e))"
| "end_of (Ended (Inr _)) = Ended (Inr ())"
| "end_of Process_panicked = Process_panicked"
| "end_of Process_killed = Process_killed"
| "end_of Still_running = Still_running"

definition main_run ::
  "string \<Rightarrow> string option \<Rightarrow> ('t, 'f, 'b) units \<Rightarrow> ('t, 'b, 'w, 'en) settings \<Rightarrow>
   ('p, 't, 'f, 'b, 'en) cli \<Rightarrow> ('t, 'b, 'w, 'en, 'e, 'm, 's) outside \<Rightarrow>
   (('t, 'b, 'w, 'en) main_step list \<times> (io_error + 'e) ending) option" where
  "main_run version krabka_revision U S c out =
     (case configure U S c of
        None \<Rightarrow> Some ([], Process_panicked)
      | Some (Inl e) \<Rightarrow> Some ([], Ended (Inl (Inl e)))
      | Some (Inr ((queue_capacity, frame_max), schema, sr, cr)) \<Rightarrow>
     (case telemetry_result out of
        Inl e \<Rightarrow> Some ([], Ended (Inl (Inr e)))
      | Inr _ \<Rightarrow>
          let revision = (case krabka_revision of None \<Rightarrow> ''unknown'' | Some v \<Rightarrow> v);
              started = [Telemetry_started, Revision_logged version revision (role c)] in
     (case admin_result out ''0.0.0.0:9404'' of
        Inl e \<Rightarrow> Some (started, Ended (Inl (Inr e)))
      | Inr _ \<Rightarrow>
          map_option (\<lambda>(steps, end).
              (started @ [Admin_served ''0.0.0.0:9404''] @ steps @
                 (if end = Ended (Inr ()) then [Telemetry_shut_down] else []), end_of end))
            (role_run U S c ((queue_capacity, frame_max), schema, sr, cr) out))))"

section \<open>What a role does\<close>

text \<open>Roles only take their own steps, and none of the process's.\<close>

definition own_steps :: "role \<Rightarrow> ('t, 'b, 'w, 'en) main_step list \<Rightarrow> bool" where
  "own_steps r steps \<longleftrightarrow>
     list_all (\<lambda>s. step_role s = Some r \<or> (\<exists>x. s = Serde x)) steps"

lemma run_produce_steps:
  assumes "run_produce U S c schema q f out = Some (steps, r)"
  shows "own_steps Produce steps \<and>
    (\<forall>ps. Producer_built ps \<in> set steps \<longrightarrow> ps = producer_settings_of S c q f) \<and>
    (r = Ended (Inr ()) \<longrightarrow> Producer_paused \<in> set steps \<or> (\<exists>xs. Orders_sent xs \<in> set steps)) \<and>
    (r = Process_panicked \<longleftrightarrow> (\<exists>ps. Producer_built ps \<in> set steps) \<and>
       \<not> freq_eq U (orders_per_sec c) (freq_zero U) \<and> to_std U (freq_recip U (orders_per_sec c)) = 0)"
  using assms
  by (auto simp: run_produce_def own_steps_def Let_def list_all_iff
      split: sum.splits if_splits prod.splits)

lemma run_consume_steps:
  assumes "run_consume U S c rt out = Some (steps, r)"
  shows "own_steps Consume steps \<and>
    (\<forall>cs. Consumer_built cs \<in> set steps \<longrightarrow> cs = consumer_settings_of (as_time_of out) S c rt) \<and>
    (r = Ended (Inr ()) \<longrightarrow> Consumer_closed \<in> set steps) \<and>
    (work_fits U c \<longrightarrow> r \<noteq> Process_panicked)"
  using assms
  by (auto simp: run_consume_def own_steps_def Let_def list_all_iff dest: loop_no_panic
      split: sum.splits if_splits prod.splits)

lemma run_stream_steps:
  assumes "run_stream cache_size run close c rt = (phases, r)"
  shows "own_steps Stream (map Streams phases) \<and>
    (\<forall>app topo. Stream_started app topo \<in> set phases \<longrightarrow>
       app = streams_settings_of cache_size c rt \<and> topo = topology c) \<and>
    (r = Inr () \<longrightarrow> Stream_closed \<in> set phases)"
  using assms by (auto simp: run_stream_def own_steps_def Let_def split: sum.splits)

lemma end_of_iff [simp]:
  "end_of r = Ended (Inr ()) \<longleftrightarrow> r = Ended (Inr ())" "end_of r = Process_panicked \<longleftrightarrow> r = Process_panicked"
  by (cases r rule: end_of.cases; simp)+

text \<open>A process ends before its role starts, or runs it after its start.\<close>

lemma main_run_cases:
  fixes S :: "('t, 'b, 'w, 'en) settings"
  assumes "main_run version krabka_revision U S c out = Some (steps, r)"
  obtains
    (stopped) "list_all (\<lambda>s. step_role s = None) steps" "Telemetry_shut_down \<notin> set steps"
      "r \<noteq> Ended (Inr ())" "r = Process_panicked \<longleftrightarrow> configure U S c = None"
  | (ran) cfg pre steps' r' where "configure U S c = Some (Inr cfg)"
      "telemetry_result out = Inr ()" "admin_result out ''0.0.0.0:9404'' = Inr ()"
      "list_all (\<lambda>s. step_role s = None) pre" "Telemetry_shut_down \<notin> set pre" "list_all (\<lambda>s. \<forall>x. s \<noteq> Serde x) pre"
      "steps = pre @ steps' @ (if r' = Ended (Inr ()) then [Telemetry_shut_down] else [])" "r = end_of r'"
      "role_run U S c cfg out = Some (steps', r')"
proof (cases "configure U S c")
  case None
  then show thesis using assms stopped by (simp add: main_run_def)
next
  case (Some res)
  show thesis
  proof (cases res)
    case (Inl e)
    then show thesis using assms Some stopped by (auto simp: main_run_def)
  next
    case (Inr cfg)
    obtain q f schema sr cr where cfg: "cfg = ((q, f), schema, sr, cr)" by (cases cfg) auto
    define pre :: "('t, 'b, 'w, 'en) main_step list" where "pre = [Telemetry_started, Revision_logged version
      (case krabka_revision of None \<Rightarrow> ''unknown'' | Some v \<Rightarrow> v) (role c), Admin_served ''0.0.0.0:9404'']"
    show thesis
    proof (cases "telemetry_result out = Inr () \<and> admin_result out ''0.0.0.0:9404'' = Inr ()")
      case True
      then obtain steps' r' where "role_run U S c cfg out = Some (steps', r')" "r = end_of r'"
        "steps = pre @ steps' @ (if r' = Ended (Inr ()) then [Telemetry_shut_down] else [])"
        using assms Some Inr by (auto simp: main_run_def cfg pre_def Let_def split: if_splits)
      then show thesis using ran [of cfg pre steps' r'] Some Inr True by (simp add: pre_def)
    next
      case False
      then show thesis using assms Some Inr stopped
        by (auto simp: main_run_def cfg Let_def split: sum.splits)
    qed
  qed
qed

text \<open>What the role of a configured process does.\<close>

lemma role_run_steps:
  assumes "role_run U S c ((q, f), schema, sr, cr) out = Some (steps, r)"
  shows "own_steps (role c) steps" (is ?own)
    and "(\<forall>ps. Producer_built ps \<in> set steps \<longrightarrow> ps = producer_settings_of S c q f) \<and>
      (\<forall>app topo. Streams (Stream_started app topo) \<in> set steps \<longrightarrow>
         app = streams_settings_of (size_of_cache out) c sr \<and> topo = topology c) \<and>
      (\<forall>cs. Consumer_built cs \<in> set steps \<longrightarrow> cs = consumer_settings_of (as_time_of out) S c cr)" (is ?settings)
    and "r = Ended (Inr ()) \<longrightarrow>
      (case role c of
         Produce \<Rightarrow> Producer_paused \<in> set steps \<or> (\<exists>xs. Orders_sent xs \<in> set steps)
       | Stream \<Rightarrow> Streams Stream_closed \<in> set steps
       | Consume \<Rightarrow> Consumer_closed \<in> set steps)" (is ?done)
    and "work_fits U c \<Longrightarrow> r = Process_panicked \<longleftrightarrow> role c = Produce \<and> (\<exists>ps. Producer_built ps \<in> set steps) \<and>
       \<not> freq_eq U (orders_per_sec c) (freq_zero U) \<and> to_std U (freq_recip U (orders_per_sec c)) = 0" (is "_ \<Longrightarrow> ?panic")
proof -
  have foreign: "step_role s \<noteq> None \<Longrightarrow> s \<in> set steps \<Longrightarrow> step_role s = Some (role c)" if "own_steps (role c) steps" for s
    using that by (auto simp: own_steps_def list_all_iff)
  have "?own \<and> ?settings \<and> ?done \<and> (work_fits U c \<longrightarrow> ?panic)"
  proof (cases "role c")
    case Produce
    then have "run_produce U S c schema q f out = Some (steps, r)" using assms by (simp add: role_run_def)
    from run_produce_steps [OF this] Produce foreign show ?thesis by force
  next
    case Stream
    then obtain phases e where "run_stream (size_of_cache out) (streams_run out) (streams_close out) c sr = (phases, e)"
      "steps = map Streams phases" "r = Ended e"
      using assms
      by (cases "run_stream (size_of_cache out) (streams_run out) (streams_close out) c sr")
        (auto simp: role_run_def)
    with run_stream_steps [OF this(1)] Stream show ?thesis by (auto simp: image_iff)
  next
    case Consume
    then have "run_consume U S c cr out = Some (steps, r)" using assms by (simp add: role_run_def)
    from run_consume_steps [OF this] Consume foreign show ?thesis by force
  qed
  then show ?own ?settings ?done "work_fits U c \<Longrightarrow> ?panic" by blast+
qed

section \<open>Properties\<close>

text \<open>
  C21: the process runs the role it was asked for and no other: every step a role takes, the building
  of a client, the sending, the streams and the processing, is one of that role. A client is built
  with the settings of the validated configuration, and only after the whole configuration, the
  telemetry and the admin server succeeded and without an option of another role. A process that ends
  without an error did its role's work, up to the close of its client, and exactly then it shuts
  telemetry down.
\<close>

theorem main_runs_one_role:
  assumes "main_run version krabka_revision U S c out = Some (steps, r)"
  shows "list_all (\<lambda>s. step_role s = None \<or> step_role s = Some (role c)) steps \<and>
    (Telemetry_shut_down \<in> set steps \<longleftrightarrow> r = Ended (Inr ())) \<and>
    (list_ex (\<lambda>s. step_role s \<noteq> None) steps \<longrightarrow>
       telemetry_result out = Inr () \<and> admin_result out ''0.0.0.0:9404'' = Inr () \<and>
       (role c \<noteq> Consume \<longrightarrow> no_consumer_option c) \<and> (role c \<noteq> Stream \<longrightarrow> no_stream_option c) \<and>
       (\<exists>q f schema sr cr. configure U S c = Some (Inr ((q, f), schema, sr, cr)) \<and>
          (\<forall>ps. Producer_built ps \<in> set steps \<longrightarrow> ps = producer_settings_of S c q f) \<and>
          (\<forall>app topo. Streams (Stream_started app topo) \<in> set steps \<longrightarrow>
             app = streams_settings_of (size_of_cache out) c sr \<and> topo = topology c) \<and>
          (\<forall>cs. Consumer_built cs \<in> set steps \<longrightarrow> cs = consumer_settings_of (as_time_of out) S c cr))) \<and>
    (r = Ended (Inr ()) \<longrightarrow>
       (case role c of
          Produce \<Rightarrow> Producer_paused \<in> set steps \<or> (\<exists>xs. Orders_sent xs \<in> set steps)
        | Stream \<Rightarrow> Streams Stream_closed \<in> set steps
        | Consume \<Rightarrow> Consumer_closed \<in> set steps))"
  using assms
proof (cases rule: main_run_cases)
  case stopped
  then show ?thesis by (auto simp: list_all_iff list_ex_iff)
next
  case (ran cfg pre steps' r')
  obtain q f schema sr cr where cfg: "cfg = ((q, f), schema, sr, cr)" by (cases cfg) auto
  note role = role_run_steps [OF ran(9) [unfolded cfg]]
  have gate: "(role c \<noteq> Consume \<longrightarrow> no_consumer_option c) \<and> (role c \<noteq> Stream \<longrightarrow> no_stream_option c)"
    using ran(1) by (rule configured_options)
  have other: "s \<notin> set pre" if "step_role s \<noteq> None" for s
    using ran(4) that by (auto simp: list_all_iff)
  have own: "list_all (\<lambda>s. step_role s = None \<or> step_role s = Some (role c)) steps"
    using role(1) ran(4) unfolding ran(7) by (auto simp: own_steps_def list_all_iff)
  have down: "Telemetry_shut_down \<in> set steps \<longleftrightarrow> r = Ended (Inr ())"
    using role(1) ran(5,8) unfolding ran(7) by (auto simp: own_steps_def list_all_iff)
  have inner: "s \<in> set steps \<longleftrightarrow> s \<in> set steps'" if "step_role s \<noteq> None" for s
    using other [OF that] that unfolding ran(7) by (cases s) auto
  note members = inner [of "Producer_built _"] inner [of Producer_paused] inner [of "Orders_sent _"]
    inner [of "Streams _"] inner [of "Consumer_built _"] inner [of Consumer_closed]
  have settings: "(\<forall>ps. Producer_built ps \<in> set steps \<longrightarrow> ps = producer_settings_of S c q f) \<and>
      (\<forall>app topo. Streams (Stream_started app topo) \<in> set steps \<longrightarrow>
         app = streams_settings_of (size_of_cache out) c sr \<and> topo = topology c) \<and>
      (\<forall>cs. Consumer_built cs \<in> set steps \<longrightarrow> cs = consumer_settings_of (as_time_of out) S c cr)"
    using role(2) by (simp only: members step_role.simps option.distinct not_False_eq_True)
  have "r = Ended (Inr ()) \<longrightarrow>
      (case role c of
         Produce \<Rightarrow> Producer_paused \<in> set steps \<or> (\<exists>xs. Orders_sent xs \<in> set steps)
       | Stream \<Rightarrow> Streams Stream_closed \<in> set steps
       | Consume \<Rightarrow> Consumer_closed \<in> set steps)"
    using role(3) ran(8) by (simp only: members step_role.simps option.distinct not_False_eq_True end_of_iff)
  with own down gate ran(1-3) settings show ?thesis unfolding cfg by blast
qed

text \<open>Answers of an outside in which everything works and the broker cannot be reached.\<close>

definition demo_outside :: "(nat, nat, nat list, string, string, unit, nat) outside" where
  "demo_outside =
     \<lparr>as_time_of = hd, size_of_cache = hd, clock = demo_timer, error_text = (\<lambda>e. e),
      serialize_order = (\<lambda>topic x. []), deserialize_order = no_codec, span_headers = (\<lambda>_. []),
      transmit_record = (\<lambda>r e. (Inr (), e + 1)), delivery_world = (\<lambda>_. demo_world),
      telemetry_result = Inr (), admin_result = (\<lambda>_. Inr ()), prewarm_result = Inr (),
      producer_build = (\<lambda>_. Inr ()), send_events = [], streams_run = (\<lambda>app topo. Inr ()),
      streams_close = Inr (), consumer_build = (\<lambda>_. Inr ()), poll_events = before_signal,
      start_world = demo_world\<rparr>"

theorem main_runs_one_role_witness:
  "\<exists>steps. main_run ''0.1.0'' None demo_units demo_settings (demo_cli Stream) demo_outside =
       Some (steps, Ended (Inr ())) \<and> Streams Stream_closed \<in> set steps \<and> Telemetry_shut_down \<in> set steps \<and>
     no_consumer_option (demo_cli Stream)"
proof -
  obtain q f schema sr cr
    where x: "configure demo_units demo_settings (demo_cli Stream) = Some (Inr ((q, f), schema, sr, cr))"
    using demo_configured [of Stream] by auto
  have role: "role (demo_cli Stream) = Stream" by (simp add: demo_cli_def)
  obtain steps where s: "main_run ''0.1.0'' None demo_units demo_settings (demo_cli Stream) demo_outside =
      Some (steps, Ended (Inr ()))" "Streams Stream_closed \<in> set steps"
    using x role by (simp add: main_run_def role_run_def demo_outside_def run_stream_def Let_def)
  have "list_ex (\<lambda>s. step_role s \<noteq> None) steps"
    using s(2) by (auto simp: list_ex_iff intro: bexI [of _ "Streams Stream_closed"])
  with main_runs_one_role [OF s(1)] s role show ?thesis by simp
qed

text \<open>
  C33: the limits of the command line are shared by every client of the process: the producer, the
  consumer and the streams application are built with the one validated queue capacity and frame
  limit, and the three schema caches with the one retry policy.
\<close>

theorem client_limits_shared:
  assumes "configure U S c = Some (Inr ((q, f), schema, sr, cr))"
  shows "queue_capacity_new S (client_dispatch_queue_capacity c) = Inr q \<and>
    frame_max_try_from S (client_frame_max c) = Inr f \<and>
    ps_dispatch_queue_capacity (producer_settings_of S c q f) = queue_capacity_get S q \<and>
    cs_dispatch_queue_capacity (consumer_settings_of as_time S c cr) = queue_capacity_get S q \<and>
    ss_client_dispatch_queue_capacity (streams_settings_of cache_size c sr) = q \<and>
    ps_frame_max (producer_settings_of S c q f) = frame_max_size S f \<and>
    cs_frame_max (consumer_settings_of as_time S c cr) = frame_max_size S f \<and>
    ss_client_frame_max (streams_settings_of cache_size c sr) = f \<and>
    hd (fst (order_serde c (input_topic c) schema prewarm)) = Cache_built (registry_url c) schema \<and>
    hd (fst (order_serde c (input_topic c) (cr_schema_fetch_retry_policy cr) prewarm)) =
      Cache_built (registry_url c) schema \<and>
    ss_fetch_retry_policy (streams_settings_of cache_size c sr) = schema"
proof -
  have r: "client_resource_policy S c = Some (q, f)" "schema_fetch_retry_policy S c = Inr schema"
    "stream_runtime U S c = Some (Inr sr)" "consumer_runtime U S c = Some (Inr cr)"
    using assms by (simp_all add: configure_ok)
  then have "queue_capacity_new S (client_dispatch_queue_capacity c) = Inr q"
    "frame_max_try_from S (client_frame_max c) = Inr f"
    by (auto simp: client_resource_policy_def expect_def bind_eq_Some_conv split: sum.splits)
  moreover have "sr_dispatch_queue_capacity sr = q \<and> sr_frame_max sr = f \<and>
      sr_schema_fetch_retry_policy sr = schema"
    using r(1-3) by (auto simp: stream_runtime_def bind_eq_Some_conv try_res_ok)
  moreover have "cr_dispatch_queue_capacity cr = q \<and> cr_frame_max cr = f \<and>
      cr_schema_fetch_retry_policy cr = schema"
    using r(1,2,4) by (auto simp: consumer_runtime_def bind_eq_Some_conv)
  ultimately show ?thesis
    by (simp add: producer_settings_of_def consumer_settings_of_def streams_settings_of_def)
qed

theorem client_limits_shared_witness:
  "\<exists>q f schema sr cr. configure demo_units demo_settings (demo_cli Produce) = Some (Inr ((q, f), schema, sr, cr)) \<and>
     cs_frame_max (consumer_settings_of hd demo_settings (demo_cli Produce) cr) = frame_max_size demo_settings f"
proof -
  obtain x where "configure demo_units demo_settings (demo_cli Produce) = Some (Inr x)"
    using demo_configured by blast
  then obtain q f schema sr cr
    where c: "configure demo_units demo_settings (demo_cli Produce) = Some (Inr ((q, f), schema, sr, cr))"
    by (cases x) auto
  from client_limits_shared [OF c, of hd] c show ?thesis by blast
qed

lemma demo_revalidates:
  "revalidates (queue_capacity_new demo_settings) (queue_capacity_get demo_settings)"
  "revalidates (frame_max_try_from demo_settings) (frame_max_size demo_settings)"
  "revalidates (fetch_min_try_from demo_settings) (fetch_min_size demo_settings)"
  by (simp_all add: revalidates_def demo_settings_def demo_new_def split: if_splits)



end
