(* ===== verification/Rule_Tests.thy ===== *)
theory Rule_Tests
  imports Pipeline Metrics Streams_App
begin

text \<open>
  The tests of \<open>crates/observability-demo-app/src/lib.rs\<close>, \<open>pipeline.rs\<close> and the label test of
  \<open>metrics.rs\<close>, each as the conjunction of its assertions over the model. Amounts are compared in
  binary64, so the literals of the tests are rounded here as the compiler rounds them.
\<close>

section \<open>Rounded literals\<close>

lemma round_mag_literal:
  assumes lo: "2 ^ 52 / 2 ^ p \<le> x" and hi: "x < 2 ^ 53 / 2 ^ p" and p: "p \<le> 1074"
    and near: "\<bar>x * 2 ^ p - of_int m\<bar> < 1 / 2"
  shows "round_mag x = of_int m / 2 ^ p"
proof -
  have x: "0 < x" using lo by (rule less_le_trans [rotated]) simp
  have powi: "2 powi (int n - int p) = (2::rat) ^ n / 2 ^ p" for n
    by (simp add: power_int_diff)
  have "2 powi ilog2 x < (2::rat) powi (int 53 - int p)" "2 powi (int 52 - int p) < (2::rat) powi (ilog2 x + 1)"
    using ilog2_bounds [OF x] lo hi by (simp_all only: powi)
  then have "ilog2 x < int 53 - int p" "int 52 - int p < ilog2 x + 1"
    using powi_mono_two [of "int 53 - int p" "ilog2 x"] powi_mono_two [of "ilog2 x + 1" "int 52 - int p"]
    by linarith+
  then have "quantum x = - int p" using p by (simp add: quantum_def)
  then have q: "2 powi quantum x = (1::rat) / 2 ^ p" by (simp add: power_int_minus field_simps)
  have "of_int (round_half_even (x * 2 ^ p)) < (of_int (m + 1) :: rat)"
    "of_int m < (of_int (round_half_even (x * 2 ^ p) + 1) :: rat)"
    using round_half_even_bounds [of "x * 2 ^ p"] near by (simp_all, linarith+)
  then have "round_half_even (x * 2 ^ p) = m" by (simp only: of_int_less_iff)
  then show ?thesis using x q by (simp add: round_mag_def)
qed

lemma cents_rounded: "round_mag (99 / 100) = 8917127262193582 / 2 ^ 53"
  by (subst round_mag_literal [where p = 53 and m = 8917127262193582]) simp_all

lemma cents_exact: "round_mag (8917127262193582 / 2 ^ 53) = 8917127262193582 / 2 ^ 53"
  by (subst round_mag_literal [where p = 53 and m = 8917127262193582]) simp_all

lemma fraud_rounded: "round_mag (19999 / 100) = 7036522574045512 / 2 ^ 45"
  by (subst round_mag_literal [where p = 45 and m = 7036522574045512]) simp_all

lemma amount_rounded: "round_mag (2399 / 100) = 6752584691288637 / 2 ^ 48"
  by (subst round_mag_literal [where p = 48 and m = 6752584691288637]) simp_all

lemma sum_rounded: "round_mag (23 + 8917127262193582 / 2 ^ 53) = 6752584691288637 / 2 ^ 48"
  by (subst round_mag_literal [where p = 48 and m = 6752584691288637]) simp_all

lemma threshold_rounded: "round_mag (15001 / 100) = 5278007657045688 / 2 ^ 45"
  by (subst round_mag_literal [where p = 45 and m = 5278007657045688]) simp_all

section \<open>Order generator and rules\<close>

definition position :: "'a list \<Rightarrow> 'a \<Rightarrow> nat option" where
  "position xs x = List.find (\<lambda>j. xs ! j = x) [0..<length xs]"

definition order_at_is_deterministic_and_cycles_categories :: bool where
  "order_at_is_deterministic_and_cycles_categories \<longleftrightarrow>
     category (order_at 0) = ''books'' \<and> category (order_at 1) = ''electronics'' \<and>
     category (order_at 5) = ''books'' \<and> order_id (order_at 0) = ''o-0000000000'' \<and>
     abs64 (amount (order_at 17)) < f64_epsilon"

definition order_at_populates_rich_fields_with_aligned_warehouse :: bool where
  "order_at_populates_rich_fields_with_aligned_warehouse \<longleftrightarrow>
     order_at 0 =
       \<lparr>order_id = ''o-0000000000'', category = ''books'', amount = f64_zero, currency = ''USD'', ts_ms = 0,
        region = ''us-east'', payment_method = ''card'', quantity = 1, customer_tier = ''free'',
        warehouse = ''wh-atl''\<rparr> \<and>
     list_all (\<lambda>i. let ord = order_at i in
         case position REGIONS (region ord) of
           None \<Rightarrow> False
         | Some region_i \<Rightarrow> WAREHOUSES ! region_i = warehouse ord)
       [1, 2, 3, 7, 42, 199]"

definition order_at_pins_every_field_period :: bool where
  "order_at_pins_every_field_period \<longleftrightarrow>
     list_all (\<lambda>(i, expected). order_at i = expected)
       [(23,
         \<lparr>order_id = ''o-0000000023'', category = ''toys'', amount = f64_lit (2399 / 100),
          currency = ''USD'', ts_ms = 0, region = ''ap-south'', payment_method = ''crypto'', quantity = 4,
          customer_tier = ''free'', warehouse = ''wh-blr''\<rparr>),
        (200,
         \<lparr>order_id = ''o-0000000200'', category = ''books'', amount = f64_lit (99 / 100),
          currency = ''USD'', ts_ms = 0, region = ''us-east'', payment_method = ''wire'', quantity = 1,
          customer_tier = ''pro'', warehouse = ''wh-atl''\<rparr>)]"

definition is_anomalous_only_at_zero_not_at_the_tolerance :: bool where
  "is_anomalous_only_at_zero_not_at_the_tolerance \<longleftrightarrow>
     is_anomalous ((order_at 1)\<lparr>amount := f64_zero\<rparr>) \<and>
     \<not> is_anomalous ((order_at 1)\<lparr>amount := f64_epsilon\<rparr>)"

definition is_suspicious_needs_crypto_and_strictly_over_the_threshold :: bool where
  "is_suspicious_needs_crypto_and_strictly_over_the_threshold \<longleftrightarrow>
     (let order = (\<lambda>pay dollars. (order_at 1)\<lparr>payment_method := pay, amount := dollars\<rparr>) in
      is_suspicious (order ''crypto'' (f64_lit (15001 / 100))) \<and>
      \<not> is_suspicious (order ''crypto'' (f64_lit 150)) \<and>
      \<not> is_suspicious (order ''card'' (f64_lit 1000)) \<and>
      \<not> is_suspicious (order ''card'' (f64_lit 1)))"

definition outcome_classification_covers_the_three_paths :: bool where
  "outcome_classification_covers_the_three_paths \<longleftrightarrow>
     (let anomalous = order_at 17;
          fraud = (order_at 1)\<lparr>payment_method := ''crypto'', amount := f64_lit (19999 / 100)\<rparr>;
          ok = (order_at 1)\<lparr>payment_method := ''card'', amount := f64_lit 42\<rparr>
      in list_all (\<lambda>(ord, suspicious, outcome). is_suspicious ord = suspicious \<and> classify_outcome ord = outcome)
           [(anomalous, False, ''anomalous''), (fraud, True, ''fraud_rejected''), (ok, False, ''fulfilled'')])"

lemma order_numbers:
  "show_padded 10 0 = ''0000000000''" "show_padded 10 23 = ''0000000023''" "show_padded 10 200 = ''0000000200''"
  by code_simp+

lemma order_amounts:
  "order_amount 0 = f64_zero" "order_amount 17 = f64_zero" "order_amount 23 = f64_lit (2399 / 100)"
  "order_amount 200 = f64_lit (99 / 100)"
proof -
  have "order_amount 23 = F64_Num False (regular_amount 23)" "order_amount 200 = F64_Num False (regular_amount 0)"
    using order_amount_regular [of 23] order_amount_regular [of 200] by simp_all
  then show "order_amount 23 = f64_lit (2399 / 100)" "order_amount 200 = f64_lit (99 / 100)"
    by (simp_all add: regular_amount_def f64_lit_small cents_rounded cents_exact [simplified] sum_rounded [simplified] amount_rounded)
qed (simp_all add: order_amount_anomaly f64_zero_def)

lemma whole_dollars: "f64_lit 150 = F64_Num False 150" "f64_lit 42 = F64_Num False 42"
  "f64_lit 1 = F64_Num False 1" "f64_lit 1000 = F64_Num False 1000"
  using f64_of_nat_num [of 150] f64_of_nat_num [of 42] f64_of_nat_num [of 1] f64_of_nat_num [of 1000]
  by (simp_all add: f64_of_nat_def f64_lit_def)

lemma order_tests_hold:
  order_at_is_deterministic_and_cycles_categories
  order_at_populates_rich_fields_with_aligned_warehouse
  order_at_pins_every_field_period
  is_anomalous_only_at_zero_not_at_the_tolerance
  is_suspicious_needs_crypto_and_strictly_over_the_threshold
  outcome_classification_covers_the_three_paths
proof -
  show order_at_is_deterministic_and_cycles_categories
    by (simp add: order_at_is_deterministic_and_cycles_categories_def order_tables order_numbers order_amounts
        f64_zero_def f64_epsilon_def)
  show order_at_populates_rich_fields_with_aligned_warehouse
    by (simp add: order_at_populates_rich_fields_with_aligned_warehouse_def order_tables order_numbers
        position_def order_quantity_value order_amounts order.equality upt_rec)
  show order_at_pins_every_field_period
    by (simp add: order_at_pins_every_field_period_def order_tables order_numbers order_amounts
      order_quantity_value order.equality)
  show is_anomalous_only_at_zero_not_at_the_tolerance
    by (simp add: is_anomalous_only_at_zero_not_at_the_tolerance_def is_anomalous_def f64_zero_def f64_epsilon_def)
  show is_suspicious_needs_crypto_and_strictly_over_the_threshold
    by (simp add: is_suspicious_needs_crypto_and_strictly_over_the_threshold_def is_suspicious_def whole_dollars
        f64_lit_small threshold_rounded)
  show outcome_classification_covers_the_three_paths
    by (simp add: outcome_classification_covers_the_three_paths_def is_suspicious_def classify_outcome_def
        is_anomalous_def whole_dollars f64_lit_small fraud_rounded order_amounts f64_zero_def f64_epsilon_def order_tables)
qed

section \<open>Pipeline\<close>

definition headers_cover_trace_business_missing_and_invalid_values :: bool where
  "headers_cover_trace_business_missing_and_invalid_values \<longleftrightarrow>
     (let produced = order_headers [(''traceparent'', ''00-trace-parent'')] (order_at 7);
          consumed =
            [\<lparr>hkey = ''valid'', hvalue = Some (string_bytes ''value'')\<rparr>,
             \<lparr>hkey = ''invalid'', hvalue = Some [0xFF]\<rparr>,
             \<lparr>hkey = ''null'', hvalue = None\<rparr>]
      in list_ex (\<lambda>h. hkey h = ''traceparent'') produced \<and> list_ex (\<lambda>h. hkey h = ''x-demo-region'') produced \<and>
         header_value consumed ''valid'' = Some ''value'' \<and> header_value consumed ''invalid'' = None \<and>
         header_value consumed ''null'' = None \<and> header_value consumed ''missing'' = None)"

definition delays_are_stage_specific_and_seeded_slow_orders_cross_25ms :: bool where
  "delays_are_stage_specific_and_seeded_slow_orders_cross_25ms \<longleftrightarrow>
     (let work = \<lparr>sw_validate = from_millis 1, sw_enrich = from_millis 2, sw_fraud_check = from_millis 3,
                  sw_fulfill = from_millis 4\<rparr>
      in stage_delay ''validate'' work 9999 (f64_lit 0) = Some (from_millis 1) \<and>
         (case stage_delay ''fulfill'' work 0 (f64_lit (1 / 100)) of
            None \<Rightarrow> False
          | Some d \<Rightarrow> from_millis 25 < d) \<and>
         stage_delay ''unknown'' work 9999 (f64_lit 0) = Some 0)"

text \<open>A closure that is never called is a parameter.\<close>

definition decode_distinguishes_missing_values_and_deserialization_failures ::
    "(bytes \<Rightarrow> string + order) \<Rightarrow> bool" where
  "decode_distinguishes_missing_values_and_deserialization_failures unreachable \<longleftrightarrow>
     decode_order None unreachable = Inl MissingValue \<and>
     decode_order (Some (string_bytes ''bad'')) (\<lambda>_. Inl ''invalid protobuf'') =
       Inl (Deserialize ''invalid protobuf'') \<and>
     decode_order (Some (string_bytes ''ok'')) (\<lambda>_. Inr (order_at 1) :: string + order) = Inr (order_at 1)"

definition processing_visits_all_stages_and_returns_outcome :: bool where
  "processing_visits_all_stages_and_returns_outcome \<longleftrightarrow>
     (case process_order (order_at 1) (\<lambda>stage visited. Some (visited @ [stage])) [] of
        None \<Rightarrow> False
      | Some (outcome, visited) \<Rightarrow>
          visited = [''validate'', ''enrich'', ''fraud_check'', ''fulfill''] \<and> outcome = ''fulfilled'')"

lemma pipeline_tests_hold:
  headers_cover_trace_business_missing_and_invalid_values
  delays_are_stage_specific_and_seeded_slow_orders_cross_25ms
  "decode_distinguishes_missing_values_and_deserialization_failures unreachable"
  processing_visits_all_stages_and_returns_outcome
proof -
  have "from_utf8 (string_bytes ''value'') = Some ''value''"
    by (rule from_utf8_string_bytes) (simp add: ascii_valid_str)
  then show headers_cover_trace_business_missing_and_invalid_values
    by (simp add: headers_cover_trace_business_missing_and_invalid_values_def order_headers_def
        header_value_Cons from_utf8_def)
  have "inject_latency 0 (f64_lit (of_nat 100 / 10000))" "\<not> inject_latency 9999 (f64_lit (of_nat 0 / 10000))"
    by (simp_all only: inject_latency_iff) simp_all
  then show delays_are_stage_specific_and_seeded_slow_orders_cross_25ms
    by (simp add: delays_are_stage_specific_and_seeded_slow_orders_cross_25ms_def stage_delay_def stage_base_def
        duration_add_def duration_max_def from_millis_def)
  show "decode_distinguishes_missing_values_and_deserialization_failures unreachable"
    by (simp add: decode_distinguishes_missing_values_and_deserialization_failures_def decode_order_def)
  show processing_visits_all_stages_and_returns_outcome
    by (simp add: processing_visits_all_stages_and_returns_outcome_def process_order_def STAGES_def
        classify_order_at)
qed

section \<open>Metrics\<close>

definition label_text :: "string \<Rightarrow> string \<Rightarrow> string" where
  "label_text k v = k @ ''='' @ [CHR 0x22] @ v @ [CHR 0x22]"

definition encodes :: "(metric_call list \<Rightarrow> string + string) \<Rightarrow> metric_call list \<Rightarrow> bool" where
  "encodes encode cs =
     (case encode cs of
        Inl _ \<Rightarrow> False
      | Inr buf \<Rightarrow> list_all (\<lambda>(name, labels). contains name buf \<and>
          list_all (\<lambda>(k, v). contains (label_text k v) buf) labels) (exposed cs))"

definition produced_only :: "('t \<Rightarrow> f64) \<Rightarrow> 't \<Rightarrow> metric_call list" where
  "produced_only seconds two_ms = record_produced seconds ''books'' ''us-east'' ''card'' (f64_lit 42) two_ms"

text \<open>One call of every recording method; \<open>millis\<close> and \<open>micros\<close> build the times.\<close>

definition every_recording :: "('t \<Rightarrow> f64) \<Rightarrow> (nat \<Rightarrow> 't) \<Rightarrow> (nat \<Rightarrow> 't) \<Rightarrow> metric_call list" where
  "every_recording seconds millis micros =
     record_produced seconds ''books'' ''us-east'' ''card'' (f64_lit 42) (millis 2) @
     record_stage seconds ''validate'' (micros 300) @ record_stage seconds ''fraud_check'' (micros 1100) @
     record_processed seconds ''books'' ''us-east'' ''fulfilled'' (millis 4) @
     record_error Missing_value @ record_error Deserialize_failed @ record_error Producer_send @
     record_stream ''books'' 2"

definition metrics_route_serves_the_encoded_registry ::
    "string \<Rightarrow> string option \<Rightarrow> (metric_call list \<Rightarrow> string + string) \<Rightarrow> ('t \<Rightarrow> f64) \<Rightarrow> (nat \<Rightarrow> 't) \<Rightarrow> bool" where
  "metrics_route_serves_the_encoded_registry version revision encode seconds millis \<longleftrightarrow>
     (case map_of (metrics_router version revision (encode (produced_only seconds (millis 2)))) ''/metrics'' of
        None \<Rightarrow> False
      | Some response \<Rightarrow> status response = 200 \<and>
          content_type response = Some ''application/openmetrics-text; version=1.0.0; charset=utf-8'' \<and>
          contains ''krabka_demo_orders_produced_total'' (body response) \<and>
          contains (label_text ''category'' ''books'') (body response))"

text \<open>A path without a route is answered with 404 by the router of the library.\<close>

definition metrics_router_maps_only_the_metrics_path ::
    "string \<Rightarrow> string option \<Rightarrow> (metric_call list \<Rightarrow> string + string) \<Rightarrow> bool" where
  "metrics_router_maps_only_the_metrics_path version revision encode \<longleftrightarrow>
     map_of (metrics_router version revision (encode [])) ''/not-metrics'' = None"

definition build_route_reports_the_binary_version_and_revision ::
    "string \<Rightarrow> string option \<Rightarrow> (metric_call list \<Rightarrow> string + string) \<Rightarrow> bool" where
  "build_route_reports_the_binary_version_and_revision version revision encode \<longleftrightarrow>
     (case map_of (metrics_router version revision (encode [])) ''/build'' of
        None \<Rightarrow> False
      | Some response \<Rightarrow> status response = 200 \<and>
          contains (''version='' @ version @ '' '') (body response) \<and> contains ''revision='' (body response))"

definition registry_has_demo_prefix_and_all_metrics ::
    "(metric_call list \<Rightarrow> string + string) \<Rightarrow> ('t \<Rightarrow> f64) \<Rightarrow> (nat \<Rightarrow> 't) \<Rightarrow> (nat \<Rightarrow> 't) \<Rightarrow> bool" where
  "registry_has_demo_prefix_and_all_metrics encode seconds millis micros \<longleftrightarrow>
     (case encode (every_recording seconds millis micros) of
        Inl _ \<Rightarrow> False
      | Inr buf \<Rightarrow>
          list_all (\<lambda>needle. contains needle buf)
            [''krabka_demo_orders_produced_total'', ''krabka_demo_order_value_dollars'',
             ''krabka_demo_produce_latency_seconds'', ''krabka_demo_orders_processed_total'',
             ''krabka_demo_process_stage_latency_seconds'', ''krabka_demo_order_processing_latency_seconds'',
             ''krabka_demo_pipeline_errors_total'', ''krabka_demo_stream_records_total'',
             ''krabka_demo_stream_category_count''] \<and>
          list_all (\<lambda>(k, v). contains (label_text k v) buf)
            [(''category'', ''books''), (''region'', ''us-east''), (''payment_method'', ''card''),
             (''outcome'', ''fulfilled''), (''stage'', ''validate''), (''kind'', ''missing_value''),
             (''kind'', ''deserialize''), (''kind'', ''producer_send'')])"

definition produced_counter_accumulates_per_label :: "('t \<Rightarrow> f64) \<Rightarrow> (nat \<Rightarrow> 't) \<Rightarrow> bool" where
  "produced_counter_accumulates_per_label seconds millis \<longleftrightarrow>
     (let calls =
        record_produced seconds ''toys'' ''eu-west'' ''wire'' (f64_lit 10) (millis 1) @
        record_produced seconds ''toys'' ''eu-west'' ''wire'' (f64_lit 20) (millis 1) @
        record_produced seconds ''toys'' ''ap-south'' ''wire'' (f64_lit 30) (millis 1)
      in count_list calls (Orders_produced_inc
           \<lparr>produced_category = ''toys'', produced_region = ''eu-west'', produced_payment_method = ''wire''\<rparr>) = 2 \<and>
         count_list calls (Orders_produced_inc
           \<lparr>produced_category = ''toys'', produced_region = ''ap-south'', produced_payment_method = ''wire''\<rparr>) = 1)"

lemma exposed_append: "exposed (cs @ ds) = exposed cs @ exposed ds"
  by (simp add: exposed_def)

lemma metrics_tests_pass:
  assumes "encodes encode (produced_only seconds (millis 2))"
    and "encodes encode (every_recording seconds millis micros)"
  shows "metrics_route_serves_the_encoded_registry version revision encode seconds millis"
    "metrics_router_maps_only_the_metrics_path version revision encode"
    "build_route_reports_the_binary_version_and_revision version revision encode"
    "registry_has_demo_prefix_and_all_metrics encode seconds millis micros"
    "produced_counter_accumulates_per_label seconds millis"
proof -
  note samples = encodes_def exposed_append registered_samples
  show "metrics_route_serves_the_encoded_registry version revision encode seconds millis"
    using assms(1)
    by (simp add: metrics_route_serves_the_encoded_registry_def metrics_router_def export_def produced_only_def
        samples split: sum.splits)
  show "registry_has_demo_prefix_and_all_metrics encode seconds millis micros"
    using assms(2)
    by (simp add: registry_has_demo_prefix_and_all_metrics_def every_recording_def samples split: sum.splits)
  show "metrics_router_maps_only_the_metrics_path version revision encode"
    by (simp add: metrics_router_maps_only_the_metrics_path_def metrics_router_def)
  have "contains (''version='' @ version @ '' '') (body (build_info version revision))" for version
    using containsI [of "''version='' @ version @ '' ''" "[]"] by (simp add: build_info_def Let_def)
  moreover have "contains ''revision='' (body (build_info version revision))"
    using containsI [of "''revision=''" "''version='' @ version @ '' ''"] by (simp add: build_info_def Let_def)
  ultimately show "build_route_reports_the_binary_version_and_revision version revision encode"
    by (simp add: build_route_reports_the_binary_version_and_revision_def metrics_router_def)
      (simp add: build_info_def Let_def)
  show "produced_counter_accumulates_per_label seconds millis"
    by (simp add: produced_counter_accumulates_per_label_def record_defs)
qed

section \<open>All tests\<close>

text \<open>
  The tests of \<open>lib.rs\<close> and \<open>pipeline.rs\<close> pass, with the amounts compared in binary64 (23 plus
  the rounded 0.99 is the rounded 23.99) and the counting topology answering with the counts of the
  keys it was given.
\<close>

lemma rule_and_pipeline_tests_hold:
  assumes "last_counts [''books'', ''books'', ''toys''] outputs"
  shows "order_at_is_deterministic_and_cycles_categories \<and>
   order_at_populates_rich_fields_with_aligned_warehouse \<and> order_at_pins_every_field_period \<and>
   is_anomalous_only_at_zero_not_at_the_tolerance \<and>
   is_suspicious_needs_crypto_and_strictly_over_the_threshold \<and>
   outcome_classification_covers_the_three_paths \<and> count_topology_aggregates_by_category outputs \<and>
   headers_cover_trace_business_missing_and_invalid_values \<and>
   delays_are_stage_specific_and_seeded_slow_orders_cross_25ms \<and>
   decode_distinguishes_missing_values_and_deserialization_failures unreachable \<and>
   processing_visits_all_stages_and_returns_outcome"
  using assms by (simp add: order_tests_hold pipeline_tests_hold count_topology_holds)

lemma rule_and_pipeline_tests_hold_here:
  "count_topology_aggregates_by_category (running_counts [''books'', ''books'', ''toys'']) \<and>
   order_at_pins_every_field_period"
  using rule_and_pipeline_tests_hold [OF last_counts_running] by blast

text \<open>
  The tests of \<open>metrics.rs\<close> pass for every text encoder that prints the sample name and the
  labels of each recording call: every metric of the bundle appears under the demo prefix.
\<close>

lemma metrics_tests_hold:
  assumes "encodes encode (produced_only seconds (millis 2))"
    and "encodes encode (every_recording seconds millis micros)"
  shows "metrics_route_serves_the_encoded_registry version revision encode seconds millis \<and>
    metrics_router_maps_only_the_metrics_path version revision encode \<and>
    build_route_reports_the_binary_version_and_revision version revision encode \<and>
    registry_has_demo_prefix_and_all_metrics encode seconds millis micros \<and>
    produced_counter_accumulates_per_label seconds millis"
  using assms by (simp add: metrics_tests_pass)

text \<open>An encoder that prints just these.\<close>

definition plain_encoder :: "metric_call list \<Rightarrow> string + string" where
  "plain_encoder cs =
     Inr (concat (map (\<lambda>(name, labels). concat (name # map (\<lambda>(k, v). label_text k v) labels)) (exposed cs)))"

lemma plain_encodes: "encodes plain_encoder cs"
proof -
  define parts where "parts = (\<lambda>(name, labels). name # map (\<lambda>(k, v). label_text k v) labels)"
  define buf where "buf = concat (map (\<lambda>x. concat (parts x)) (exposed cs))"
  have self: "contains s s" for s using containsI [of s "[]" "[]"] by simp
  have part: "contains s buf" if "x \<in> set (exposed cs)" "s \<in> set (parts x)" for x s
  proof -
    have "contains s (concat (parts x))" using that(2) self by (rule contains_concat)
    moreover have "concat (parts x) \<in> set (map (\<lambda>x. concat (parts x)) (exposed cs))" using that(1) by auto
    ultimately show ?thesis unfolding buf_def by (rule contains_concat [rotated])
  qed
  have "contains name buf" if "(name, labels) \<in> set (exposed cs)" for name labels
    using part [OF that] by (simp add: parts_def)
  moreover have "contains (label_text k v) buf" if "(name, labels) \<in> set (exposed cs)" "(k, v) \<in> set labels"
    for name labels k v
    using part [OF that(1), of "label_text k v"] that(2) by (force simp: parts_def)
  moreover have "plain_encoder cs = Inr buf"
    by (simp add: plain_encoder_def buf_def parts_def split_def)
  ultimately show ?thesis by (auto simp: encodes_def list_all_iff)
qed

lemma metrics_tests_hold_here:
  "registry_has_demo_prefix_and_all_metrics plain_encoder as_secs_f64 from_millis (\<lambda>n. n * 1000)"
  using metrics_tests_hold [of plain_encoder as_secs_f64 from_millis "\<lambda>n. n * 1000" "''1''" None]
  by (simp add: plain_encodes)

end
