(* ===== verification/Producer_Tests.thy ===== *)
theory Producer_Tests
  imports Scheduler_Prompt
begin

text \<open>
  The test module of \<open>producer.rs\<close>: the recording \<open>FakeProducer\<close> with its delayed deliveries, and the
  three tests of \<open>send_orders\<close> on the paused clock, stated of the model's run under the prompt
  executor. The runs are evaluated on numbers: a light state keeps the numbers of the orders in place
  of the orders, and the executor commutes with the abstraction.
\<close>

section \<open>The fixture\<close>

record fake_producer =
  fake_active :: "string set"
  maximum :: nat
  fake_started :: "order list"
  fake_completed :: "order list"

definition fake_default :: fake_producer where
  "fake_default = \<lparr>fake_active = {}, maximum = 0, fake_started = [], fake_completed = []\<rparr>"

text \<open>\<open>delayed_send\<close> before and after its sleep; a failing assertion is \<^const>\<open>None\<close>.\<close>

definition fake_start :: "order \<Rightarrow> fake_producer \<Rightarrow> fake_producer option" where
  "fake_start ord f =
     (if category ord \<in> fake_active f then None
      else let active = insert (category ord) (fake_active f) in
        Some (f\<lparr>fake_active := active, maximum := max (maximum f) (card active),
                fake_started := fake_started f @ [ord]\<rparr>))"

definition fake_finish :: "order \<Rightarrow> fake_producer \<Rightarrow> fake_producer option" where
  "fake_finish ord f =
     (if category ord \<notin> fake_active f then None
      else Some (f\<lparr>fake_active := fake_active f - {category ord},
                   fake_completed := fake_completed f @ [ord]\<rparr>))"

text \<open>Which of the two a step of the executor runs, and a run of them.\<close>

definition fake_step :: "load \<Rightarrow> nat \<Rightarrow> 'e sim \<Rightarrow> fake_producer \<Rightarrow> fake_producer option" where
  "fake_step l m s f =
     (case sim_event l m s of
        Some (Poll stop fin) \<Rightarrow>
          if stop then Some f
          else (case fin of
              Some (t, _) \<Rightarrow> fake_finish (task_order t) f
            | None \<Rightarrow>
                if takes_tick m (poll_at stop fin (loop s)) (core (loop s)) then
                  fake_start (stamped_order (length (started (core (loop s))))) f
                else Some f)
      | Some (Joined t _) \<Rightarrow> fake_finish (task_order t) f
      | _ \<Rightarrow> Some f)"

primrec tested ::
    "load \<Rightarrow> duration \<Rightarrow> nat \<Rightarrow> interval \<Rightarrow> interval \<Rightarrow> nat \<Rightarrow> (string sim \<times> fake_producer) option" where
  "tested l period m nxt rep 0 = Some (sim_init, fake_default)"
| "tested l period m nxt rep (Suc n) =
     (case tested l period m nxt rep n of None \<Rightarrow> None
      | Some (s, f) \<Rightarrow>
          (case fake_step l m s f of None \<Rightarrow> None
           | Some f' \<Rightarrow> Some (sim_step l period m nxt rep s, f')))"

section \<open>Its assertions hold\<close>

definition fake_inv :: "'e sim \<Rightarrow> fake_producer \<Rightarrow> bool" where
  "fake_inv s f \<longleftrightarrow>
     fake_active f = task_key ` set (pending (core (loop s))) \<and>
     fake_started f = started (core (loop s)) \<and>
     fake_completed f = joined (core (loop s))"

definition peak :: "'e sim \<Rightarrow> nat \<Rightarrow> nat" where
  "peak s p = max p (length (flying s))"

lemma fake_step_ok:
  assumes ok: "sim_ok period m nxt rep s" and f: "fake_inv s f"
  shows "\<exists>f'. fake_step l m s f = Some f' \<and> fake_inv (sim_step l period m nxt rep s) f' \<and>
    maximum f' = (if length (started (core (loop (sim_step l period m nxt rep s)))) = length (started (core (loop s)))
      then maximum f else peak (sim_step l period m nxt rep s) (maximum f))"
proof -
  have d: "data_inv m (core (loop s))" and inv: "sim_inv m s"
    using sim_ok_data [OF ok] ok by (simp_all add: sim_ok_def)
  have r: "send_reachable period m (core (loop s))" using ok timed_reachable_core by (auto simp: sim_ok_def)
  have rem: "task_key ` set (remove1 t (pending (core (loop s)))) =
      task_key ` set (pending (core (loop s))) - {task_key t}"
    if "t \<in> set (pending (core (loop s)))" for t
    using d that by (intro remove1_set_distinct_map) (simp_all add: data_inv_def)
  have key: "category (stamped_order i) = task_key (sim_task i)" "task_order (sim_task i) = stamped_order i" for i
    by (simp_all add: sim_task_def)
  from d inv show ?thesis
  proof (cases rule: sim_step_cases [where l = l and period = period and nxt = nxt and rep = rep])
    case (join i)
    have i: "sim_task i \<in> set (pending (core (loop s)))" using take_done_send(2) [OF d inv join(2)] .
    then have "task_key (sim_task i) \<in> fake_active f" using f by (auto simp: fake_inv_def)
    moreover have "fake_step l m s f = fake_finish (stamped_order i) f"
      using join(1,2) by (auto simp: fake_step_def sim_event_def done_send_def key split: option.splits if_splits)
    ultimately show ?thesis using f rem [OF i] join(3)
      by (auto simp: fake_finish_def fake_inv_def key timed_apply_def drain_step_def)
  next
    case (finish i)
    have i: "sim_task i \<in> set (pending (core (loop s)))" using take_done_send(2) [OF d inv finish(3)] .
    then have "task_key (sim_task i) \<in> fake_active f" using f by (auto simp: fake_inv_def)
    moreover have "fake_step l m s f = fake_finish (stamped_order i) f"
      using finish(1-3) by (simp add: fake_step_def sim_event_def branch_ready_def result_of_def key)
    ultimately show ?thesis using f rem [OF i] finish(4)
      by (auto simp: fake_finish_def fake_inv_def key)
  next
    case tick
    let ?n = "length (started (core (loop s)))"
    have so: "(next_order (core (loop s)))\<lparr>ts_ms := i64_from_u64_or_max (index (core (loop s)))\<rparr> = stamped_order ?n"
      using d by (simp add: data_inv_def stamped_order_def)
    have cat: "category (stamped_order ?n) = category (next_order (core (loop s)))"
      using d by (simp add: data_inv_def stamped_order_def)
    have active: "active_keys (core (loop s)) = task_key ` set (pending (core (loop s)))"
      using reachable_inv(2) [OF r] tick(1) by (simp add: control_inv_def)
    then have fresh: "category (stamped_order ?n) \<notin> fake_active f"
      using f tick(6) cat by (simp add: fake_inv_def can_admit_def)
    have dk: "distinct (map task_key (pending (core (loop s))))" using d by (simp add: data_inv_def)
    have len: "length (pending (core (loop s))) = length (flying s)" using inv by (simp add: sim_inv_def)
    have "card (fake_active f) = length (flying s)"
      using f distinct_card [OF dk] len by (simp add: fake_inv_def)
    moreover have "finite (fake_active f)" using f by (simp add: fake_inv_def)
    ultimately have "card (insert (category (stamped_order ?n)) (fake_active f)) = Suc (length (flying s))"
      using fresh by simp
    moreover have "fake_step l m s f = fake_start (stamped_order ?n) f"
      using tick(1-6) by (simp add: fake_step_def sim_event_def branch_ready_def takes_tick_def)
    ultimately show ?thesis
      using f fresh tick(7) cat
      by (auto simp: fake_start_def fake_inv_def peak_def Let_def) (simp_all add: admit_def Let_def so)
  next
    case wait
    then have "fake_step l m s f = Some f" by (simp add: fake_step_def sim_event_def)
    then show ?thesis using f wait(3) by (simp add: fake_inv_def)
  qed (use f in \<open>simp_all add: fake_step_def sim_event_def branch_ready_def fake_inv_def timed_apply_def
    finish_step_def done_send_def takes_tick_def\<close>)
qed


section \<open>The run on numbers\<close>

record light =
  l_started :: nat
  l_sends :: "(nat \<times> duration) list"
  l_ok :: u64
  l_bad :: u64
  l_now :: duration
  l_tick :: duration
  l_report :: duration
  l_phase :: nat
  l_peak :: nat

definition phase_number :: "'e phase \<Rightarrow> nat" where
  "phase_number p = (case p of Admitting \<Rightarrow> 0 | Draining \<Rightarrow> 1 | Finished _ \<Rightarrow> 2)"

definition light_of :: "'e sim \<Rightarrow> nat \<Rightarrow> light" where
  "light_of s p =
     \<lparr>l_started = length (started (core (loop s))), l_sends = flying s,
      l_ok = acknowledged (report (core (loop s))), l_bad = failed (report (core (loop s))),
      l_now = now (loop s), l_tick = tick_at (loop s), l_report = report_at (loop s),
      l_phase = phase_number (phase (core (loop s))), l_peak = p\<rparr>"

definition light_finish :: "(nat \<Rightarrow> bool) \<Rightarrow> nat \<Rightarrow> light \<Rightarrow> light" where
  "light_finish ok i x =
     (let others = filter (\<lambda>y. fst y \<noteq> i) (l_sends x) in
      if ok i then x\<lparr>l_sends := others, l_ok := l_ok x + 1\<rparr>
      else x\<lparr>l_sends := others, l_bad := l_bad x + 1\<rparr>)"

definition light_admits :: "nat \<Rightarrow> light \<Rightarrow> bool" where
  "light_admits m x \<longleftrightarrow>
     length (l_sends x) < m \<and> list_all (\<lambda>y. l_started x mod 5 \<noteq> fst y mod 5) (l_sends x)"

definition light_admit :: "(nat \<Rightarrow> duration) \<Rightarrow> duration \<Rightarrow> light \<Rightarrow> light" where
  "light_admit dl period x =
     (let q = l_sends x @ [(l_started x, l_now x + dl (l_started x))] in
      x\<lparr>l_started := l_started x + 1, l_sends := q, l_tick := skip_next period (l_tick x) (l_now x),
        l_peak := max (l_peak x) (length q)\<rparr>)"

definition light_idle :: "(nat \<Rightarrow> duration) \<Rightarrow> duration \<Rightarrow> duration \<Rightarrow> nat \<Rightarrow> light \<Rightarrow> light" where
  "light_idle dl stop period m x =
     (if stop \<le> l_now x then x\<lparr>l_phase := 1\<rparr>
      else if l_report x \<le> l_now x then x\<lparr>l_report := l_report x + report_period\<rparr>
      else if l_tick x \<le> l_now x \<and> light_admits m x then light_admit dl period x
      else x\<lparr>l_now := foldr min (l_report x # map snd (l_sends x) @
        (if light_admits m x then [l_tick x] else [])) stop\<rparr>)"

definition light_step ::
    "(nat \<Rightarrow> duration) \<Rightarrow> (nat \<Rightarrow> bool) \<Rightarrow> duration \<Rightarrow> duration \<Rightarrow> nat \<Rightarrow> light \<Rightarrow> light" where
  "light_step dl ok stop period m x =
     (if l_phase x = 0 then
        (case earliest (l_sends x) of
           Some (i, d) \<Rightarrow>
             if d \<le> l_now x \<and> l_now x < stop then light_finish ok i x else light_idle dl stop period m x
         | None \<Rightarrow> light_idle dl stop period m x)
      else if l_phase x = 1 then
        (case earliest (l_sends x) of
           Some (i, d) \<Rightarrow> if d \<le> l_now x then light_finish ok i x else x\<lparr>l_now := d\<rparr>
         | None \<Rightarrow> x\<lparr>l_phase := 2\<rparr>)
      else x)"

lemma done_send_Some: "done_send s = Some i \<longleftrightarrow> (\<exists>d. earliest (flying s) = Some (i, d) \<and> d \<le> now (loop s))"
  by (auto simp: done_send_def split: option.split)

lemma light_admits_iff:
  assumes "sim_ok period m nxt rep s" and "phase (core (loop s)) = Admitting"
    and "length (started (core (loop s))) < 2 ^ 64"
  shows "light_admits m (light_of s p) = can_admit m (core (loop s))"
proof -
  have "length (pending (core (loop s))) = length (flying s)"
    using assms(1) by (simp add: sim_ok_def sim_inv_def)
  then show ?thesis using key_busy [OF assms]
    by (auto simp: light_admits_def can_admit_def light_of_def list_all_iff)
qed

lemma light_step_sim:
  assumes ok: "sim_ok period m (skip_next period) (burst_next report_period) s"
    and n: "length (started (core (loop s))) < 2 ^ 64"
    and dl: "\<And>i. i < 2 ^ 64 \<Longrightarrow> delay l (stamped_order i) = dl i \<and> succeeds l (stamped_order i) = su i"
  shows "light_of (sim_step l period m (skip_next period) (burst_next report_period) s)
      (if length (started (core (loop (sim_step l period m (skip_next period) (burst_next report_period) s)))) =
          length (started (core (loop s))) then p
       else peak (sim_step l period m (skip_next period) (burst_next report_period) s) p) =
    light_step dl su (stop_at l) period m (light_of s p)"
proof -
  have d: "data_inv m (core (loop s))" and inv: "sim_inv m s"
    using sim_ok_data [OF ok] ok by (simp_all add: sim_ok_def)
  have small: "i < 2 ^ 64" if "(i, e) \<in> set (flying s)" for i e
    using inv that n by (force simp: sim_inv_def)
  note defs = light_of_def light_step_def light_finish_def light_idle_def light_admit_def phase_number_def Let_def
  from d inv show ?thesis
  proof (cases rule: sim_step_cases [where l = l and period = period and nxt = "skip_next period" and
        rep = "burst_next report_period"])
    case (stopped r)
    then show ?thesis by (simp add: defs)
  next
    case return
    then show ?thesis by (simp add: defs timed_apply_def finish_step_def)
  next
    case (join i)
    obtain e where e: "earliest (flying s) = Some (i, e)" "e \<le> now (loop s)"
      using join(2) by (auto simp: done_send_Some)
    then have "i < 2 ^ 64" using earliest_in [OF e(1)] small by blast
    then show ?thesis using join e dl by (auto simp: defs timed_apply_def drain_step_def report_record_def)
  next
    case (drain_wait i e)
    then show ?thesis by (simp add: defs)
  next
    case wait
    then have "done_send s = None" by (simp add: branch_ready_def)
    then have e: "earliest (flying s) = None \<or> (\<exists>i e. earliest (flying s) = Some (i, e) \<and> now (loop s) < e)"
      by (auto simp: done_send_def split: option.splits if_splits)
    have "now (loop s) + (next_time l m s - now (loop s)) = next_time l m s"
      using next_time_later [OF wait(2)] by simp
    then show ?thesis
      using wait e light_admits_iff [OF ok wait(1) n, of p]
      by (auto simp: defs branch_ready_def next_time_def)
  next
    case shutdown
    then show ?thesis by (auto simp: defs split: option.split)
  next
    case (finish i)
    obtain e where e: "earliest (flying s) = Some (i, e)" "e \<le> now (loop s)"
      using finish(3) by (auto simp: done_send_Some)
    then have "i < 2 ^ 64" using earliest_in [OF e(1)] small by blast
    then show ?thesis using finish e dl by (auto simp: defs report_record_def)
  next
    case (log r)
    then show ?thesis
      by (auto simp: defs done_send_def burst_next_def split: option.splits if_splits)
  next
    case tick
    have "report (admit (core (loop s))) = report (core (loop s))" by simp
    then show ?thesis
      using tick light_admits_iff [OF ok tick(1) n, of p] dl [OF n]
      by (auto simp: defs done_send_def peak_def split: option.splits if_splits)
  qed
qed


definition light_init :: light where
  "light_init = \<lparr>l_started = 0, l_sends = [], l_ok = 0, l_bad = 0, l_now = 0, l_tick = 0,
     l_report = report_period, l_phase = 0, l_peak = 0\<rparr>"

lemma simulate_small:
  assumes "0 < period" and "stop_at l \<le> 2 ^ 63 * period"
  shows "length (started (core (loop (simulate l period m (skip_next period) (burst_next report_period) n :: 'e sim)))) < 2 ^ 64"
proof -
  let ?s = "simulate l period m (skip_next period) (burst_next report_period) n :: 'e sim"
  have "sim_bounds l ?s" by (rule simulate_bounds [OF burst_law_burst_next])
  moreover have "timed_inv period 1 (loop ?s)"
    using timed.inv_reachable [OF simulate_timed, of period 1 "skip_next period" l m "burst_next report_period" n]
      skip_law_skip_next [OF assms(1)] by blast
  ultimately have "length (started (core (loop ?s))) \<le> Suc (stop_at l div period)"
    by (intro started_bound [OF assms(1)]) (simp_all add: sim_bounds_def)
  also have "\<dots> \<le> Suc (2 ^ 63)"
    using div_le_mono [OF assms(2), of period] assms(1) by simp
  also have "\<dots> < 2 ^ 64" by simp
  finally show ?thesis .
qed

lemma tested_run:
  assumes "0 < period" and "stop_at l \<le> 2 ^ 63 * period"
    and dl: "\<And>i. i < 2 ^ 64 \<Longrightarrow> delay l (stamped_order i) = dl i \<and> succeeds l (stamped_order i) = su i"
  shows "\<exists>f. tested l period m (skip_next period) (burst_next report_period) n =
      Some (simulate l period m (skip_next period) (burst_next report_period) n, f) \<and>
    fake_inv (simulate l period m (skip_next period) (burst_next report_period) n :: string sim) f \<and>
    light_of (simulate l period m (skip_next period) (burst_next report_period) n :: string sim) (maximum f) =
      (light_step dl su (stop_at l) period m ^^ n) light_init"
proof (induction n)
  case 0
  then show ?case
    by (simp add: simulate_def fake_inv_def fake_default_def light_of_def light_init_def sim_init_def
        timed_init_def sched_init_def report_default_def phase_number_def)
next
  case (Suc n)
  let ?s = "simulate l period m (skip_next period) (burst_next report_period) n :: string sim"
  let ?t = "simulate l period m (skip_next period) (burst_next report_period) (Suc n) :: string sim"
  have st: "?t = sim_step l period m (skip_next period) (burst_next report_period) ?s"
    by (simp add: simulate_def)
  from Suc obtain f where f: "tested l period m (skip_next period) (burst_next report_period) n = Some (?s, f)"
    "fake_inv ?s f" "light_of ?s (maximum f) = (light_step dl su (stop_at l) period m ^^ n) light_init"
    by blast
  obtain f' where f': "fake_step l m ?s f = Some f'" "fake_inv ?t f'"
    "maximum f' = (if length (started (core (loop ?t))) = length (started (core (loop ?s)))
      then maximum f else peak ?t (maximum f))"
    using fake_step_ok [OF simulate_ok f(2), of l] unfolding st by blast
  have "light_of ?t (maximum f') = light_step dl su (stop_at l) period m (light_of ?s (maximum f))"
    unfolding f'(3) st by (rule light_step_sim [OF simulate_ok simulate_small [OF assms(1,2)] dl])
  then show ?case using f f' st by (intro exI [of _ f']) simp
qed

lemma tested_simulated:
  assumes "0 < period" and "stop_at l \<le> 2 ^ 63 * period"
    and "\<And>i. i < 2 ^ 64 \<Longrightarrow> delay l (stamped_order i) = dl i \<and> succeeds l (stamped_order i) = su i"
    and "tested l period m (skip_next period) (burst_next report_period) n = Some (s, f)"
  shows "send_reachable period m (core (loop s))" and "length (started (core (loop s))) < 2 ^ 64"
proof -
  have "s = simulate l period m (skip_next period) (burst_next report_period) n"
    using tested_run [OF assms(1-3), of m n] assms(4) by auto
  then show "send_reachable period m (core (loop s))" "length (started (core (loop s))) < 2 ^ 64"
    using simulate_reachable simulate_small [OF assms(1,2)] by simp_all
qed

text \<open>What the end of a light run says of the model's run.\<close>

lemma tested_end:
  assumes "0 < period" and "stop_at l \<le> 2 ^ 63 * period"
    and "\<And>i. i < 2 ^ 64 \<Longrightarrow> delay l (stamped_order i) = dl i \<and> succeeds l (stamped_order i) = su i"
    and run: "(light_step dl su (stop_at l) period m ^^ n) light_init = x" and "l_phase x = 2"
  shows "\<exists>s f. tested l period m (skip_next period) (burst_next report_period) n = Some (s, f) \<and>
    timed_reachable period m (skip_next period) (burst_next report_period) (loop s) \<and>
    phase (core (loop s)) = Finished (Inr \<lparr>acknowledged = l_ok x, failed = l_bad x\<rparr>) \<and>
    now (loop s) = l_now x \<and> maximum f = l_peak x \<and> fake_active f = {} \<and>
    fake_started f = map stamped_order [0..<l_started x] \<and> length (fake_started f) = l_started x \<and>
    (\<forall>k. of_key k (fake_started f) = of_key k (fake_completed f)) \<and>
    length (fake_completed f) = l_started x"
proof -
  let ?s = "simulate l period m (skip_next period) (burst_next report_period) n :: string sim"
  obtain f where f: "tested l period m (skip_next period) (burst_next report_period) n = Some (?s, f)"
    "fake_inv ?s f" "light_of ?s (maximum f) = x"
    using tested_run [OF assms(1-3)] run by metis
  have "returned (core (loop ?s))"
    using f(3) assms(5) by (auto simp: light_of_def phase_number_def returned_def split: phase.splits)
  from returned_Ok [OF this] have e: "phase (core (loop ?s)) = Finished (Inr (report (core (loop ?s))))"
    "pending (core (loop ?s)) = []" by simp_all
  have d: "data_inv m (core (loop ?s))" by (rule reachable_inv [OF simulate_reachable])
  have r: "report (core (loop ?s)) = \<lparr>acknowledged = l_ok x, failed = l_bad x\<rparr>"
    using f(3) by (auto simp: light_of_def)
  have st: "length (started (core (loop ?s))) = l_started x" "now (loop ?s) = l_now x" "maximum f = l_peak x"
    using f(3) by (auto simp: light_of_def)
  have "started (core (loop ?s)) = map stamped_order [0..<l_started x]"
    using d st(1) by (simp add: data_inv_def)
  moreover have "of_key k (started (core (loop ?s))) =
      of_key k (joined (core (loop ?s))) @ of_key k (map task_order (pending (core (loop ?s))))" for k
    using d unfolding data_inv_def by blast
  then have "\<forall>k. of_key k (started (core (loop ?s))) = of_key k (joined (core (loop ?s)))"
    using e(2) by simp
  moreover have "length (joined (core (loop ?s))) = l_started x"
    using d e(2) st(1) by (simp add: data_inv_def)
  ultimately show ?thesis
    using f(1,2) e r st simulate_timed [of period m "skip_next period" "burst_next report_period" l n]
    by (intro exI [of _ ?s] exI [of _ f]) (simp add: fake_inv_def)
qed

lemma funpow_numeral [simp]: "(f ^^ numeral k) x = (f ^^ pred_numeral k) (f x)"
  by (simp add: numeral_eq_Suc funpow_swap1)

lemma funpow_one [simp]: "(f ^^ 1) x = (f :: 'a \<Rightarrow> 'a) x"
  by simp

lemmas light_eval = light_init_def light_step_def light_finish_def light_idle_def light_admit_def
  light_admits_def Let_def skip_next_def report_period_def from_secs_def

section \<open>\<open>delayed_producer_bounds_concurrency_and_reaches_requested_rate\<close>\<close>

definition steady_load :: load where
  "steady_load =
     \<lparr>delay = \<lambda>_. from_millis 50, succeeds = \<lambda>_. True, stop_at = from_secs 1\<rparr>"

text \<open>The body of the test's loop, with the number of steps given to the executor.\<close>

definition bounds_concurrency :: "nat \<Rightarrow> nat \<Rightarrow> bool" where
  "bounds_concurrency n limit =
     (case tested steady_load (from_millis 20) limit (skip_next (from_millis 20))
             (burst_next report_period) n of
        None \<Rightarrow> False
      | Some (s, f) \<Rightarrow>
          (case phase (core (loop s)) of
             Finished (Inr rep) \<Rightarrow>
               maximum f = min limit 3 \<and> fake_active f = {} \<and>
               length (fake_started f) = length (fake_completed f) \<and> failed rep = 0 \<and>
               (if limit = 1 then achieved_rate rep (now (loop s)) \<le> f64_lit 20
                else if 5 \<le> limit then
                  acknowledged rep = 50 \<and> f64_lit 48 < achieved_rate rep (now (loop s))
                else True) \<and>
               list_all (\<lambda>i. fake_started f ! i =
                   (order_at (of_nat i))\<lparr>ts_ms := i64_from_u64_or_max (of_nat i)\<rparr>)
                 [0..<length (fake_started f)]
           | _ \<Rightarrow> False))"

lemma steady_light:
  "(light_step (\<lambda>i. 50000000) (\<lambda>i. True) 1000000000 20000000 1 ^^ 260) light_init =
     \<lparr>l_started = 20, l_sends = [], l_ok = 20, l_bad = 0, l_now = 1000000000, l_tick = 960000000,
      l_report = 5000000000, l_phase = 2, l_peak = Suc 0\<rparr>"
  "(light_step (\<lambda>i. 50000000) (\<lambda>i. True) 1000000000 20000000 2 ^^ 260) light_init =
     \<lparr>l_started = 40, l_sends = [], l_ok = 40, l_bad = 0, l_now = 1020000000, l_tick = 980000000,
      l_report = 5000000000, l_phase = 2, l_peak = 2\<rparr>"
  "(light_step (\<lambda>i. 50000000) (\<lambda>i. True) 1000000000 20000000 5 ^^ 260) light_init =
     \<lparr>l_started = 50, l_sends = [], l_ok = 50, l_bad = 0, l_now = 1030000000, l_tick = 1000000000,
      l_report = 5000000000, l_phase = 2, l_peak = 3\<rparr>"
  "(light_step (\<lambda>i. 50000000) (\<lambda>i. True) 1000000000 20000000 10 ^^ 260) light_init =
     \<lparr>l_started = 50, l_sends = [], l_ok = 50, l_bad = 0, l_now = 1030000000, l_tick = 1000000000,
      l_report = 5000000000, l_phase = 2, l_peak = 3\<rparr>"
  by (simp_all add: light_eval del: One_nat_def)

section \<open>\<open>slow_key_stays_ordered_and_shutdown_drains_failures_and_successes\<close>\<close>

definition slow_key_load :: load where
  "slow_key_load =
     \<lparr>delay = \<lambda>ord. from_millis (if category ord = ''books'' then 200 else 20),
      succeeds = \<lambda>ord. category ord \<noteq> ''books'',
      stop_at = from_millis 225\<rparr>"

lemma slow_key_light:
  "(light_step (\<lambda>i. if i mod 5 = 0 then 200000000 else 20000000) (\<lambda>i. i mod 5 \<noteq> 0)
     225000000 5000000 5 ^^ 60) light_init =
     \<lparr>l_started = 10, l_sends = [], l_ok = 8, l_bad = 2, l_now = 400000000,
      l_tick = 225000000, l_report = 5000000000, l_phase = 2, l_peak = 5\<rparr>"
  by (simp add: light_eval del: One_nat_def)


section \<open>The rates\<close>

lemma as_secs_whole:
  assumes "0 < n" and "n < 2 ^ 53"
  shows "as_secs_f64 (n * 10 ^ 9) = F64_Num False (of_nat n)"
proof -
  have z: "div64 (f64_of_nat 0) (f64_of_nat (10 ^ 9)) = F64_Num False 0"
    using f64_of_nat_num [of 0] f64_of_nat_num [of "10 ^ 9"] by (simp add: f64_overflow_def)
  have "as_secs_f64 (n * 10 ^ 9) = add64 (F64_Num False (of_nat n)) (F64_Num False 0)"
  proof -
    have "n * 10 ^ 9 div 10 ^ 9 = n" "n * 10 ^ 9 mod 10 ^ 9 = 0" by simp_all
    then show ?thesis by (simp only: as_secs_f64_def z f64_of_nat_num [OF assms(2)])
  qed
  also have "\<dots> = F64_Num False (of_nat n)"
    using assms(1) f64_lit_nat [OF assms(2)] by (simp add: f64_lit_def)
  finally show ?thesis .
qed


text \<open>An elapsed time is a positive number, so the guard against zero is not needed.\<close>

lemma achieved_rate_value:
  assumes "as_secs_f64 d = F64_Num False e" and "1 \<le> e" and "e \<le> 2 ^ 60"
    and "0 < unat (acknowledged rep)" and "unat (acknowledged rep) < 2 ^ 53"
  shows "achieved_rate rep d = F64_Num False (round_mag (of_nat (unat (acknowledged rep)) / e))"
proof -
  define k where "k = unat (acknowledged rep)"
  have n: "as_secs_f64 (from_secs k) = F64_Num False (of_nat k)"
    using as_secs_whole [OF assms(4,5)] by (simp add: from_secs_def k_def)
  have m: "max64 (F64_Num False e) f64_epsilon = F64_Num False e"
    using assms(2) by (simp add: max64_def f64_epsilon_def)
  have "(of_nat k :: rat) \<le> of_nat (2 ^ 53)" using assms(5) by (simp only: of_nat_le_iff less_imp_le k_def)
  moreover have "of_nat k / e \<le> of_nat k / 1"
    using assms(2) by (intro divide_left_mono) simp_all
  ultimately have "of_nat k / e \<le> (2::rat) ^ 1023" by (simp add: order_trans)
  then show ?thesis
    unfolding achieved_rate_def assms(1) k_def [symmetric] n m using assms(2) by (intro div64_num) simp_all
qed

lemma as_secs_elapsed: "as_secs_f64 1030000000 = F64_Num False (4638707616191611 / 4503599627370496)"
proof -
  have r: "round_mag (3 / 100) = 1080863910568919 / 36028797018963968"
    "round_mag (1 + 1080863910568919 / 36028797018963968) = 4638707616191611 / 4503599627370496"
    by code_simp+
  have "as_secs_f64 1030000000 = add64 (F64_Num False 1) (div64 (F64_Num False 30000000) (F64_Num False (10 ^ 9)))"
    using f64_of_nat_num [of 1] f64_of_nat_num [of 30000000] f64_of_nat_num [of "10 ^ 9"]
    by (simp add: as_secs_f64_def del: add64.simps div64.simps)
  also have "\<dots> = add64 (F64_Num False 1) (F64_Num False (1080863910568919 / 36028797018963968))"
    using div64_num [of 30000000 "10 ^ 9"] r(1) by (simp del: add64.simps div64.simps)
  also have "\<dots> = F64_Num False (4638707616191611 / 4503599627370496)"
    using add64_num [of 1 "1080863910568919 / 36028797018963968"] r(2) by (simp del: add64.simps)
  finally show ?thesis .
qed

lemma steady_rates:
  "achieved_rate \<lparr>acknowledged = 20, failed = 0\<rparr> 1000000000 = F64_Num False 20"
  "f64_lit 48 < achieved_rate \<lparr>acknowledged = 50, failed = 0\<rparr> 1030000000"
  "achieved_rate \<lparr>acknowledged = 8, failed = 2\<rparr> 2000000000 = F64_Num False 4"
proof -
  show "achieved_rate \<lparr>acknowledged = 20, failed = 0\<rparr> 1000000000 = F64_Num False 20"
    using achieved_rate_value [OF as_secs_whole [of 1], of "\<lparr>acknowledged = 20, failed = 0\<rparr>"]
      round_mag_of_nat [of 20] by simp
  show "achieved_rate \<lparr>acknowledged = 8, failed = 2\<rparr> 2000000000 = F64_Num False 4"
    using achieved_rate_value [OF as_secs_whole [of 2], of "\<lparr>acknowledged = 8, failed = 2\<rparr>"]
      round_mag_of_nat [of 4] by simp
  have "48 < round_mag (50 / (4638707616191611 / 4503599627370496))" by code_simp
  then show "f64_lit 48 < achieved_rate \<lparr>acknowledged = 50, failed = 0\<rparr> 1030000000"
    using achieved_rate_value [OF as_secs_elapsed, of "\<lparr>acknowledged = 50, failed = 0\<rparr>"] by simp
qed


lemma steady_end:
  assumes "(light_step (\<lambda>i. 50000000) (\<lambda>i. True) 1000000000 20000000 limit ^^ n) light_init = x"
    and "l_phase x = 2"
  shows "\<exists>s f. tested steady_load (from_millis 20) limit (skip_next (from_millis 20))
      (burst_next report_period) n = Some (s, f) \<and>
    phase (core (loop s)) = Finished (Inr \<lparr>acknowledged = l_ok x, failed = l_bad x\<rparr>) \<and>
    now (loop s) = l_now x \<and> maximum f = l_peak x \<and> fake_active f = {} \<and>
    fake_started f = map stamped_order [0..<l_started x] \<and> length (fake_completed f) = l_started x"
proof -
  have l: "delay steady_load (stamped_order i) = 50000000 \<and> succeeds steady_load (stamped_order i) = True"
    "stop_at steady_load = 1000000000" "from_millis 20 = 20000000" for i
    by (simp_all add: steady_load_def from_millis_def from_secs_def)
  have run: "(light_step (\<lambda>i. 50000000) (\<lambda>i. True) (stop_at steady_load) (from_millis 20) limit ^^ n) light_init = x"
    using assms(1) by (simp only: l)
  have b: "0 < from_millis 20" "stop_at steady_load \<le> 2 ^ 63 * from_millis 20"
    by (simp_all add: l)
  show ?thesis using tested_end [OF b l(1) run assms(2)] by blast
qed

lemma bounds_concurrency_end:
  assumes "(light_step (\<lambda>i. 50000000) (\<lambda>i. True) 1000000000 20000000 limit ^^ n) light_init = x"
    and "l_phase x = 2" and "l_bad x = 0" and "l_peak x = min limit 3"
    and "limit = 1 \<longrightarrow> achieved_rate \<lparr>acknowledged = l_ok x, failed = 0\<rparr> (l_now x) \<le> f64_lit 20"
    and "5 \<le> limit \<longrightarrow> l_ok x = 50 \<and> f64_lit 48 < achieved_rate \<lparr>acknowledged = 50, failed = 0\<rparr> (l_now x)"
  shows "bounds_concurrency n limit"
proof -
  obtain s f where sf: "tested steady_load (from_millis 20) limit (skip_next (from_millis 20))
      (burst_next report_period) n = Some (s, f)"
    "phase (core (loop s)) = Finished (Inr \<lparr>acknowledged = l_ok x, failed = l_bad x\<rparr>)"
    "now (loop s) = l_now x" "maximum f = l_peak x" "fake_active f = {}"
    "fake_started f = map stamped_order [0..<l_started x]" "length (fake_completed f) = l_started x"
    using steady_end [OF assms(1,2)] by blast
  then show ?thesis using assms(3-6)
    by (simp add: bounds_concurrency_def list_all_iff stamped_order_def)
qed


definition ready_shutdown_load :: load where
  "ready_shutdown_load = \<lparr>delay = \<lambda>_. 0, succeeds = \<lambda>_. False, stop_at = 0\<rparr>"

text \<open>\<open>slow_key_stays_ordered_and_shutdown_drains_failures_and_successes\<close>\<close>

definition slow_key_stays_ordered :: "nat \<Rightarrow> bool" where
  "slow_key_stays_ordered n =
     (case tested slow_key_load (from_millis 5) 5 (skip_next (from_millis 5))
             (burst_next report_period) n of
        None \<Rightarrow> False
      | Some (s, f) \<Rightarrow>
          (case phase (core (loop s)) of
             Finished (Inr rep) \<Rightarrow>
               fake_active f = {} \<and> maximum f \<le> 5 \<and> now (loop s) = from_millis 400 \<and>
               length (fake_started f) = 10 \<and> length (fake_completed f) = 10 \<and>
               acknowledged rep = 8 \<and> failed rep = 2 \<and>
               achieved_rate rep (from_secs 2) = f64_lit 4 \<and>
               list_all (\<lambda>k. map order_id (of_key k (fake_started f)) =
                   map order_id (of_key k (fake_completed f))) CATEGORIES
           | _ \<Rightarrow> False))"

lemma stamped_category: "i < 2 ^ 64 \<Longrightarrow> category (stamped_order i) = CATEGORIES ! (i mod 5)"
  by (simp add: stamped_order_def unat_of_nat)

lemma slow_key_end: "slow_key_stays_ordered 60"
proof -
  have l: "from_millis 5 = 5000000" "stop_at slow_key_load = 225000000"
    by (simp_all add: slow_key_load_def from_millis_def)
  have dl: "delay slow_key_load (stamped_order i) = (if i mod 5 = 0 then 200000000 else 20000000) \<and>
      succeeds slow_key_load (stamped_order i) = (i mod 5 \<noteq> 0)" if "i < 2 ^ 64" for i
  proof -
    have "CATEGORIES ! (i mod 5) = ''books'' \<longleftrightarrow> i mod 5 = 0"
      using nth_eq_iff_index_eq [OF distinct_CATEGORIES, of "i mod 5" 0] by (simp add: CATEGORIES_def)
    then show ?thesis using that by (simp add: slow_key_load_def stamped_category from_millis_def)
  qed
  have b: "0 < from_millis 5" "stop_at slow_key_load \<le> 2 ^ 63 * from_millis 5" by (simp_all add: l)
  have run: "(light_step (\<lambda>i. if i mod 5 = 0 then 200000000 else 20000000) (\<lambda>i. i mod 5 \<noteq> 0)
      (stop_at slow_key_load) (from_millis 5) 5 ^^ 60) light_init =
     \<lparr>l_started = 10, l_sends = [], l_ok = 8, l_bad = 2, l_now = 400000000,
      l_tick = 225000000, l_report = 5000000000, l_phase = 2, l_peak = 5\<rparr>"
    using slow_key_light by (simp only: l)
  obtain s f where "tested slow_key_load (from_millis 5) 5 (skip_next (from_millis 5))
      (burst_next report_period) 60 = Some (s, f)"
    "phase (core (loop s)) = Finished (Inr \<lparr>acknowledged = 8, failed = 2\<rparr>)"
    "now (loop s) = 400000000" "maximum f = 5" "fake_active f = {}"
    "length (fake_started f) = 10" "\<forall>k. of_key k (fake_started f) = of_key k (fake_completed f)"
    "length (fake_completed f) = 10"
    using tested_end [OF b dl run] by auto
  then show ?thesis using steady_rates(3)
    by (simp add: slow_key_stays_ordered_def from_millis_def from_secs_def list_all_iff)
qed

text \<open>\<open>ready_shutdown_admits_no_orders\<close>: the \<open>send\<close> given to it panics, so it must not be called.\<close>

definition ready_shutdown_admits_none :: "nat \<Rightarrow> bool" where
  "ready_shutdown_admits_none n =
     (let s = (simulate ready_shutdown_load (from_millis 20) 5 (skip_next (from_millis 20))
                 (burst_next report_period) n :: string sim) in
      started (core (loop s)) = [] \<and>
      (case phase (core (loop s)) of Finished (Inr rep) \<Rightarrow> acknowledged rep = 0 \<and> failed rep = 0
       | _ \<Rightarrow> False))"

lemma ready_shutdown_end: "ready_shutdown_admits_none 2"
  by (simp add: ready_shutdown_admits_none_def simulate_def numeral_2_eq_2 sim_init_def sim_step_def
      sim_event_def timed_init_def sched_init_def branch_ready_def ready_shutdown_load_def
      timed_apply_def timed_select_def select_shutdown takes_tick_def takes_report_def sim_sends_def Let_def
      finish_step_def report_default_def)

section \<open>Properties\<close>


end
