(* ===== verification/Delivery_Tests.thy ===== *)
theory Delivery_Tests
  imports Producer_Tests Publish Consumer Config_Spec
begin

text \<open>
  The tests of \<open>main.rs\<close> that run the delivery of orders and the processing of one: the retry loop, five
  concurrent deliveries that succeed at their third attempt, and a decoded order that passes all
  stages. The environment of the effects counts the attempts and keeps the records the client got.
\<close>

section \<open>\<open>sends_retry_delivery_errors_and_stop_at_success_or_three_attempts\<close>\<close>

text \<open>The closure given to \<open>send_with_retry\<close>: the attempt number \<open>succeed_at\<close> succeeds.\<close>

definition succeeding_at :: "nat \<Rightarrow> nat \<Rightarrow> (string + unit) \<times> nat" where
  "succeeding_at succeed_at attempts =
     (let attempts = attempts + 1 in
      (if attempts = succeed_at then Inr () else Inl ''server error 29'', attempts))"

definition sends_retry_delivery_errors_and_stop_at_success_or_three_attempts :: "(string \<Rightarrow> string) \<Rightarrow> bool" where
  "sends_retry_delivery_errors_and_stop_at_success_or_three_attempts err_text \<longleftrightarrow>
     list_all (\<lambda>(succeed_at, expected_attempts, expected_errors).
       let (sent, w) = run_state (send_with_retry err_text (external (succeeding_at succeed_at)))
             \<lparr>env = 0, trace = []\<rparr>
       in sent = (succeed_at \<le> 3) \<and> env w = expected_attempts \<and>
          error_count Producer_send (calls (trace w)) = expected_errors)
     [(1, 1, 0), (2, 2, 1), (4, 3, 3)]"

lemma retry_test_holds: "sends_retry_delivery_errors_and_stop_at_success_or_three_attempts err_text"
  by (simp add: sends_retry_delivery_errors_and_stop_at_success_or_three_attempts_def send_with_retry_def
      run_external succeeding_at_def upt_rec call_simps error_count_def)

section \<open>\<open>concurrent_deliveries_keep_trace_context_and_records_across_retries\<close>\<close>

text \<open>
  Each attempt takes 20 ms and the third succeeds, so a delivery takes 60 ms; shutdown is at 25 ms.
\<close>

definition retried_load :: load where
  "retried_load = \<lparr>delay = \<lambda>_. 3 * from_millis 20, succeeds = \<lambda>_. True, stop_at = from_millis 25\<rparr>"

text \<open>The closure given to \<open>publish_order\<close>: it keeps the record and fails the first two attempts.\<close>

definition keep_record ::
    "producer_record \<Rightarrow> nat \<times> producer_record list \<Rightarrow> (string + unit) \<times> nat \<times> producer_record list" where
  "keep_record r e =
     (let attempt = fst e + 1 in
      (if attempt < 3 then Inl ''server error 29'' else Inr (), attempt, snd e @ [r]))"

text \<open>The paused clock does not touch the kept records.\<close>

definition paused :: "(nat \<times> producer_record list) timer" where
  "paused = \<lparr>read_clock = \<lambda>e. (0, e), sleep_for = \<lambda>_ e. e\<rparr>"

definition retried_delivery ::
    "('t, 'f, 'b) units \<Rightarrow> (string \<Rightarrow> string) \<Rightarrow> (nat \<Rightarrow> string) \<Rightarrow> nat \<Rightarrow>
     bool \<times> (nat \<times> producer_record list) world" where
  "retried_delivery U err_text context i =
     (let ord = stamped_order i in
      run_state (publish_order U paused err_text keep_record [(''traceparent'', context i)] ord ''orders''
          (string_bytes (order_id ord)))
        \<lparr>env = (0, []), trace = []\<rparr>)"

definition header_of :: "string \<Rightarrow> producer_record \<Rightarrow> bytes option" where
  "header_of name r = Option.bind (List.find (\<lambda>h. hkey h = name) (pr_headers r)) hvalue"

text \<open>\<open>context i\<close> is the trace parent of the span of order \<open>i\<close>.\<close>

definition concurrent_deliveries_keep_trace_context_and_records_across_retries ::
    "('t, 'f, 'b) units \<Rightarrow> (string \<Rightarrow> string) \<Rightarrow> (nat \<Rightarrow> string) \<Rightarrow> nat \<Rightarrow> bool" where
  "concurrent_deliveries_keep_trace_context_and_records_across_retries U err_text context steps \<longleftrightarrow>
     (case tested retried_load (from_millis 5) 5 (skip_next (from_millis 5)) (burst_next report_period) steps of
        None \<Rightarrow> False
      | Some (s, f) \<Rightarrow>
          (case phase (core (loop s)) of
             Finished (Inr rep) \<Rightarrow>
               acknowledged rep = 5 \<and> failed rep = 0 \<and>
               fake_started f = map stamped_order [0..<5] \<and>
               length (concat (map (\<lambda>i. snd (env (snd (retried_delivery U err_text context i)))) [0..<5])) = 15 \<and>
               list_all (\<lambda>i.
                 let (delivered, w) = retried_delivery U err_text context i;
                     attempts = snd (env w)
                 in delivered \<and> length attempts = 3 \<and>
                    list_all (\<lambda>r. pr_key r = Some (string_bytes (category (order_at (of_nat i)))) \<and>
                      pr_value r = Some (string_bytes (order_id (order_at (of_nat i)))) \<and>
                      header_of ''traceparent'' r = Some (string_bytes (context i)) \<and>
                      r = attempts ! 0) attempts)
                 [0..<5]
           | _ \<Rightarrow> False))"

lemma retried_light:
  "(light_step (\<lambda>i. 60000000) (\<lambda>i. True) 25000000 5000000 5 ^^ 30) light_init =
     \<lparr>l_started = 5, l_sends = [], l_ok = 5, l_bad = 0, l_now = 80000000, l_tick = 25000000,
      l_report = 5000000000, l_phase = 2, l_peak = 5\<rparr>"
  by (simp add: light_eval del: One_nat_def)

lemma retried_records:
  "fst (retried_delivery U err_text context i)"
  "snd (env (snd (retried_delivery U err_text context i))) =
     replicate 3 (order_record [(''traceparent'', context i)] ''orders'' (string_bytes (order_id (stamped_order i)))
       (stamped_order i))"
  by (cases "is_anomalous (stamped_order i)";
      simp add: retried_delivery_def publish_order_def send_with_retry_def run_send_record keep_record_def
        paused_def upt_rec numeral_3_eq_3 Let_def)+

lemma concurrent_test_holds:
  "concurrent_deliveries_keep_trace_context_and_records_across_retries U err_text context 30"
proof -
  have l: "from_millis 5 = 5000000" "stop_at retried_load = 25000000"
    by (simp_all add: retried_load_def from_millis_def)
  have dl: "delay retried_load (stamped_order i) = 60000000 \<and> succeeds retried_load (stamped_order i) = True" for i
    by (simp add: retried_load_def from_millis_def)
  have b: "0 < from_millis 5" "stop_at retried_load \<le> 2 ^ 63 * from_millis 5" by (simp_all add: l)
  obtain s f where run: "tested retried_load (from_millis 5) 5 (skip_next (from_millis 5))
      (burst_next report_period) 30 = Some (s, f)"
    "phase (core (loop s)) = Finished (Inr \<lparr>acknowledged = 5, failed = 0\<rparr>)"
    "fake_started f = map stamped_order [0..<5]"
    using tested_end [OF b dl retried_light [folded l]] by auto
  have key: "pr_key (order_record th topic payload ord) = Some (string_bytes (category ord))"
    "pr_value (order_record th topic payload ord) = Some payload"
    "header_of ''traceparent'' (order_record [(''traceparent'', v)] topic payload ord) = Some (string_bytes v)"
    for th topic payload ord v
    by (simp_all add: order_record_def header_of_def order_headers_def)
  have "list_all (\<lambda>i. let (delivered, w) = retried_delivery U err_text context i; attempts = snd (env w)
      in delivered \<and> length attempts = 3 \<and>
        list_all (\<lambda>r. pr_key r = Some (string_bytes (category (order_at (of_nat i)))) \<and>
          pr_value r = Some (string_bytes (order_id (order_at (of_nat i)))) \<and>
          header_of ''traceparent'' r = Some (string_bytes (context i)) \<and> r = attempts ! 0) attempts) [0..<5]"
    by (auto simp: list_all_iff split_beta Let_def retried_records key stamped_order_def)
  moreover have "length (concat (map (\<lambda>i. snd (env (snd (retried_delivery U err_text context i)))) [0..<5])) = 15"
    by (simp add: length_concat comp_def retried_records upt_rec)
  ultimately show ?thesis
    using run by (simp add: concurrent_deliveries_keep_trace_context_and_records_across_retries_def)
qed

section \<open>\<open>decoded_order_runs_every_stage_and_records_the_outcome\<close>\<close>

definition decoded_order_runs_every_stage_and_records_the_outcome ::
    "('t, 'f, 'b) units \<Rightarrow> 's timer \<Rightarrow> ('p, 't, 'f, 'b, 'en) cli \<Rightarrow> 's \<Rightarrow> bool" where
  "decoded_order_runs_every_stage_and_records_the_outcome U T c e \<longleftrightarrow>
     (let c = c\<lparr>validate_work := time_zero U, enrich_work := time_zero U, fraud_check_work := time_zero U,
                fulfill_work := time_zero U, slow_order_fraction := f64_lit 0\<rparr>
      in case process_decoded_order U T c (order_at 1) \<lparr>env = e, trace = []\<rparr> of
           None \<Rightarrow> False
         | Some w \<Rightarrow>
             list_all (\<lambda>name. name \<in> set (observed_stages (calls (trace w))))
               [''validate'', ''enrich'', ''fraud_check'', ''fulfill''] \<and>
             list_ex (\<lambda>m. case m of Orders_processed_inc l \<Rightarrow> processed_outcome l = ''fulfilled'' | _ \<Rightarrow> False)
               (calls (trace w)))"

lemma decoded_test_holds:
  assumes "to_std U (time_zero U) = 0"
  shows "decoded_order_runs_every_stage_and_records_the_outcome U T c e"
proof -
  let ?c = "c\<lparr>validate_work := time_zero U, enrich_work := time_zero U, fraud_check_work := time_zero U,
    fulfill_work := time_zero U, slow_order_fraction := f64_lit 0\<rparr>"
  have "work_fits U ?c"
    by (simp add: work_fits_def STAGES_def stage_base_def stage_works_def assms duration_max_def)
  from process_decoded_trace [OF this, of T "order_at 1" "\<lparr>env = e, trace = []\<rparr>"]
  obtain w es where w: "process_decoded_order U T ?c (order_at 1) \<lparr>env = e, trace = []\<rparr> = Some w" "trace w = es"
    "observed_stages (calls es) = STAGES" "filter is_count (calls es) = [Orders_processed_inc
      \<lparr>processed_category = category (order_at 1), processed_region = region (order_at 1),
       processed_outcome = classify_outcome (order_at 1)\<rparr>]"
    by (auto simp: decoded_trace_def)
  then have "Orders_processed_inc
      \<lparr>processed_category = category (order_at 1), processed_region = region (order_at 1),
       processed_outcome = ''fulfilled''\<rparr> \<in> set (filter is_count (calls es))"
    by (simp add: classify_order_at)
  then have "list_ex (\<lambda>m. case m of Orders_processed_inc l \<Rightarrow> processed_outcome l = ''fulfilled'' | _ \<Rightarrow> False) (calls es)"
    by (force simp: list_ex_iff)
  then show ?thesis
    using w by (simp add: decoded_order_runs_every_stage_and_records_the_outcome_def Let_def STAGES_def)
qed

section \<open>All tests\<close>

text \<open>
  The delivery and processing tests of \<open>main.rs\<close> pass: a send is tried until it succeeds and three
  times at most, with one counted error per failure; five orders delivered at once are acknowledged,
  and each of their three attempts carries the same record with the order's own trace header; a
  decoded order passes the four stages and is counted with its outcome.
\<close>

lemma delivery_tests_hold:
  assumes "to_std U (time_zero U) = 0"
  shows "sends_retry_delivery_errors_and_stop_at_success_or_three_attempts err_text \<and>
    concurrent_deliveries_keep_trace_context_and_records_across_retries U err_text context 30 \<and>
    decoded_order_runs_every_stage_and_records_the_outcome U T c e"
  using assms by (simp add: retry_test_holds concurrent_test_holds decoded_test_holds)

lemma delivery_tests_hold_here:
  "decoded_order_runs_every_stage_and_records_the_outcome demo_units paused (demo_cli Consume) (0, [])"
  using delivery_tests_hold [of demo_units id "\<lambda>_. ''00-1-1-01''" paused "demo_cli Consume" "(0, [])"]
  by (simp add: demo_units_def)

end
