(* ===== verification/Config_Tests.thy ===== *)
theory Config_Tests
  imports Cli_Parse
begin

text \<open>
  The configuration tests of \<open>crates/observability-demo-app/src/main.rs\<close>, each as the conjunction of
  its assertions over the model: a command line is parsed, and an \<open>effective_*\<close> function or a runtime
  bundle is checked. What they say of the unit and settings libraries is collected in one predicate,
  under which all of them hold.
\<close>

section \<open>Vocabulary\<close>

text \<open>What the tests use of the libraries beside the code: constructors and accessors.\<close>

record ('p, 't, 'f, 'b, 'w, 'en) test_library =
  millis :: "nat \<Rightarrow> 't"
  micros :: "nat \<Rightarrow> 't"
  kibibytes :: "nat \<Rightarrow> 'b"
  per_sec :: "nat \<Rightarrow> 'f"
  milliseconds :: "'w \<Rightarrow> nat"
  capacity :: "'w \<Rightarrow> nat"
  bytes :: "'w \<Rightarrow> nat"
  default_queue_capacity :: nat
  default_profiling :: 'p
  offset_reset_earliest :: 'en
  isolation_read_committed :: 'en
  assignor_cooperative_sticky :: 'en

text \<open>\<open>expect\<close> followed by an assertion on the value, and \<open>expect_err\<close> followed by one on the text.\<close>

definition yields :: "'e + 'a \<Rightarrow> ('a \<Rightarrow> bool) \<Rightarrow> bool" where
  "yields r Q = (case r of Inl _ \<Rightarrow> False | Inr x \<Rightarrow> Q x)"

definition fails_with :: "io_error + 'a \<Rightarrow> (string \<Rightarrow> bool) \<Rightarrow> bool" where
  "fails_with r Q = (case r of Inl (InvalidInput e) \<Rightarrow> Q e | Inr _ \<Rightarrow> False)"

lemma yields_simps [simp]:
  "yields (Inr x) Q = Q x" "yields (Inl e) Q = False" "yields (invalid r) Q = yields r Q"
  by (simp_all add: yields_def invalid_def map_err_def split: sum.split)

lemma fails_with_simps [simp]:
  "fails_with (Inl (InvalidInput e)) Q = Q e"
  "fails_with (invalid r) Q = (case r of Inl e \<Rightarrow> Q e | Inr _ \<Rightarrow> False)"
  by (simp_all add: fails_with_def invalid_def map_err_def split: sum.split)

text \<open>Subtraction of binary64 values.\<close>

fun neg64 :: "f64 \<Rightarrow> f64" where
  "neg64 F64_NaN = F64_NaN"
| "neg64 (F64_Inf s) = F64_Inf (\<not> s)"
| "neg64 (F64_Num s m) = F64_Num (\<not> s) m"

definition sub64 :: "f64 \<Rightarrow> f64 \<Rightarrow> f64" where
  "sub64 a b = add64 a (neg64 b)"

lemma sub64_self: "sub64 (F64_Num s m) (F64_Num s m) = F64_Num False 0"
  by (cases s) (simp_all add: sub64_def)

text \<open>\<open>Cli::try_parse_from\<close> on the role and some options, given by their fields.\<close>

definition try_parse ::
    "('t, 'f, 'b) units \<Rightarrow> ('t, 'b, 'w, 'en) settings \<Rightarrow> ('p, 't, 'b, 'en) value_parsers \<Rightarrow>
     role \<Rightarrow> (string \<times> string) list \<Rightarrow> ('p, 't, 'f, 'b, 'en) cli option" where
  "try_parse U S P r opts = parse_cli U S P (map_of ((''role'', role_name r) # opts))"

definition parsed ::
    "('t, 'f, 'b) units \<Rightarrow> ('t, 'b, 'w, 'en) settings \<Rightarrow> ('p, 't, 'b, 'en) value_parsers \<Rightarrow>
     role \<Rightarrow> (string \<times> string) list \<Rightarrow> (('p, 't, 'f, 'b, 'en) cli \<Rightarrow> bool) \<Rightarrow> bool" where
  "parsed U S P r opts Q = (case try_parse U S P r opts of None \<Rightarrow> False | Some c \<Rightarrow> Q c)"

definition refused ::
    "('t, 'f, 'b) units \<Rightarrow> ('t, 'b, 'w, 'en) settings \<Rightarrow> ('p, 't, 'b, 'en) value_parsers \<Rightarrow>
     role \<Rightarrow> (string \<times> string) list \<Rightarrow> bool" where
  "refused U S P r opts \<longleftrightarrow> try_parse U S P r opts = None"

section \<open>The libraries\<close>

definition time_laws ::
    "('t, 'f, 'b) units \<Rightarrow> ('p, 't, 'b, 'en) value_parsers \<Rightarrow> ('p, 't, 'f, 'b, 'w, 'en) test_library \<Rightarrow> bool" where
  "time_laws U P L \<longleftrightarrow>
     list_all (\<lambda>(s, t). parse_positive_time P s = Inr t)
       [(''500ms'', millis L 500), (''2s'', secs U 2), (''3s'', secs U 3), (''4s'', secs U 4),
        (''31s'', secs U 31), (''45s'', secs U 45), (''46s'', secs U 46), (''61s'', secs U 61),
        (''10ms'', millis L 10), (''20ms'', millis L 20), (''30ms'', millis L 30), (''40ms'', millis L 40),
        (''37ms'', millis L 37), (''91ms'', millis L 91), (''2147483648ms'', millis L 2147483648)] \<and>
     \<not> is_ok (parse_positive_time P ''0'') \<and> \<not> is_ok (parse_positive_time P ''0ms'') \<and>
     list_all (\<lambda>(s, t). parse_time U s = Inr t \<and> \<not> time_less U t (time_zero U))
       [(''150us'', micros L 150), (''400us'', micros L 400), (''200us'', micros L 200),
        (''300us'', micros L 300), (''0'', time_zero U), (''1ms'', millis L 1), (''2ms'', millis L 2),
        (''3ms'', millis L 3)] \<and>
     yields (parse_time U ''-1ms'') (\<lambda>t. time_less U t (time_zero U)) \<and>
     list_all (\<lambda>(s, f). parse_frequency U s = Inr f \<and> \<not> freq_less U f (freq_zero U))
       [(''50Hz'', per_sec L 50), (''120/min'', per_sec L 2)] \<and>
     yields (parse_frequency U ''-1Hz'') (\<lambda>f. freq_less U f (freq_zero U)) \<and>
     time_human U (millis L 37) = ''37ms'' \<and> time_human U (secs U 45) = ''45s''"

definition size_laws ::
    "('t, 'f, 'b) units \<Rightarrow> ('t, 'b, 'w, 'en) settings \<Rightarrow> ('p, 't, 'f, 'b, 'w, 'en) test_library \<Rightarrow> bool" where
  "size_laws U S L \<longleftrightarrow>
     list_all (\<lambda>(s, b). parse_positive_byte_size U s = Inr b)
       [(''100MiB'', mebibytes U 100), (''101MiB'', mebibytes U 101), (''32KiB'', kibibytes L 32),
        (''64KiB'', kibibytes L 64), (''3B'', bytes_of U 3), (''5B'', bytes_of U 5),
        (''32MiB'', mebibytes U 32), (''2MiB'', mebibytes U 2)] \<and>
     \<not> is_ok (parse_positive_byte_size U ''0B'') \<and>
     \<not> is_ok (bind_res (parse_positive_byte_size U ''1.5B'') (frame_max_try_from S)) \<and>
     list_all (\<lambda>b. yields (frame_max_try_from S b) (\<lambda>w. frame_max_size S w = b))
       [mebibytes U 100, kibibytes L 32, kibibytes L 64] \<and>
     \<not> is_ok (frame_max_try_from S (mebibytes U 101)) \<and>
     list_all (\<lambda>n. yields (fetch_min_try_from S (bytes_of U n))
         (\<lambda>w. fetch_min_size S w = bytes_of U n \<and> bytes L w = n)) [1, 3, 5] \<and>
     bytes L (fetch_min_default S) = 1 \<and>
     list_all (\<lambda>b. yields (fetch_max_try_from S b) (\<lambda>w. fetch_max_size S w = b))
       [mebibytes U 50, mebibytes U 32] \<and>
     list_all (\<lambda>b. yields (partition_max_try_from S b) (\<lambda>w. partition_max_size S w = b))
       [mebibytes U 1, mebibytes U 2] \<and>
     bytes_i32 U (bytes_of U 1) \<le> bytes_i32 U (mebibytes U 50) \<and>
     bytes_i32 U (bytes_of U 3) \<le> bytes_i32 U (mebibytes U 32) \<and>
     size_human U (bytes_of U 3) = ''3B''"

definition setting_laws ::
    "('t, 'f, 'b) units \<Rightarrow> ('t, 'b, 'w, 'en) settings \<Rightarrow> ('p, 't, 'f, 'b, 'w, 'en) test_library \<Rightarrow> bool" where
  "setting_laws U S L \<longleftrightarrow>
     list_all (\<lambda>n. yields (queue_capacity_new S n) (\<lambda>w. queue_capacity_get S w = n)) [64, 7, 9] \<and>
     \<not> is_ok (queue_capacity_new S 0) \<and>
     retry_policy_new S (startup_attempt_timeout S (retry_policy_default S))
       (startup_deadline S (retry_policy_default S)) (startup_initial_backoff S (retry_policy_default S))
       (startup_max_backoff S (retry_policy_default S)) (coordinator_retry_timeout S (retry_policy_default S))
       (coordinator_initial_backoff S (retry_policy_default S))
       (coordinator_max_backoff S (retry_policy_default S)) = Inr (retry_policy_default S) \<and>
     yields (retry_policy_new S (secs U 2) (secs U 3) (millis L 10) (millis L 20) (secs U 4) (millis L 30)
         (millis L 40))
       (\<lambda>w. startup_attempt_timeout S w = secs U 2 \<and> startup_deadline S w = secs U 3 \<and>
         startup_initial_backoff S w = millis L 10 \<and> startup_max_backoff S w = millis L 20 \<and>
         coordinator_retry_timeout S w = secs U 4 \<and> coordinator_initial_backoff S w = millis L 30 \<and>
         coordinator_max_backoff S w = millis L 40) \<and>
     schema_initial_backoff S (schema_retry_default S) = millis L 10 \<and>
     schema_max_backoff S (schema_retry_default S) = secs U 1 \<and>
     list_all (\<lambda>(a, b). yields (schema_retry_new S a b)
         (\<lambda>w. schema_initial_backoff S w = a \<and> schema_max_backoff S w = b))
       [(millis L 10, secs U 1), (millis L 37, millis L 91), (millis L 37, millis L 37)] \<and>
     milliseconds L (metadata_refresh_default S) = 5000 \<and>
     yields (metadata_refresh_new S (to_std U (millis L 37))) (\<lambda>w. milliseconds L w = 37) \<and>
     yields (dns_timeout_new S (millis L 37)) (\<lambda>w. milliseconds L w = 37) \<and>
     yields (poll_interval_new S (to_std U (millis L 37))) (\<lambda>w. milliseconds L w = 37) \<and>
     yields (commit_interval_new S (to_std U (millis L 41))) (\<lambda>w. milliseconds L w = 41) \<and>
     yields (rebalance_timeout_new S (to_std U (secs U 45))) (\<lambda>w. milliseconds L w = 45000) \<and>
     (case rebalance_timeout_new S (to_std U (millis L 2147483648)) of
        Inl e \<Rightarrow> contains ''streams rebalance timeout'' e | Inr _ \<Rightarrow> False) \<and>
     yields (join_retry_new S (to_std U (millis L 37))) (\<lambda>w. milliseconds L w = 37) \<and>
     yields (query_queue_new S 37) (\<lambda>w. capacity L w = 37)"

definition parser_laws ::
    "('p, 't, 'b, 'en) value_parsers \<Rightarrow> ('p, 't, 'f, 'b, 'w, 'en) test_library \<Rightarrow> bool" where
  "parser_laws P L \<longleftrightarrow>
     (\<forall>found. dom found \<subseteq> set (map arg_field (cli_args (queue_default_text P))) \<longrightarrow>
        parse_profiling P found = Some (default_profiling L)) \<and>
     queue_default_text P = ''64'' \<and>
     parse_offset_reset P ''earliest'' = Inr (offset_reset_earliest L) \<and>
     parse_isolation_level P ''read_committed'' = Inr (isolation_read_committed L) \<and>
     parse_assignor P ''cooperative-sticky'' = Inr (assignor_cooperative_sticky L)"

definition library_laws ::
    "('t, 'f, 'b) units \<Rightarrow> ('t, 'b, 'w, 'en) settings \<Rightarrow> ('p, 't, 'b, 'en) value_parsers \<Rightarrow>
     ('p, 't, 'f, 'b, 'w, 'en) test_library \<Rightarrow> bool" where
  "library_laws U S P L \<longleftrightarrow> time_laws U P L \<and> size_laws U S L \<and> setting_laws U S L \<and> parser_laws P L"

section \<open>The tests\<close>

type_synonym ('p, 't, 'f, 'b, 'w, 'en) configuration_test =
  "('t, 'f, 'b) units \<Rightarrow> ('t, 'b, 'w, 'en) settings \<Rightarrow> ('p, 't, 'b, 'en) value_parsers \<Rightarrow>
   ('p, 't, 'f, 'b, 'w, 'en) test_library \<Rightarrow> bool"

definition producer_concurrency_defaults_to_one_and_rejects_zero :: "('p, 't, 'f, 'b, 'w, 'en) configuration_test" where
  "producer_concurrency_defaults_to_one_and_rejects_zero U S P L \<longleftrightarrow>
     parsed U S P Produce [] (\<lambda>c. producer_max_in_flight c = 1) \<and>
     parsed U S P Produce [(''producer_max_in_flight'', ''5'')] (\<lambda>c. producer_max_in_flight c = 5) \<and>
     refused U S P Produce [(''producer_max_in_flight'', ''0'')]"

definition runtime_configs_bind_the_validated_role_settings :: "('p, 't, 'f, 'b, 'w, 'en) configuration_test" where
  "runtime_configs_bind_the_validated_role_settings U S P L \<longleftrightarrow>
     parsed U S P Stream [] (\<lambda>c. case stream_runtime U S c of
       None \<Rightarrow> False
     | Some r \<Rightarrow> yields r (\<lambda>stream.
         sr_broker_dns_timeout stream = dns_timeout_default S \<and>
         sr_poll_interval stream = poll_interval_default S \<and>
         sr_state_store_cache_max_bytes stream = cache_max_default S)) \<and>
     parsed U S P Consume [] (\<lambda>c. case consumer_runtime U S c of
       None \<Rightarrow> False
     | Some r \<Rightarrow> yields r (\<lambda>consumer.
         cr_session_timeout consumer = secs U 45 \<and> cr_request_timeout consumer = secs U 30 \<and>
         cr_auto_offset_reset consumer = offset_reset_latest S \<and> cr_assignor consumer = assignor_range S))"

definition workload_policy_preserves_defaults_and_accepts_units :: "('p, 't, 'f, 'b, 'w, 'en) configuration_test" where
  "workload_policy_preserves_defaults_and_accepts_units U S P L \<longleftrightarrow>
     parsed U S P Consume [] (\<lambda>defaults.
       orders_per_sec defaults = per_sec L 50 \<and> consumer_poll_timeout defaults = millis L 500 \<and>
       validate_work defaults = micros L 150 \<and> enrich_work defaults = micros L 400 \<and>
       fraud_check_work defaults = micros L 200 \<and> fulfill_work defaults = micros L 300 \<and>
       abs64 (sub64 (slow_order_fraction defaults) (f64_lit (2 / 100))) < f64_epsilon) \<and>
     parsed U S P Consume
       [(''orders_per_sec'', ''120/min''), (''consumer_poll_timeout'', ''2s''), (''validate_work'', ''0''),
        (''enrich_work'', ''1ms''), (''fraud_check_work'', ''2ms''), (''fulfill_work'', ''3ms'')]
       (\<lambda>custom.
         orders_per_sec custom = per_sec L 2 \<and> consumer_poll_timeout custom = secs U 2 \<and>
         validate_work custom = time_zero U \<and> enrich_work custom = millis L 1 \<and>
         fraud_check_work custom = millis L 2 \<and> fulfill_work custom = millis L 3) \<and>
     list_all (\<lambda>option. refused U S P Consume [option])
       [(''orders_per_sec'', ''-1Hz''), (''consumer_poll_timeout'', ''0''), (''validate_work'', ''-1ms''),
        (''streams_application_id'', ''''), (''consumer_group_id'', '''')]"

definition consumer_behavior_uses_defaults_and_independent_overrides :: "('p, 't, 'f, 'b, 'w, 'en) configuration_test" where
  "consumer_behavior_uses_defaults_and_independent_overrides U S P L \<longleftrightarrow>
     parsed U S P Consume [] (\<lambda>defaults. yields (effective_consumer_behavior S defaults)
       (\<lambda>(offset_reset, isolation, assignor). offset_reset = offset_reset_latest S \<and>
         isolation = isolation_read_uncommitted S \<and> assignor = assignor_range S)) \<and>
     parsed U S P Consume
       [(''consumer_auto_offset_reset'', ''earliest''), (''consumer_isolation_level'', ''read_committed''),
        (''consumer_assignor'', ''cooperative-sticky'')]
       (\<lambda>custom. yields (effective_consumer_behavior S custom)
         (\<lambda>(offset_reset, isolation, assignor). offset_reset = offset_reset_earliest L \<and>
           isolation = isolation_read_committed L \<and> assignor = assignor_cooperative_sticky L))"

definition consumer_timing_uses_defaults_and_independent_overrides :: "('p, 't, 'f, 'b, 'w, 'en) configuration_test" where
  "consumer_timing_uses_defaults_and_independent_overrides U S P L \<longleftrightarrow>
     parsed U S P Consume [] (\<lambda>defaults. yields (effective_consumer_timing U defaults)
       (\<lambda>t. t = (secs U 45, minutes U 1, secs U 3, secs U 30))) \<and>
     parsed U S P Consume
       [(''consumer_session_timeout'', ''46s''), (''consumer_rebalance_timeout'', ''61s''),
        (''consumer_heartbeat_interval'', ''4s''), (''consumer_request_timeout'', ''31s'')]
       (\<lambda>custom. yields (effective_consumer_timing U custom)
         (\<lambda>t. t = (secs U 46, secs U 61, secs U 4, secs U 31)))"

definition consumer_fetch_policy_uses_defaults_and_validates_overrides :: "('p, 't, 'f, 'b, 'w, 'en) configuration_test" where
  "consumer_fetch_policy_uses_defaults_and_validates_overrides U S P L \<longleftrightarrow>
     parsed U S P Consume [] (\<lambda>defaults. yields (effective_consumer_fetch_policy U S defaults)
       (\<lambda>p. p = (bytes_of U 1, mebibytes U 50, mebibytes U 1))) \<and>
     parsed U S P Consume
       [(''consumer_fetch_min'', ''3B''), (''consumer_fetch_max'', ''32MiB''),
        (''consumer_fetch_partition_max'', ''2MiB'')]
       (\<lambda>custom. yields (effective_consumer_fetch_policy U S custom)
         (\<lambda>p. p = (bytes_of U 3, mebibytes U 32, mebibytes U 2)))"

definition consumer_retry_policy_uses_defaults_and_validates_overrides :: "('p, 't, 'f, 'b, 'w, 'en) configuration_test" where
  "consumer_retry_policy_uses_defaults_and_validates_overrides U S P L \<longleftrightarrow>
     parsed U S P Consume [] (\<lambda>defaults. yields (effective_consumer_retry_policy U S defaults)
       (\<lambda>policy. policy = retry_policy_default S)) \<and>
     parsed U S P Consume
       [(''consumer_startup_attempt_timeout'', ''2s''), (''consumer_startup_deadline'', ''3s''),
        (''consumer_startup_initial_backoff'', ''10ms''), (''consumer_startup_max_backoff'', ''20ms''),
        (''consumer_coordinator_retry_timeout'', ''4s''), (''consumer_coordinator_initial_backoff'', ''30ms''),
        (''consumer_coordinator_max_backoff'', ''40ms'')]
       (\<lambda>custom. yields (effective_consumer_retry_policy U S custom) (\<lambda>policy.
         startup_attempt_timeout S policy = secs U 2 \<and> startup_deadline S policy = secs U 3 \<and>
         startup_initial_backoff S policy = millis L 10 \<and> startup_max_backoff S policy = millis L 20 \<and>
         coordinator_retry_timeout S policy = secs U 4 \<and> coordinator_initial_backoff S policy = millis L 30 \<and>
         coordinator_max_backoff S policy = millis L 40))"

definition schema_fetch_retry_policy_uses_defaults_and_valid_explicit_bounds :: "('p, 't, 'f, 'b, 'w, 'en) configuration_test" where
  "schema_fetch_retry_policy_uses_defaults_and_valid_explicit_bounds U S P L \<longleftrightarrow>
     parsed U S P Produce [] (\<lambda>defaults. yields (schema_fetch_retry_policy S defaults) (\<lambda>policy.
       schema_initial_backoff S policy = millis L 10 \<and> schema_max_backoff S policy = secs U 1)) \<and>
     parsed U S P Consume
       [(''schema_fetch_retry_initial_backoff'', ''37ms''), (''schema_fetch_retry_max_backoff'', ''91ms'')]
       (\<lambda>explicit. yields (schema_fetch_retry_policy S explicit) (\<lambda>policy.
         schema_initial_backoff S policy = millis L 37 \<and> schema_max_backoff S policy = millis L 91))"

definition schema_fetch_retry_policy_accepts_equal_bounds :: "('p, 't, 'f, 'b, 'w, 'en) configuration_test" where
  "schema_fetch_retry_policy_accepts_equal_bounds U S P L \<longleftrightarrow>
     parsed U S P Stream
       [(''schema_fetch_retry_initial_backoff'', ''37ms''), (''schema_fetch_retry_max_backoff'', ''37ms'')]
       (\<lambda>c. yields (schema_fetch_retry_policy S c)
         (\<lambda>policy. schema_initial_backoff S policy = schema_max_backoff S policy))"

definition consumer_subscription_metadata_refresh_uses_default_and_override :: "('p, 't, 'f, 'b, 'w, 'en) configuration_test" where
  "consumer_subscription_metadata_refresh_uses_default_and_override U S P L \<longleftrightarrow>
     parsed U S P Consume [] (\<lambda>defaults.
       yields (effective_consumer_subscription_metadata_refresh_interval U S defaults)
         (\<lambda>w. milliseconds L w = 5000)) \<and>
     parsed U S P Consume [(''consumer_subscription_metadata_refresh_interval'', ''37ms'')] (\<lambda>overridden.
       yields (effective_consumer_subscription_metadata_refresh_interval U S overridden)
         (\<lambda>w. milliseconds L w = 37))"

text \<open>The struct literal the tests of the streams options start from.\<close>

definition stream_defaults ::
    "('t, 'f, 'b) units \<Rightarrow> ('p, 't, 'f, 'b, 'w, 'en) test_library \<Rightarrow> ('p, 't, 'f, 'b, 'en) cli" where
  "stream_defaults U L =
     \<lparr>profiling = default_profiling L, role = Stream, bootstrap = ''127.0.0.1:9092'',
      client_dispatch_queue_capacity = default_queue_capacity L, client_frame_max = mebibytes U 100,
      registry_url = ''http://127.0.0.1:8081'', schema_fetch_retry_initial_backoff = None,
      schema_fetch_retry_max_backoff = None, input_topic = ''orders'', output_topic = ''order-counts'',
      streams_application_id = ''orders-analytics'', consumer_group_id = ''orders-processor'',
      orders_per_sec = per_sec L 50, producer_max_in_flight = 1, consumer_poll_timeout = millis L 500,
      validate_work = micros L 150, enrich_work = micros L 400, fraud_check_work = micros L 200,
      fulfill_work = micros L 300, slow_order_fraction = f64_lit (2 / 100),
      consumer_leave_group_timeout = None, consumer_subscription_metadata_refresh_interval = None,
      consumer_startup_attempt_timeout = None, consumer_startup_deadline = None,
      consumer_startup_initial_backoff = None, consumer_startup_max_backoff = None,
      consumer_coordinator_retry_timeout = None, consumer_coordinator_initial_backoff = None,
      consumer_coordinator_max_backoff = None, consumer_fetch_min = None, consumer_fetch_max = None,
      consumer_fetch_partition_max = None, consumer_session_timeout = None,
      consumer_rebalance_timeout = None, consumer_heartbeat_interval = None,
      consumer_request_timeout = None, consumer_auto_offset_reset = None,
      consumer_isolation_level = None, consumer_assignor = None, streams_broker_dns_timeout = None,
      streams_poll_interval = None, streams_commit_interval = None, streams_rebalance_timeout = None,
      streams_leave_heartbeat_timeout = None, streams_join_retry_backoff = None,
      streams_interactive_query_queue_capacity = None, streams_state_store_cache_max = None,
      streams_fetch_min = None\<rparr>"

definition streams_broker_dns_timeout_uses_default_and_cli_override :: "('p, 't, 'f, 'b, 'w, 'en) configuration_test" where
  "streams_broker_dns_timeout_uses_default_and_cli_override U S P L \<longleftrightarrow>
     yields (effective_streams_broker_dns_timeout U S (stream_defaults U L)) (\<lambda>w. w = dns_timeout_default S) \<and>
     yields (effective_streams_broker_dns_timeout U S
         ((stream_defaults U L)\<lparr>streams_broker_dns_timeout := Some (millis L 37)\<rparr>))
       (\<lambda>w. milliseconds L w = 37)"

definition streams_broker_dns_timeout_rejects_zero_and_non_stream_roles :: "('p, 't, 'f, 'b, 'w, 'en) configuration_test" where
  "streams_broker_dns_timeout_rejects_zero_and_non_stream_roles U S P L \<longleftrightarrow>
     refused U S P Stream [(''streams_broker_dns_timeout'', ''0ms'')] \<and>
     parsed U S P Produce [(''streams_broker_dns_timeout'', ''37ms'')] (\<lambda>produce.
       fails_with (effective_streams_broker_dns_timeout U S produce)
         (\<lambda>e. e = ''--streams-broker-dns-timeout (37ms) is only valid with --role stream''))"

definition streams_runtime_cadence_uses_defaults_and_independent_overrides :: "('p, 't, 'f, 'b, 'w, 'en) configuration_test" where
  "streams_runtime_cadence_uses_defaults_and_independent_overrides U S P L \<longleftrightarrow>
     yields (effective_streams_runtime_cadence U S (stream_defaults U L))
       (\<lambda>(poll, commit). poll = poll_interval_default S \<and> commit = commit_interval_default S) \<and>
     yields (effective_streams_runtime_cadence U S
         ((stream_defaults U L)\<lparr>streams_poll_interval := Some (millis L 37),
            streams_commit_interval := Some (millis L 41)\<rparr>))
       (\<lambda>(poll, commit). milliseconds L poll = 37 \<and> milliseconds L commit = 41)"

definition streams_runtime_cadence_rejects_zero_and_non_stream_roles :: "('p, 't, 'f, 'b, 'w, 'en) configuration_test" where
  "streams_runtime_cadence_rejects_zero_and_non_stream_roles U S P L \<longleftrightarrow>
     refused U S P Stream [(''streams_poll_interval'', ''0ms'')] \<and>
     refused U S P Stream [(''streams_commit_interval'', ''0ms'')] \<and>
     parsed U S P Produce [(''streams_poll_interval'', ''37ms'')] (\<lambda>produce.
       fails_with (effective_streams_runtime_cadence U S produce)
         (\<lambda>e. e = ''--streams-poll-interval (37ms) is only valid with --role stream''))"

definition streams_rebalance_timeout_uses_default_and_cli_override :: "('p, 't, 'f, 'b, 'w, 'en) configuration_test" where
  "streams_rebalance_timeout_uses_default_and_cli_override U S P L \<longleftrightarrow>
     yields (effective_streams_rebalance_timeout U S (stream_defaults U L))
       (\<lambda>w. w = rebalance_timeout_default S) \<and>
     yields (effective_streams_rebalance_timeout U S
         ((stream_defaults U L)\<lparr>streams_rebalance_timeout := Some (secs U 45)\<rparr>))
       (\<lambda>w. milliseconds L w = 45000)"

definition streams_rebalance_timeout_rejects_zero_overflow_and_non_stream_roles :: "('p, 't, 'f, 'b, 'w, 'en) configuration_test" where
  "streams_rebalance_timeout_rejects_zero_overflow_and_non_stream_roles U S P L \<longleftrightarrow>
     refused U S P Stream [(''streams_rebalance_timeout'', ''0ms'')] \<and>
     parsed U S P Stream [(''streams_rebalance_timeout'', ''2147483648ms'')] (\<lambda>overflow.
       fails_with (effective_streams_rebalance_timeout U S overflow)
         (\<lambda>e. contains ''streams rebalance timeout'' e)) \<and>
     parsed U S P Produce [(''streams_rebalance_timeout'', ''45s'')] (\<lambda>produce.
       fails_with (effective_streams_rebalance_timeout U S produce)
         (\<lambda>e. e = ''--streams-rebalance-timeout (45s) is only valid with --role stream''))"

definition streams_join_retry_backoff_uses_default_and_cli_override :: "('p, 't, 'f, 'b, 'w, 'en) configuration_test" where
  "streams_join_retry_backoff_uses_default_and_cli_override U S P L \<longleftrightarrow>
     yields (effective_streams_join_retry_backoff U S (stream_defaults U L)) (\<lambda>w. w = join_retry_default S) \<and>
     yields (effective_streams_join_retry_backoff U S
         ((stream_defaults U L)\<lparr>streams_join_retry_backoff := Some (millis L 37)\<rparr>))
       (\<lambda>w. milliseconds L w = 37)"

definition streams_interactive_query_queue_capacity_uses_default_and_override :: "('p, 't, 'f, 'b, 'w, 'en) configuration_test" where
  "streams_interactive_query_queue_capacity_uses_default_and_override U S P L \<longleftrightarrow>
     yields (effective_streams_interactive_query_queue_capacity S (stream_defaults U L))
       (\<lambda>w. w = query_queue_default S) \<and>
     yields (effective_streams_interactive_query_queue_capacity S
         ((stream_defaults U L)\<lparr>streams_interactive_query_queue_capacity := Some 37\<rparr>))
       (\<lambda>w. capacity L w = 37)"

text \<open>The three numbers the client tests read of a streams command line.\<close>

definition client_policy_is ::
    "('t, 'f, 'b) units \<Rightarrow> ('t, 'b, 'w, 'en) settings \<Rightarrow> ('p, 't, 'f, 'b, 'w, 'en) test_library \<Rightarrow>
     nat \<Rightarrow> 'b \<Rightarrow> nat \<Rightarrow> ('p, 't, 'f, 'b, 'en) cli \<Rightarrow> bool" where
  "client_policy_is U S L queue frame fetch c \<longleftrightarrow>
     (case client_resource_policy S c of
        None \<Rightarrow> False
      | Some (dispatch, frame_max) \<Rightarrow>
          queue_capacity_get S dispatch = queue \<and> frame_max_size S frame_max = frame) \<and>
     (case effective_streams_fetch_min U S c of
        None \<Rightarrow> False
      | Some r \<Rightarrow> yields r (\<lambda>w. bytes L w = fetch))"

definition client_resource_policy_parses_defaults_overrides_and_invalid_values :: "('p, 't, 'f, 'b, 'w, 'en) configuration_test" where
  "client_resource_policy_parses_defaults_overrides_and_invalid_values U S P L \<longleftrightarrow>
     parsed U S P Stream [] (client_policy_is U S L 64 (mebibytes U 100) 1) \<and>
     parsed U S P Stream
       [(''client_dispatch_queue_capacity'', ''7''), (''client_frame_max'', ''32KiB''), (''streams_fetch_min'', ''3B'')]
       (client_policy_is U S L 7 (kibibytes L 32) 3) \<and>
     list_all (\<lambda>option. refused U S P Stream [option])
       [(''client_dispatch_queue_capacity'', ''0''), (''client_frame_max'', ''101MiB''),
        (''client_frame_max'', ''1.5B''), (''streams_fetch_min'', ''0B'')] \<and>
     parsed U S P Produce [(''streams_fetch_min'', ''3B'')] (\<lambda>produce.
       case effective_streams_fetch_min U S produce of
         None \<Rightarrow> False
       | Some r \<Rightarrow> fails_with r (\<lambda>e. e = ''--streams-fetch-min (3B) is only valid with --role stream''))"

text \<open>The environment the test's child process runs in; what the command line gives comes first.\<close>

definition client_policy_environment :: "(string \<times> string) list" where
  "client_policy_environment =
     [(''producer_max_in_flight'', ''5''), (''client_dispatch_queue_capacity'', ''7''),
      (''client_frame_max'', ''32KiB''), (''streams_fetch_min'', ''3B'')]"

definition client_resource_policy_reads_environment_and_prefers_cli :: "('p, 't, 'f, 'b, 'w, 'en) configuration_test" where
  "client_resource_policy_reads_environment_and_prefers_cli U S P L \<longleftrightarrow>
     parsed U S P Stream client_policy_environment (\<lambda>environment.
       producer_max_in_flight environment = 5 \<and> client_policy_is U S L 7 (kibibytes L 32) 3 environment) \<and>
     parsed U S P Stream
       ([(''producer_max_in_flight'', ''9''), (''client_dispatch_queue_capacity'', ''9''),
         (''client_frame_max'', ''64KiB''), (''streams_fetch_min'', ''5B'')] @ client_policy_environment)
       (\<lambda>c. producer_max_in_flight c = 9 \<and> client_policy_is U S L 9 (kibibytes L 64) 5 c)"

section \<open>What the laws give\<close>

lemma not_ok_Inl: "\<not> is_ok r \<longleftrightarrow> (\<exists>e. r = Inl e)"
  by (cases r) simp_all

lemma yieldsE:
  assumes "yields r Q"
  obtains x where "r = Inr x" and "Q x"
  using assms by (cases r) simp_all

definition declared :: "string \<Rightarrow> bool" where
  "declared n \<longleftrightarrow> list_ex (\<lambda>a. arg_field a = n) (cli_args [])"

lemma declared_field: "declared n \<Longrightarrow> n \<in> set (map arg_field (cli_args q))"
proof -
  have "map arg_field (cli_args q) = map arg_field (cli_args [])"
    by (simp add: cli_args_def process_args_def)
  moreover have "declared n \<Longrightarrow> n \<in> set (map arg_field (cli_args []))"
    by (auto simp: declared_def list_ex_iff)
  ultimately show "declared n \<Longrightarrow> n \<in> set (map arg_field (cli_args q))" by metis
qed

lemma is_ok_bind: "is_ok (bind_res r f) \<longleftrightarrow> (\<exists>x. r = Inr x \<and> is_ok (f x))"
  by (cases r) simp_all

lemma frame_max_parsed:
  assumes "parse_positive_byte_size U s = Inr b" and "yields (frame_max_try_from S b) (\<lambda>w. frame_max_size S w = b)"
  shows "parse_client_frame_max U S s = Inr b"
  using assms by (auto simp: parse_client_frame_max_def elim: yieldsE)

lemma fetch_min_parsed:
  assumes "parse_positive_byte_size U s = Inr b"
    and "yields (fetch_min_try_from S b) (\<lambda>w. fetch_min_size S w = b \<and> bytes L w = n)"
  shows "parse_fetch_min U S s = Inr b"
  using assms by (auto simp: parse_fetch_min_def elim: yieldsE)

lemma queue_capacity_parsed:
  assumes "parse_unsigned s = Inr n" and "yields (queue_capacity_new S n) (\<lambda>w. queue_capacity_get S w = n)"
  shows "parse_client_dispatch_queue_capacity S s = Inr n"
  using assms by (auto simp: parse_client_dispatch_queue_capacity_def elim: yieldsE)

lemma small_numbers:
  "parse_unsigned ''0'' = Inr 0" "parse_unsigned ''1'' = Inr 1" "parse_unsigned ''5'' = Inr 5"
  "parse_unsigned ''7'' = Inr 7" "parse_unsigned ''9'' = Inr 9" "parse_unsigned ''64'' = Inr 64"
  by (simp_all add: parse_unsigned_def char_digit_def)

lemma default_fraction: "parse_fraction ''0.02'' = Inr (f64_lit (2 / 100))"
proof -
  have "decimal_text 2 2 = ''0.02''" by code_simp
  then show ?thesis using parse_fraction_decimal [of 2 2] by simp
qed

lemma time_facts:
  assumes "library_laws U S P L"
  shows "parse_positive_time P ''500ms'' = Inr (millis L 500)"
    "parse_positive_time P ''2s'' = Inr (secs U 2)" "parse_positive_time P ''3s'' = Inr (secs U 3)"
    "parse_positive_time P ''4s'' = Inr (secs U 4)" "parse_positive_time P ''31s'' = Inr (secs U 31)"
    "parse_positive_time P ''45s'' = Inr (secs U 45)" "parse_positive_time P ''46s'' = Inr (secs U 46)"
    "parse_positive_time P ''61s'' = Inr (secs U 61)" "parse_positive_time P ''10ms'' = Inr (millis L 10)"
    "parse_positive_time P ''20ms'' = Inr (millis L 20)" "parse_positive_time P ''30ms'' = Inr (millis L 30)"
    "parse_positive_time P ''40ms'' = Inr (millis L 40)" "parse_positive_time P ''37ms'' = Inr (millis L 37)"
    "parse_positive_time P ''91ms'' = Inr (millis L 91)"
    "parse_positive_time P ''2147483648ms'' = Inr (millis L 2147483648)"
    "parse_nonnegative_time U ''150us'' = Inr (micros L 150)" "parse_nonnegative_time U ''400us'' = Inr (micros L 400)"
    "parse_nonnegative_time U ''200us'' = Inr (micros L 200)" "parse_nonnegative_time U ''300us'' = Inr (micros L 300)"
    "parse_nonnegative_time U ''0'' = Inr (time_zero U)" "parse_nonnegative_time U ''1ms'' = Inr (millis L 1)"
    "parse_nonnegative_time U ''2ms'' = Inr (millis L 2)" "parse_nonnegative_time U ''3ms'' = Inr (millis L 3)"
    "parse_nonnegative_frequency U ''50Hz'' = Inr (per_sec L 50)"
    "parse_nonnegative_frequency U ''120/min'' = Inr (per_sec L 2)"
  using assms by (simp_all add: library_laws_def time_laws_def parse_nonnegative_time_def
      parse_nonnegative_frequency_def)

lemma refused_facts:
  assumes "library_laws U S P L"
  shows "\<not> is_ok (parse_positive_time P ''0'')" "\<not> is_ok (parse_positive_time P ''0ms'')"
    "\<not> is_ok (parse_nonnegative_time U ''-1ms'')" "\<not> is_ok (parse_nonnegative_frequency U ''-1Hz'')"
    "\<not> is_ok (parse_client_dispatch_queue_capacity S ''0'')"
    "\<not> is_ok (parse_client_frame_max U S ''101MiB'')" "\<not> is_ok (parse_client_frame_max U S ''1.5B'')"
    "\<not> is_ok (parse_fetch_min U S ''0B'')"
proof -
  note laws = assms [unfolded library_laws_def]
  have "yields (parse_time U ''-1ms'') (\<lambda>t. time_less U t (time_zero U))"
    "yields (parse_frequency U ''-1Hz'') (\<lambda>f. freq_less U f (freq_zero U))"
    using laws by (simp_all add: time_laws_def)
  then show "\<not> is_ok (parse_nonnegative_time U ''-1ms'')" "\<not> is_ok (parse_nonnegative_frequency U ''-1Hz'')"
    by (auto simp: parse_nonnegative_time_def parse_nonnegative_frequency_def elim: yieldsE)
  show "\<not> is_ok (parse_positive_time P ''0'')" "\<not> is_ok (parse_positive_time P ''0ms'')"
    using laws by (simp_all add: time_laws_def)
  have "\<not> is_ok (queue_capacity_new S 0)" using laws by (simp add: setting_laws_def)
  then show "\<not> is_ok (parse_client_dispatch_queue_capacity S ''0'')"
    by (auto simp: parse_client_dispatch_queue_capacity_def small_numbers is_ok_bind)
  have "parse_positive_byte_size U ''101MiB'' = Inr (mebibytes U 101)"
    "\<not> is_ok (frame_max_try_from S (mebibytes U 101))" "\<not> is_ok (parse_positive_byte_size U ''0B'')"
    "\<not> is_ok (bind_res (parse_positive_byte_size U ''1.5B'') (frame_max_try_from S))"
    using laws by (simp_all add: size_laws_def)
  then show "\<not> is_ok (parse_client_frame_max U S ''101MiB'')" "\<not> is_ok (parse_client_frame_max U S ''1.5B'')"
    "\<not> is_ok (parse_fetch_min U S ''0B'')"
    by (auto simp: parse_client_frame_max_def parse_fetch_min_def is_ok_bind)
qed

lemma size_facts:
  assumes "library_laws U S P L"
  shows "parse_client_dispatch_queue_capacity S (queue_default_text P) = Inr 64"
    "parse_client_dispatch_queue_capacity S ''7'' = Inr 7" "parse_client_dispatch_queue_capacity S ''9'' = Inr 9"
    "parse_client_frame_max U S ''100MiB'' = Inr (mebibytes U 100)"
    "parse_client_frame_max U S ''32KiB'' = Inr (kibibytes L 32)"
    "parse_client_frame_max U S ''64KiB'' = Inr (kibibytes L 64)"
    "parse_fetch_min U S ''3B'' = Inr (bytes_of U 3)" "parse_fetch_min U S ''5B'' = Inr (bytes_of U 5)"
    "parse_positive_byte_size U ''3B'' = Inr (bytes_of U 3)"
    "parse_positive_byte_size U ''32MiB'' = Inr (mebibytes U 32)"
    "parse_positive_byte_size U ''2MiB'' = Inr (mebibytes U 2)"
  using assms by (simp_all add: library_laws_def size_laws_def setting_laws_def parser_laws_def small_numbers
      queue_capacity_parsed frame_max_parsed fetch_min_parsed [where L = L and n = 3] fetch_min_parsed [where L = L and n = 5])

lemma profiling_fact:
  assumes "library_laws U S P L" and "dom found \<subseteq> Collect declared"
  shows "parse_profiling P found = Some (default_profiling L)"
proof -
  have "dom found \<subseteq> set (map arg_field (cli_args (queue_default_text P)))"
    using assms(2) declared_field by blast
  with assms(1) show ?thesis by (simp add: library_laws_def parser_laws_def)
qed

lemmas declared_args = declared_def cli_args_def process_args_def consumer_args_def streams_args_def

lemma role_parsed:
  "parse_role ''produce'' = Inr Produce" "parse_role ''stream'' = Inr Stream" "parse_role ''consume'' = Inr Consume"
  by (simp_all add: parse_role_name)

lemmas parsing = role_parsed parsed_def try_parse_def parse_cli_def value_of_def given_value_def text_of_def default_texts
  default_fraction parse_nonzero_usize_def small_numbers parse_non_empty_string_def

lemmas given_facts = time_facts size_facts

lemma value_refused:
  assumes "text_of P found n = Some t" and "\<not> is_ok (parser t)"
  shows "value_of P found n parser = None" and "given_value P found n parser = None"
  using assms by (auto simp: value_of_def given_value_def not_ok_Inl)

lemma refusedI:
  assumes "\<And>c. parse_cli U S P (map_of ((''role'', role_name r) # opts)) = Some c \<Longrightarrow> False"
  shows "refused U S P r opts"
  using assms by (cases "try_parse U S P r opts") (auto simp: refused_def try_parse_def)

section \<open>The tests hold\<close>

lemma refused_options:
  assumes "library_laws U S P L"
  shows "refused U S P r [(''producer_max_in_flight'', ''0'')]" "refused U S P r [(''orders_per_sec'', ''-1Hz'')]"
    "refused U S P r [(''consumer_poll_timeout'', ''0'')]" "refused U S P r [(''validate_work'', ''-1ms'')]"
    "refused U S P r [(''streams_application_id'', '''')]" "refused U S P r [(''consumer_group_id'', '''')]"
    "refused U S P r [(''client_dispatch_queue_capacity'', ''0'')]" "refused U S P r [(''client_frame_max'', ''101MiB'')]"
    "refused U S P r [(''client_frame_max'', ''1.5B'')]" "refused U S P r [(''streams_fetch_min'', ''0B'')]"
    "refused U S P r [(''streams_broker_dns_timeout'', ''0ms'')]" "refused U S P r [(''streams_poll_interval'', ''0ms'')]"
    "refused U S P r [(''streams_commit_interval'', ''0ms'')]" "refused U S P r [(''streams_rebalance_timeout'', ''0ms'')]"
proof -
  note simps = value_refused refused_facts [OF assms] text_of_def
  note empty = value_of_def parse_nonzero_usize_def small_numbers parse_non_empty_string_def text_of_def
  show "refused U S P r [(''producer_max_in_flight'', ''0'')]"
    by (rule refusedI, drule parse_cli_fields(7)) (simp add: empty)
  show "refused U S P r [(''orders_per_sec'', ''-1Hz'')]"
    by (rule refusedI, drule parse_cli_fields(6)) (simp add: simps)
  show "refused U S P r [(''consumer_poll_timeout'', ''0'')]"
    by (rule refusedI, drule parse_cli_fields(14)) (simp add: simps)
  show "refused U S P r [(''validate_work'', ''-1ms'')]"
    by (rule refusedI, drule parse_cli_fields(8)) (simp add: simps)
  show "refused U S P r [(''streams_application_id'', '''')]"
    by (rule refusedI, drule parse_cli_fields(4)) (simp add: empty)
  show "refused U S P r [(''consumer_group_id'', '''')]"
    by (rule refusedI, drule parse_cli_fields(5)) (simp add: empty)
  show "refused U S P r [(''client_dispatch_queue_capacity'', ''0'')]"
    by (rule refusedI, drule parse_cli_fields(2)) (simp add: simps)
  show "refused U S P r [(''client_frame_max'', ''101MiB'')]"
    by (rule refusedI, drule parse_cli_fields(3)) (simp add: simps)
  show "refused U S P r [(''client_frame_max'', ''1.5B'')]"
    by (rule refusedI, drule parse_cli_fields(3)) (simp add: simps)
  show "refused U S P r [(''streams_fetch_min'', ''0B'')]"
    by (rule refusedI, drule parse_cli_fields(13)) (simp add: simps)
  show "refused U S P r [(''streams_broker_dns_timeout'', ''0ms'')]"
    by (rule refusedI, drule parse_cli_fields(15)) (simp add: simps)
  show "refused U S P r [(''streams_poll_interval'', ''0ms'')]"
    by (rule refusedI, drule parse_cli_fields(16)) (simp add: simps)
  show "refused U S P r [(''streams_commit_interval'', ''0ms'')]"
    by (rule refusedI, drule parse_cli_fields(17)) (simp add: simps)
  show "refused U S P r [(''streams_rebalance_timeout'', ''0ms'')]"
    by (rule refusedI, drule parse_cli_fields(18)) (simp add: simps)
qed

lemma fraction_near_default: "abs64 (sub64 (f64_lit (2 / 100)) (f64_lit (2 / 100))) < f64_epsilon"
proof -
  obtain s m where "f64_lit (2 / 100) = F64_Num s m"
    by (rule parse_fraction_cases [OF default_fraction]) blast
  then show ?thesis by (simp add: sub64_self f64_epsilon_def)
qed

lemma producer_concurrency_holds:
  assumes "library_laws U S P L"
  shows "producer_concurrency_defaults_to_one_and_rejects_zero U S P L"
proof -
  note facts = given_facts [OF assms] profiling_fact [OF assms] refused_options [OF assms]
  show ?thesis
    by (simp add: producer_concurrency_defaults_to_one_and_rejects_zero_def parsing facts declared_args)
qed

lemma workload_policy_holds:
  assumes "library_laws U S P L"
  shows "workload_policy_preserves_defaults_and_accepts_units U S P L"
proof -
  note facts = given_facts [OF assms] profiling_fact [OF assms] refused_options [OF assms]
  show ?thesis
    by (simp add: workload_policy_preserves_defaults_and_accepts_units_def parsing facts declared_args fraction_near_default [simplified])
qed

lemma enum_facts:
  assumes "library_laws U S P L"
  shows "parse_offset_reset P ''earliest'' = Inr (offset_reset_earliest L)"
    "parse_isolation_level P ''read_committed'' = Inr (isolation_read_committed L)"
    "parse_assignor P ''cooperative-sticky'' = Inr (assignor_cooperative_sticky L)"
  using assms by (simp_all add: library_laws_def parser_laws_def)

lemma consumer_behavior_holds:
  assumes "library_laws U S P L"
  shows "consumer_behavior_uses_defaults_and_independent_overrides U S P L"
proof -
  note facts = given_facts [OF assms] profiling_fact [OF assms] enum_facts [OF assms]
  show ?thesis
    by (simp add: consumer_behavior_uses_defaults_and_independent_overrides_def parsing facts declared_args effective_consumer_behavior_def)
qed

lemma consumer_timing_holds:
  assumes "library_laws U S P L"
  shows "consumer_timing_uses_defaults_and_independent_overrides U S P L"
proof -
  note facts = given_facts [OF assms] profiling_fact [OF assms]
  show ?thesis
    by (simp add: consumer_timing_uses_defaults_and_independent_overrides_def parsing facts declared_args effective_consumer_timing_def)
qed

lemma fetch_policy_yields:
  assumes "unwrap_or (bytes_of U 1) (consumer_fetch_min c) = mn"
    and "unwrap_or (mebibytes U 50) (consumer_fetch_max c) = mx"
    and "unwrap_or (mebibytes U 1) (consumer_fetch_partition_max c) = pm" and "role c = Consume"
    and "yields (fetch_min_try_from S mn) (\<lambda>w. fetch_min_size S w = mn \<and> bytes L w = n)"
    and "yields (fetch_max_try_from S mx) (\<lambda>w. fetch_max_size S w = mx)"
    and "yields (partition_max_try_from S pm) (\<lambda>w. partition_max_size S w = pm)"
    and "bytes_i32 U mn \<le> bytes_i32 U mx"
  shows "effective_consumer_fetch_policy U S c = Inr (mn, mx, pm)"
proof -
  obtain w1 w2 w3 where "fetch_min_try_from S mn = Inr w1" "fetch_min_size S w1 = mn"
    "fetch_max_try_from S mx = Inr w2" "fetch_max_size S w2 = mx"
    "partition_max_try_from S pm = Inr w3" "partition_max_size S w3 = pm"
    using assms(5-7) by (auto elim!: yieldsE)
  then show ?thesis
    using assms(1-4,8) by (simp add: effective_consumer_fetch_policy_def del: One_nat_def)
qed

lemma fetch_facts:
  assumes "library_laws U S P L"
  shows "yields (fetch_min_try_from S (bytes_of U 1)) (\<lambda>w. fetch_min_size S w = bytes_of U 1 \<and> bytes L w = 1)"
    "yields (fetch_min_try_from S (bytes_of U 3)) (\<lambda>w. fetch_min_size S w = bytes_of U 3 \<and> bytes L w = 3)"
    "yields (fetch_min_try_from S (bytes_of U 5)) (\<lambda>w. fetch_min_size S w = bytes_of U 5 \<and> bytes L w = 5)"
    "yields (fetch_max_try_from S (mebibytes U 50)) (\<lambda>w. fetch_max_size S w = mebibytes U 50)"
    "yields (fetch_max_try_from S (mebibytes U 32)) (\<lambda>w. fetch_max_size S w = mebibytes U 32)"
    "yields (partition_max_try_from S (mebibytes U 1)) (\<lambda>w. partition_max_size S w = mebibytes U 1)"
    "yields (partition_max_try_from S (mebibytes U 2)) (\<lambda>w. partition_max_size S w = mebibytes U 2)"
    "bytes_i32 U (bytes_of U 1) \<le> bytes_i32 U (mebibytes U 50)"
    "bytes_i32 U (bytes_of U 3) \<le> bytes_i32 U (mebibytes U 32)" "bytes L (fetch_min_default S) = 1"
    "size_human U (bytes_of U 3) = ''3B''"
  using assms by (simp_all add: library_laws_def size_laws_def)

lemma consumer_fetch_holds:
  assumes "library_laws U S P L"
  shows "consumer_fetch_policy_uses_defaults_and_validates_overrides U S P L"
proof -
  note facts = given_facts [OF assms] profiling_fact [OF assms]
  note sizes = fetch_facts [OF assms]
  note policies = fetch_policy_yields [OF _ _ _ _ sizes(1) sizes(4,6,8)] fetch_policy_yields [OF _ _ _ _ sizes(2) sizes(5,7,9)]
  show ?thesis
    by (simp add: consumer_fetch_policy_uses_defaults_and_validates_overrides_def parsing facts declared_args
        policies del: One_nat_def)
qed

lemma setting_facts:
  assumes "library_laws U S P L"
  shows "retry_policy_new S (startup_attempt_timeout S (retry_policy_default S))
       (startup_deadline S (retry_policy_default S)) (startup_initial_backoff S (retry_policy_default S))
       (startup_max_backoff S (retry_policy_default S)) (coordinator_retry_timeout S (retry_policy_default S))
       (coordinator_initial_backoff S (retry_policy_default S))
       (coordinator_max_backoff S (retry_policy_default S)) = Inr (retry_policy_default S)"
    "yields (retry_policy_new S (secs U 2) (secs U 3) (millis L 10) (millis L 20) (secs U 4) (millis L 30) (millis L 40))
       (\<lambda>w. startup_attempt_timeout S w = secs U 2 \<and> startup_deadline S w = secs U 3 \<and>
         startup_initial_backoff S w = millis L 10 \<and> startup_max_backoff S w = millis L 20 \<and>
         coordinator_retry_timeout S w = secs U 4 \<and> coordinator_initial_backoff S w = millis L 30 \<and>
         coordinator_max_backoff S w = millis L 40)"
    "schema_initial_backoff S (schema_retry_default S) = millis L 10"
    "schema_max_backoff S (schema_retry_default S) = secs U 1"
    "yields (schema_retry_new S (millis L 10) (secs U 1))
       (\<lambda>w. schema_initial_backoff S w = millis L 10 \<and> schema_max_backoff S w = secs U 1)"
    "yields (schema_retry_new S (millis L 37) (millis L 91))
       (\<lambda>w. schema_initial_backoff S w = millis L 37 \<and> schema_max_backoff S w = millis L 91)"
    "yields (schema_retry_new S (millis L 37) (millis L 37))
       (\<lambda>w. schema_initial_backoff S w = millis L 37 \<and> schema_max_backoff S w = millis L 37)"
    "milliseconds L (metadata_refresh_default S) = 5000"
    "yields (metadata_refresh_new S (to_std U (millis L 37))) (\<lambda>w. milliseconds L w = 37)"
    "yields (dns_timeout_new S (millis L 37)) (\<lambda>w. milliseconds L w = 37)"
    "yields (poll_interval_new S (to_std U (millis L 37))) (\<lambda>w. milliseconds L w = 37)"
    "yields (commit_interval_new S (to_std U (millis L 41))) (\<lambda>w. milliseconds L w = 41)"
    "yields (rebalance_timeout_new S (to_std U (secs U 45))) (\<lambda>w. milliseconds L w = 45000)"
    "case rebalance_timeout_new S (to_std U (millis L 2147483648)) of
        Inl e \<Rightarrow> contains ''streams rebalance timeout'' e | Inr _ \<Rightarrow> False"
    "yields (join_retry_new S (to_std U (millis L 37))) (\<lambda>w. milliseconds L w = 37)"
    "yields (query_queue_new S 37) (\<lambda>w. capacity L w = 37)"
    "time_human U (millis L 37) = ''37ms''" "time_human U (secs U 45) = ''45s''"
  using assms by (simp_all add: library_laws_def setting_laws_def time_laws_def)

lemma consumer_retry_holds:
  assumes "library_laws U S P L"
  shows "consumer_retry_policy_uses_defaults_and_validates_overrides U S P L"
proof -
  note facts = given_facts [OF assms] profiling_fact [OF assms] setting_facts [OF assms]
  show ?thesis
    by (simp add: consumer_retry_policy_uses_defaults_and_validates_overrides_def parsing facts declared_args effective_consumer_retry_policy_def Let_def)
qed

lemma schema_retry_holds:
  assumes "library_laws U S P L"
  shows "schema_fetch_retry_policy_uses_defaults_and_valid_explicit_bounds U S P L"
proof -
  note facts = given_facts [OF assms] profiling_fact [OF assms] setting_facts [OF assms]
  show ?thesis
    by (simp add: schema_fetch_retry_policy_uses_defaults_and_valid_explicit_bounds_def parsing facts declared_args schema_fetch_retry_policy_def Let_def del: One_nat_def)
qed

lemma yields_mono: "yields r Q \<Longrightarrow> (\<And>x. Q x \<Longrightarrow> Q' x) \<Longrightarrow> yields r Q'"
  by (auto elim: yieldsE)

lemma schema_equal_bounds_holds:
  assumes "library_laws U S P L"
  shows "schema_fetch_retry_policy_accepts_equal_bounds U S P L"
proof -
  note facts = given_facts [OF assms] profiling_fact [OF assms] setting_facts [OF assms]
  show ?thesis
    by (simp add: schema_fetch_retry_policy_accepts_equal_bounds_def parsing facts declared_args schema_fetch_retry_policy_def Let_def yields_mono [OF setting_facts(7) [OF assms]])
qed

lemma metadata_refresh_holds:
  assumes "library_laws U S P L"
  shows "consumer_subscription_metadata_refresh_uses_default_and_override U S P L"
proof -
  note facts = given_facts [OF assms] profiling_fact [OF assms] setting_facts [OF assms]
  show ?thesis
    by (simp add: consumer_subscription_metadata_refresh_uses_default_and_override_def parsing facts declared_args effective_consumer_subscription_metadata_refresh_interval_def)
qed

lemmas stream_options = effective_streams_broker_dns_timeout_def effective_streams_runtime_cadence_def
  effective_streams_rebalance_timeout_def effective_streams_join_retry_backoff_def
  effective_streams_interactive_query_queue_capacity_def only_valid_with_def

lemma yields_bind: "yields (bind_res r f) Q \<longleftrightarrow> yields r (\<lambda>x. yields (f x) Q)"
  by (cases r) simp_all

lemma yields_true: "yields r Q \<Longrightarrow> yields r (\<lambda>x. Q x \<and> R) \<longleftrightarrow> R"
  by (cases R) (auto elim: yieldsE)

lemma stream_literal_tests_hold:
  assumes "library_laws U S P L"
  shows "streams_broker_dns_timeout_uses_default_and_cli_override U S P L"
    "streams_runtime_cadence_uses_defaults_and_independent_overrides U S P L"
    "streams_rebalance_timeout_uses_default_and_cli_override U S P L"
    "streams_join_retry_backoff_uses_default_and_cli_override U S P L"
    "streams_interactive_query_queue_capacity_uses_default_and_override U S P L"
proof -
  note facts = setting_facts [OF assms] stream_options
  show "streams_broker_dns_timeout_uses_default_and_cli_override U S P L"
    by (simp add: streams_broker_dns_timeout_uses_default_and_cli_override_def stream_defaults_def facts)
  show "streams_rebalance_timeout_uses_default_and_cli_override U S P L"
    by (simp add: streams_rebalance_timeout_uses_default_and_cli_override_def stream_defaults_def facts)
  show "streams_join_retry_backoff_uses_default_and_cli_override U S P L"
    by (simp add: streams_join_retry_backoff_uses_default_and_cli_override_def stream_defaults_def facts)
  show "streams_interactive_query_queue_capacity_uses_default_and_override U S P L"
    by (simp add: streams_interactive_query_queue_capacity_uses_default_and_override_def stream_defaults_def facts)
  obtain poll commit where "poll_interval_new S (to_std U (millis L 37)) = Inr poll" "milliseconds L poll = 37"
    "commit_interval_new S (to_std U (millis L 41)) = Inr commit" "milliseconds L commit = 41"
    using setting_facts(11,12) [OF assms] by (auto elim!: yieldsE)
  then show "streams_runtime_cadence_uses_defaults_and_independent_overrides U S P L"
    by (simp add: streams_runtime_cadence_uses_defaults_and_independent_overrides_def stream_defaults_def stream_options)
qed

lemma dns_rejections_hold:
  assumes "library_laws U S P L"
  shows "streams_broker_dns_timeout_rejects_zero_and_non_stream_roles U S P L"
proof -
  note facts = given_facts [OF assms] profiling_fact [OF assms] setting_facts [OF assms] refused_options [OF assms]
  show ?thesis
    by (simp add: streams_broker_dns_timeout_rejects_zero_and_non_stream_roles_def parsing facts declared_args stream_options)
qed

lemma cadence_rejections_hold:
  assumes "library_laws U S P L"
  shows "streams_runtime_cadence_rejects_zero_and_non_stream_roles U S P L"
proof -
  note facts = given_facts [OF assms] profiling_fact [OF assms] setting_facts [OF assms] refused_options [OF assms]
  show ?thesis
    by (simp add: streams_runtime_cadence_rejects_zero_and_non_stream_roles_def parsing facts declared_args stream_options)
qed

lemma rebalance_rejections_hold:
  assumes "library_laws U S P L"
  shows "streams_rebalance_timeout_rejects_zero_overflow_and_non_stream_roles U S P L"
proof -
  note facts = given_facts [OF assms] profiling_fact [OF assms] setting_facts [OF assms] refused_options [OF assms]
  obtain e where "rebalance_timeout_new S (to_std U (millis L 2147483648)) = Inl e" "contains ''streams rebalance timeout'' e"
    using setting_facts(14) [OF assms] by (auto split: sum.splits)
  then show ?thesis
    by (simp add: streams_rebalance_timeout_rejects_zero_overflow_and_non_stream_roles_def parsing facts
        declared_args stream_options)
qed

lemma client_policy_holds:
  assumes "yields (queue_capacity_new S q) (\<lambda>w. queue_capacity_get S w = q)"
    and "yields (frame_max_try_from S f) (\<lambda>w. frame_max_size S w = f)"
    and "client_dispatch_queue_capacity c = q" and "client_frame_max c = f" and "role c = Stream"
    and "case streams_fetch_min c of
           None \<Rightarrow> bytes L (fetch_min_default S) = n
         | Some m \<Rightarrow> yields (fetch_min_try_from S m) (\<lambda>w. fetch_min_size S w = m \<and> bytes L w = n)"
  shows "client_policy_is U S L q f n c"
  using assms by (auto simp: client_policy_is_def client_resource_policy_def effective_streams_fetch_min_def
      elim!: yieldsE split: option.splits)

lemma client_facts:
  assumes "library_laws U S P L"
  shows "yields (queue_capacity_new S 64) (\<lambda>w. queue_capacity_get S w = 64)"
    "yields (queue_capacity_new S 7) (\<lambda>w. queue_capacity_get S w = 7)"
    "yields (queue_capacity_new S 9) (\<lambda>w. queue_capacity_get S w = 9)"
    "yields (frame_max_try_from S (mebibytes U 100)) (\<lambda>w. frame_max_size S w = mebibytes U 100)"
    "yields (frame_max_try_from S (kibibytes L 32)) (\<lambda>w. frame_max_size S w = kibibytes L 32)"
    "yields (frame_max_try_from S (kibibytes L 64)) (\<lambda>w. frame_max_size S w = kibibytes L 64)"
  using assms by (simp_all add: library_laws_def setting_laws_def size_laws_def)

lemma client_tests_hold:
  assumes "library_laws U S P L"
  shows "client_resource_policy_parses_defaults_overrides_and_invalid_values U S P L"
    "client_resource_policy_reads_environment_and_prefers_cli U S P L"
proof -
  note facts = given_facts [OF assms] profiling_fact [OF assms] refused_options [OF assms]
    fetch_facts [OF assms]
  note client = client_facts [OF assms]
  note policies = client_policy_holds [OF client(1,4)] client_policy_holds [OF client(2,5)]
    client_policy_holds [OF client(3,6)]
  show "client_resource_policy_parses_defaults_overrides_and_invalid_values U S P L"
    by (simp add: client_resource_policy_parses_defaults_overrides_and_invalid_values_def parsing facts
        declared_args policies effective_streams_fetch_min_def only_valid_with_def del: One_nat_def)
  show "client_resource_policy_reads_environment_and_prefers_cli U S P L"
    by (simp add: client_resource_policy_reads_environment_and_prefers_cli_def client_policy_environment_def
        parsing facts declared_args policies del: One_nat_def)
qed

lemma runtime_configs_hold:
  assumes "library_laws U S P L"
  shows "runtime_configs_bind_the_validated_role_settings U S P L"
proof -
  note facts = given_facts [OF assms] profiling_fact [OF assms] setting_facts [OF assms]
  note sizes = fetch_facts [OF assms]
  note policy = fetch_policy_yields [OF _ _ _ _ sizes(1) sizes(4,6,8)]
  obtain q f s where "queue_capacity_new S 64 = Inr q" "frame_max_try_from S (mebibytes U 100) = Inr f"
    "schema_retry_new S (millis L 10) (secs U 1) = Inr s"
    using client_facts(1,4) [OF assms] setting_facts(5) [OF assms] by (auto elim!: yieldsE)
  then show ?thesis
    by (simp add: runtime_configs_bind_the_validated_role_settings_def parsing facts declared_args policy
        stream_runtime_def consumer_runtime_def client_resource_policy_def schema_fetch_retry_policy_def
        stream_options effective_streams_leave_heartbeat_timeout_def effective_streams_state_store_cache_max_bytes_def
        effective_streams_fetch_min_def effective_consumer_timing_def effective_consumer_behavior_def
        effective_consumer_leave_group_timeout_def effective_consumer_subscription_metadata_refresh_interval_def
        effective_consumer_retry_policy_def Let_def del: One_nat_def)
qed

section \<open>An instance of the libraries\<close>

text \<open>Times are nanoseconds, sizes bytes, and a validated setting is the list of its numbers.\<close>

definition time_texts :: "(string \<times> int) list" where
  "time_texts =
     [(''500ms'', 500000000), (''2s'', 2000000000), (''3s'', 3000000000), (''4s'', 4000000000),
      (''31s'', 31000000000), (''45s'', 45000000000), (''46s'', 46000000000), (''61s'', 61000000000),
      (''10ms'', 10000000), (''20ms'', 20000000), (''30ms'', 30000000), (''40ms'', 40000000),
      (''37ms'', 37000000), (''91ms'', 91000000), (''2147483648ms'', 2147483648000000),
      (''150us'', 150000), (''400us'', 400000), (''200us'', 200000), (''300us'', 300000), (''0'', 0),
      (''0ms'', 0), (''1ms'', 1000000), (''2ms'', 2000000), (''3ms'', 3000000), (''-1ms'', - 1000000)]"

definition frequency_texts :: "(string \<times> int) list" where
  "frequency_texts = [(''50Hz'', 50), (''120/min'', 2), (''-1Hz'', - 1)]"

definition size_texts :: "(string \<times> int) list" where
  "size_texts =
     [(''100MiB'', 104857600), (''101MiB'', 105906176), (''32KiB'', 32768), (''64KiB'', 65536), (''3B'', 3),
      (''5B'', 5), (''32MiB'', 33554432), (''2MiB'', 2097152), (''0B'', 0)]"

definition read_text :: "(string \<times> int) list \<Rightarrow> string \<Rightarrow> string + int" where
  "read_text table s = ok_or ''unknown'' (map_of table s)"

definition positive :: "string + int \<Rightarrow> string + int" where
  "positive r = bind_res r (\<lambda>v. if 0 < v then Inr v else Inl ''must be positive'')"

definition bounded_by :: "int \<Rightarrow> string \<Rightarrow> int \<Rightarrow> string + int list" where
  "bounded_by bound error v = (if 0 < v \<and> v \<le> bound then Inr [v] else Inl error)"

definition test_units :: "(int, int, int) units" where
  "test_units =
     \<lparr>time_human = (\<lambda>t. if t mod 1000000000 = 0 then show_nat (nat (t div 1000000000)) @ ''s''
        else show_nat (nat (t div 1000000)) @ ''ms''),
      size_human = (\<lambda>b. show_nat (nat b) @ ''B''), to_std = nat, from_std = int,
      secs_f64 = (\<lambda>t. as_secs_f64 (nat t)), time_zero = 0, time_less = (<), freq_zero = 0, freq_less = (<),
      freq_eq = (=), freq_recip = (\<lambda>f. 1000000000 div f), secs = (\<lambda>n. int n * 1000000000),
      minutes = (\<lambda>n. int n * 60000000000), bytes_of = int, mebibytes = (\<lambda>n. int n * 1048576),
      bytes_i32 = (\<lambda>b. b), parse_time = read_text time_texts, parse_frequency = read_text frequency_texts,
      parse_positive_byte_size = (\<lambda>s. positive (read_text size_texts s))\<rparr>"

definition test_settings :: "(int, int, int list, string) settings" where
  "test_settings =
     \<lparr>queue_capacity_new = (\<lambda>n. bounded_by 1048576 ''queue'' (int n)), queue_capacity_get = (\<lambda>w. nat (hd w)),
      frame_max_try_from = bounded_by 104857600 ''frame'', frame_max_size = hd,
      fetch_min_try_from = bounded_by 2147483647 ''fetch min'', fetch_min_size = hd, fetch_min_default = [1],
      fetch_max_try_from = bounded_by 2147483647 ''fetch max'', fetch_max_size = hd,
      partition_max_try_from = bounded_by 2147483647 ''partition max'', partition_max_size = hd,
      leave_group_timeout_new = (\<lambda>d. Inr [int d]), leave_group_timeout_default = [5000],
      metadata_refresh_new = (\<lambda>d. Inr [int d div 1000000]), metadata_refresh_default = [5000],
      retry_policy_new = (\<lambda>a b c d e f g. Inr [a, b, c, d, e, f, g]), retry_policy_default = [1, 2, 3, 4, 5, 6, 7],
      startup_attempt_timeout = (\<lambda>w. w ! 0), startup_deadline = (\<lambda>w. w ! 1),
      startup_initial_backoff = (\<lambda>w. w ! 2), startup_max_backoff = (\<lambda>w. w ! 3),
      coordinator_retry_timeout = (\<lambda>w. w ! 4), coordinator_initial_backoff = (\<lambda>w. w ! 5),
      coordinator_max_backoff = (\<lambda>w. w ! 6), dns_timeout_new = (\<lambda>t. Inr [t div 1000000]),
      dns_timeout_default = [30000], poll_interval_new = (\<lambda>d. Inr [int d div 1000000]),
      poll_interval_default = [100], commit_interval_new = (\<lambda>d. Inr [int d div 1000000]),
      commit_interval_default = [30000],
      rebalance_timeout_new = (\<lambda>d. bounded_by 2147483647 ''streams rebalance timeout'' (int d div 1000000)),
      rebalance_timeout_default = [60000], leave_heartbeat_new = (\<lambda>d. Inr [int d div 1000000]),
      leave_heartbeat_default = [5000], join_retry_new = (\<lambda>d. Inr [int d div 1000000]),
      join_retry_default = [100], query_queue_new = (\<lambda>n. Inr [int n]), query_queue_default = [64],
      cache_max_new = (\<lambda>b. Inr [b]), cache_max_default = [10485760],
      schema_retry_new = (\<lambda>a b. if a \<le> b then Inr [a, b] else Inl ''backoff''),
      schema_retry_default = [10000000, 1000000000], schema_initial_backoff = (\<lambda>w. w ! 0),
      schema_max_backoff = (\<lambda>w. w ! 1), offset_reset_latest = ''latest'',
      isolation_read_uncommitted = ''read_uncommitted'', assignor_range = ''range''\<rparr>"

definition test_parsers :: "(unit, int, int, string) value_parsers" where
  "test_parsers =
     \<lparr>parse_profiling = (\<lambda>_. Some ()), parse_positive_time = (\<lambda>s. positive (read_text time_texts s)),
      parse_non_negative_byte_size = read_text size_texts, parse_offset_reset = Inr,
      parse_isolation_level = Inr, parse_assignor = Inr, empty_string_error = ''empty'',
      queue_default_text = ''64''\<rparr>"

definition test_values :: "(unit, int, int, int, int list, string) test_library" where
  "test_values =
     \<lparr>millis = (\<lambda>n. int n * 1000000), micros = (\<lambda>n. int n * 1000), kibibytes = (\<lambda>n. int n * 1024),
      per_sec = int, milliseconds = (\<lambda>w. nat (hd w)), capacity = (\<lambda>w. nat (hd w)), bytes = (\<lambda>w. nat (hd w)),
      default_queue_capacity = 64, default_profiling = (), offset_reset_earliest = ''earliest'',
      isolation_read_committed = ''read_committed'', assignor_cooperative_sticky = ''cooperative-sticky''\<rparr>"

lemmas test_instance = test_units_def test_settings_def test_parsers_def test_values_def bounded_by_def
  positive_def read_text_def ok_or_def

lemma number_texts: "show_nat 3 = ''3''" "show_nat 37 = ''37''" "show_nat 45 = ''45''"
  by code_simp+

lemma test_time_laws: "time_laws test_units test_parsers test_values"
  by (simp add: time_laws_def test_instance number_texts time_texts_def frequency_texts_def)

lemma test_size_laws: "size_laws test_units test_settings test_values"
  by (simp add: size_laws_def test_instance number_texts size_texts_def)

lemma rebalance_message: "contains ''streams rebalance timeout'' ''streams rebalance timeout''"
  by (simp add: contains_def upt_rec)

lemma test_setting_laws: "setting_laws test_units test_settings test_values"
  by (simp add: setting_laws_def test_instance rebalance_message)

lemma test_parser_laws: "parser_laws test_parsers test_values"
  by (simp add: parser_laws_def test_instance)

section \<open>All tests\<close>

text \<open>
  The configuration tests of \<open>main.rs\<close> pass, on every implementation of the unit and settings
  libraries that reads the texts of the tests as the tests expect: defaults and overrides of every
  option reach the effective settings, a zero, a negative, an oversized and an empty value is refused,
  and an option of another role is refused with its name and value.
\<close>

lemma configuration_tests_hold:
  assumes "library_laws U S P L"
  shows "list_all (\<lambda>test. test U S P L)
    [producer_concurrency_defaults_to_one_and_rejects_zero,
     runtime_configs_bind_the_validated_role_settings,
     workload_policy_preserves_defaults_and_accepts_units,
     consumer_behavior_uses_defaults_and_independent_overrides,
     consumer_timing_uses_defaults_and_independent_overrides,
     consumer_fetch_policy_uses_defaults_and_validates_overrides,
     consumer_retry_policy_uses_defaults_and_validates_overrides,
     schema_fetch_retry_policy_uses_defaults_and_valid_explicit_bounds,
     schema_fetch_retry_policy_accepts_equal_bounds,
     consumer_subscription_metadata_refresh_uses_default_and_override,
     streams_broker_dns_timeout_uses_default_and_cli_override,
     streams_broker_dns_timeout_rejects_zero_and_non_stream_roles,
     streams_runtime_cadence_uses_defaults_and_independent_overrides,
     streams_runtime_cadence_rejects_zero_and_non_stream_roles,
     streams_rebalance_timeout_uses_default_and_cli_override,
     streams_rebalance_timeout_rejects_zero_overflow_and_non_stream_roles,
     streams_join_retry_backoff_uses_default_and_cli_override,
     streams_interactive_query_queue_capacity_uses_default_and_override,
     client_resource_policy_parses_defaults_overrides_and_invalid_values,
     client_resource_policy_reads_environment_and_prefers_cli]"
  using assms
  by (simp add: producer_concurrency_holds runtime_configs_hold workload_policy_holds consumer_behavior_holds
      consumer_timing_holds consumer_fetch_holds consumer_retry_holds schema_retry_holds
      schema_equal_bounds_holds metadata_refresh_holds dns_rejections_hold cadence_rejections_hold
      rebalance_rejections_hold stream_literal_tests_hold client_tests_hold)

lemma configuration_tests_hold_here:
  "client_resource_policy_reads_environment_and_prefers_cli test_units test_settings test_parsers test_values"
  using configuration_tests_hold [of test_units test_settings test_parsers test_values]
    test_time_laws test_size_laws test_setting_laws test_parser_laws
  by (simp add: library_laws_def)

end
