(* ===== verification/Spec2Isabelle.thy ===== *)
theory Spec2Isabelle
  imports Orders Pipeline Metrics Scheduler_Spec Scheduler_Prompt Config_Spec Cli_Parse Cli_Refusal Publish Consumer_Loop
    Streams_App Demo_Main Rule_Tests Producer_Tests Delivery_Tests Config_Tests
begin

text \<open>
  A model of \<open>krabka-o11y-demo\<close>, the orders demo of \<open>crates/observability-demo-app\<close>: one binary
  with three roles. \<open>produce\<close> generates a deterministic stream of orders and publishes them to a
  Kafka topic; \<open>consume\<close> reads the topic, continues the producer's trace and runs every order
  through four stages; \<open>stream\<close> counts the orders per category in a streams application. The roles
  meet in the topic only, and share the generator, the business rules, the metrics and the command
  line.

  Theories, in the order of their imports, and the code they model.

  \<^item> \<open>Demo_Prelude\<close>: types, results, lists, reachability, the interfaces \<open>invariant_system\<close> and
    \<open>codec\<close>. \<open>Float64\<close>: binary64 with its rounding, on exact rationals, and the interface
    \<open>nearest_rounding\<close>. \<open>Rust_Std\<close>: decimal printing and parsing, UTF-8, \<open>Duration\<close>.
    \<open>Float_Parse\<close>: the decimal parser of \<open>f64\<close> and \<open>parse_fraction\<close>.
  \<^item> \<open>Orders\<close>: \<open>src/lib.rs\<close>, the generator \<open>order_at\<close> over a \<open>u64\<close> index and the rules
    \<open>is_anomalous\<close>, \<open>is_suspicious\<close>, \<open>classify_outcome\<close>.
  \<^item> \<open>Pipeline\<close>: \<open>src/pipeline.rs\<close>, decoding, Kafka headers, latency injection, the stage sequence.
  \<^item> \<open>Metrics\<close>: \<open>src/metrics.rs\<close>, labels, handles, what each recording method calls, what
    \<open>DemoMetrics::new\<close> registers, the two admin routes; and what a scrape shows of a call.
  \<^item> \<open>Scheduler\<close>, \<open>Scheduler_Spec\<close>: \<open>src/producer.rs\<close>, \<open>send_orders\<close> as a step relation (one
    \<open>select!\<close>, one join of the drain, or the end per step), its invariant, and its promises: the
    concurrency bound, order per key, accounting, termination of the drain, and a simulation of the
    abstract \<open>gate\<close> (a set of orders in flight, one per category).
  \<^item> \<open>Scheduler_Timed\<close>: the same loop with its clock and its two intervals, a refinement of
    \<open>Scheduler\<close>; pacing of the admissions and the log lines. \<open>Scheduler_Prompt\<close>: an executor that lets
    time pass only while no branch is ready, which is what the paused clock of the tests gives; a run
    returns, at the requested rate when the deliveries keep up. \<open>Producer_Tests\<close>: the tests of
    \<open>producer.rs\<close> on it.
  \<^item> \<open>Config\<close>, \<open>Config_Spec\<close>, \<open>Cli_Args\<close>, \<open>Cli_Parse\<close>, \<open>Cli_Refusal\<close>: \<open>src/main.rs\<close> up to
    \<open>consumer_runtime\<close>: the arguments with their environment variables and defaults, \<open>Cli::parse\<close> over
    the texts found for them, the value parsers, the \<open>effective_*\<close> functions and the configuration
    part of \<open>main\<close>; every role gate is an interpretation of \<open>role_gated\<close>, and an option of another role
    is followed from its flag to the error that names it. \<open>Config_Tests\<close>: the tests of it.
  \<^item> \<open>Runtime\<close>: the effects of the asynchronous code as a state monad over a world, the
    environment and the trace of what was done.
  \<^item> \<open>Publish\<close>: \<open>publish_order\<close> and \<open>send_with_retry\<close>. \<open>Consumer\<close>: \<open>process_order_record\<close>,
    \<open>process_order_inner\<close>, \<open>process_decoded_order\<close>, \<open>stage\<close>. \<open>Consumer_Loop\<close>: the loop of
    \<open>run_consume\<close> with its shutdown listener, as a step relation. \<open>Streams_App\<close>: \<open>run_stream\<close>, its
    topology and the handler of its \<open>peek\<close>. \<open>Demo_Main\<close>: the client settings, \<open>order_serde\<close>, the three
    roles with the steps they take, and \<open>main\<close> from the configuration to how the process ends.
  \<^item> \<open>Rule_Tests\<close>, \<open>Delivery_Tests\<close>: the tests of \<open>lib.rs\<close>, \<open>pipeline.rs\<close> and \<open>metrics.rs\<close>, and
    those of the deliveries and the processing in \<open>main.rs\<close>, each a definition of the test's name
    that is proved of the model.
  \<^item> This theory: properties that cross the components: a fraction given on the command line slows
    exactly that share of the orders, the producer's report agrees with its metrics, the streams
    gauges show the production, and an order published by the producer is counted by the consumer
    under the labels its index determines.

  How state corresponds. A Rust struct is a record with the source's fields and an enum a datatype;
  \<open>u64\<close> and \<open>i64\<close> are 64-bit words (the counters and the order index wrap, as in the optimised
  build the image ships), \<open>usize\<close> is 64 bits wide, \<open>f64\<close> is \<open>Float64.f64\<close>, a string its UTF-8 bytes, a
  \<open>Result\<close> a sum with \<open>Inl\<close> for \<open>Err\<close>, and a panic \<open>None\<close>. Concurrency is in the step relations:
  which branch of a \<open>select!\<close> is ready, which send finishes, and when a signal is delivered are
  chosen by the events, so a theorem about reachable states covers every schedule. The fields
  \<open>started\<close>, \<open>joined\<close>, \<open>polled\<close>, \<open>handled\<close> and the world's \<open>trace\<close> only record what happened.

  Loops and bounds. The retry loop and the stage loop are recursions on lists of three and four
  elements; a finite run of a step relation is a list of events. The admission loop does not end by
  itself: the drain after it is proved to end, in at most one step per pending send and one more. The
  executor of \<open>Scheduler_Prompt\<close> is iterated a given number of times: a run is proved to have returned
  after \<open>run_bound\<close> steps, four per period and two per report until the shutdown and a few more, and
  the tests give 260, 60, 30 and 2 steps, enough for the run of each to return. In \<open>Demo_Main\<close> the
  result \<open>None\<close> says that the given events are none of the loop's, never that the process fails.

  What the libraries do is a parameter, an argument of the definitions that use it: the units and
  validated settings of the krabka crates (records \<open>units\<close> and \<open>settings\<close>), the schema codec, the
  broker behind \<open>send\<close> and \<open>poll\<close>, the clock and timer, the trace propagator, the text encoder of
  the metrics and the streams runtime. What a theorem needs of them is one of its hypotheses, with
  a witness on a concrete instance (\<open>demo_units\<close>, \<open>demo_settings\<close>, \<open>demo_timer\<close>, a codec over the
  identifier).

  Not modelled: the schema registry client behind \<open>order_serde\<close> (its steps are), the splitting of
  the command line by \<open>clap\<close> and which of several refusals it reports, the HTTP server, the
  installation of the signal handlers (its \<open>expect\<close>, and an error of \<open>ctrl_c\<close>, which would end the
  wait), two unit tests (an injected signal, the bindings \<open>clap\<close> reports) and the integration tests,
  the build script (it generates the protobuf code), and the deployment around the binary (compose
  files, dashboards, alerts, packaging). Between two awaits a delivery runs alone: the interleaving of
  the concurrent deliveries is the scheduler's, and each delivery's effects are its own trace.
\<close>

section \<open>The injected share\<close>

text \<open>
  C17: from the command line to the workload: the text \<open>0.dddd\<close> is accepted and slows exactly
  \<open>dddd\<close> of any 10000 consecutive orders.
\<close>

theorem fraction_text_slows_exactly:
  assumes "k < 10000" and "n + 10000 \<le> 2 ^ 64"
  shows "\<exists>x. parse_fraction (''0.'' @ show_padded 4 k) = Inr x \<and>
    card {j \<in> {n..<n + 10000}. inject_latency (of_nat j) x} = k"
proof -
  have "k < 10 ^ 4" using assms(1) by simp
  then have "parse_fraction (''0.'' @ show_padded 4 k) = Inr (f64_lit (of_nat k / 10000))"
    using parse_fraction_decimal [of k 4] by (simp add: decimal_text_def)
  then show ?thesis using card_injected [of k n] assms by auto
qed

theorem fraction_text_slows_exactly_witness:
  "\<exists>x. parse_fraction ''0.0200'' = Inr x \<and> card {j \<in> {0..<10000}. inject_latency (of_nat j) x} = 200"
proof -
  have "''0.'' @ show_padded 4 200 = ''0.0200''" by code_simp
  then show ?thesis using fraction_text_slows_exactly [of 200 0] by simp
qed

section \<open>The producer's report and its metrics\<close>

text \<open>What the delivery of an order does, started in the world \<open>W\<close> gives it.\<close>

definition delivery_effects ::
  "(order \<Rightarrow> ('s, bool) action) \<Rightarrow> (order \<Rightarrow> 's world) \<Rightarrow> order \<Rightarrow> effect list" where
  "delivery_effects delivery W ord =
     drop (length (trace (W ord))) (trace (snd (run_state (delivery ord) (W ord))))"

lemma delivery_counts:
  assumes dl: "dl = deliver U T err_text transmit th serialize c"
  shows "length (filter is_produced_inc (calls (delivery_effects dl W ord))) =
      (if fst (run_state (dl ord) (W ord)) then 1 else 0)"
    and "(if fst (run_state (dl ord) (W ord)) then 0 else 3) \<le>
      length (filter is_error_inc (calls (delivery_effects dl W ord)))"
    and "length (filter is_error_inc (calls (delivery_effects dl W ord))) \<le>
      (if fst (run_state (dl ord) (W ord)) then 2 else 3)"
proof -
  define ok where "ok = fst (run_state (dl ord) (W ord))"
  obtain k es where es: "trace (snd (run_state (dl ord) (W ord))) = trace (W ord) @ es"
    "if ok then k < 3 else k = (3::nat)"
    "filter is_error_inc (calls es) = replicate k error_inc"
    "length (filter is_produced_inc (calls es)) = (if ok then 1 else 0)"
    using publish_order_trace [of "th ord" "input_topic c" "serialize (input_topic c) ord" ord U T err_text transmit "W ord"]
    unfolding dl ok_def deliver_def Let_def split_beta by (auto split: if_splits)
  have "delivery_effects dl W ord = es" by (simp add: delivery_effects_def es(1))
  then show "length (filter is_produced_inc (calls (delivery_effects dl W ord))) =
      (if fst (run_state (dl ord) (W ord)) then 1 else 0)"
    "(if fst (run_state (dl ord) (W ord)) then 0 else 3) \<le>
      length (filter is_error_inc (calls (delivery_effects dl W ord)))"
    "length (filter is_error_inc (calls (delivery_effects dl W ord))) \<le>
      (if fst (run_state (dl ord) (W ord)) then 2 else 3)"
    using es(2-4) by (simp_all add: ok_def split: if_splits)
qed

lemma sum_list_bounds:
  assumes "\<And>x. (if D x then 0 else 3) \<le> f x" and "\<And>x. f x \<le> (if D x then 2 else (3::nat))"
  shows "3 * length (filter (\<lambda>x. \<not> D x) xs) \<le> (\<Sum>x\<leftarrow>xs. f x)"
    and "(\<Sum>x\<leftarrow>xs. f x) \<le> 3 * length (filter (\<lambda>x. \<not> D x) xs) + 2 * length (filter D xs)"
proof (induction xs)
  case (Cons a xs)
  { case 1
    show ?case using Cons.IH(1) assms(1) [of a] by (cases "D a") simp_all
  next
    case 2
    show ?case using Cons.IH(2) assms(2) [of a] by (cases "D a") simp_all
  }
qed simp_all

text \<open>
  C15: the report agrees with the metrics: over a complete run whose orders are delivered by
  \<open>publish_order\<close>, each in an arbitrary environment, the produced counter was incremented once per
  acknowledged order, and the error counter three times per failed order and at most twice more per
  acknowledged one.
\<close>

theorem report_matches_metrics:
  assumes "dl = deliver U T err_text transmit th serialize c"
    and "run_events period m evs sched_init = Some s"
    and "list_all (follows (\<lambda>x. fst (run_state (dl x) (W x)))) evs"
    and "phase s = Finished (Inr rep)" and "length (started s) < 2 ^ 64"
  shows "(\<Sum>x\<leftarrow>started s. length (filter is_produced_inc (calls (delivery_effects dl W x)))) =
      unat (acknowledged rep) \<and>
    3 * unat (failed rep) \<le> (\<Sum>x\<leftarrow>started s. length (filter is_error_inc (calls (delivery_effects dl W x)))) \<and>
    (\<Sum>x\<leftarrow>started s. length (filter is_error_inc (calls (delivery_effects dl W x)))) \<le>
      3 * unat (failed rep) + 2 * unat (acknowledged rep)"
proof -
  let ?D = "\<lambda>x. fst (run_state (dl x) (W x))"
  have rep: "unat (acknowledged rep) = length (filter ?D (started s))"
    "unat (failed rep) = length (filter (\<lambda>x. \<not> ?D x) (started s))"
    using report_split [OF assms(2-5)] by simp_all
  have "(\<Sum>x\<leftarrow>xs. length (filter is_produced_inc (calls (delivery_effects dl W x)))) = length (filter ?D xs)" for xs
    by (induction xs) (simp_all add: delivery_counts(1) [OF assms(1)])
  then show ?thesis
    using sum_list_bounds [of ?D "\<lambda>x. length (filter is_error_inc (calls (delivery_effects dl W x)))" "started s"]
      delivery_counts(2,3) [OF assms(1)]
    by (simp add: rep)
qed

text \<open>A broker that refuses every record of the second order, and a clock that stands still.\<close>

definition still_timer :: "nat timer" where
  "still_timer = \<lparr>read_clock = (\<lambda>e. (0, e)), sleep_for = (\<lambda>d e. e)\<rparr>"

definition picky_transmit :: "producer_record \<Rightarrow> nat \<Rightarrow> (string + unit) \<times> nat" where
  "picky_transmit r e = (if e = 0 then Inr () else Inl ''refused'', e)"

definition picky_world :: "order \<Rightarrow> nat world" where
  "picky_world x = \<lparr>env = (if ts_ms x = 0 then 0 else 1), trace = []\<rparr>"

definition picky_delivery :: "order \<Rightarrow> (nat, bool) action" where
  "picky_delivery = deliver demo_units still_timer id picky_transmit (\<lambda>_. []) (\<lambda>topic x. []) (demo_cli Produce)"

lemma picky_result: "fst (run_state (picky_delivery x) (picky_world x)) \<longleftrightarrow> ts_ms x = 0"
proof -
  have "snd (picky_transmit r e) = e" for r e by (simp add: picky_transmit_def)
  then have "attempt_ok picky_transmit r e n \<longleftrightarrow> e = 0" for r e n
    by (induction n) (simp_all add: picky_transmit_def)
  then show ?thesis
    by (auto simp: picky_delivery_def deliver_def publish_order_run(1) send_with_retry_iff
        still_timer_def picky_world_def intro: exI [of _ 0])
qed

theorem report_matches_metrics_witness:
  "(\<Sum>x\<leftarrow>started (demo_final 7). length (filter is_produced_inc (calls (delivery_effects picky_delivery picky_world x)))) = 1"
proof -
  have "list_all (follows (\<lambda>x. fst (run_state (picky_delivery x) (picky_world x)))) demo_events"
    by (simp add: picky_result demo_events_def follows_def idle_poll_def stamped_small del: One_nat_def)
  from report_matches_metrics [OF picky_delivery_def demo_run this, of 7 "\<lparr>acknowledged = 1, failed = 1\<rparr>"]
  show ?thesis by (simp add: demo_final_def)
qed

section \<open>From the producer to the streams gauges\<close>

lemma residue_step:
  assumes "k < (5 :: nat)"
  shows "(Suc n + 4 - k) div 5 = (n + 4 - k) div 5 + (if n mod 5 = k then 1 else 0)"
proof -
  have "Suc (n + 4 - k) = n + (5 - k)" using assms by simp
  then have "Suc (n + 4 - k) mod 5 = (n mod 5 + (5 - k)) mod 5" by (simp only: mod_add_left_eq)
  also have "\<dots> = 0 \<longleftrightarrow> n mod 5 = k"
  proof -
    have "n mod 5 < 5" by simp
    moreover define r where "r = n mod 5"
    ultimately have "r < 5" by simp
    then show ?thesis using assms unfolding r_def [symmetric] by (auto simp: mod_if)
  qed
  finally have "Suc (n + 4 - k) div 5 = (n + 4 - k) div 5 + (if n mod 5 = k then 1 else 0)"
    by (simp add: div_Suc)
  moreover have "Suc n + 4 - k = Suc (n + 4 - k)" using assms by simp
  ultimately show ?thesis by (simp only:)
qed

lemma count_category:
  "k < 5 \<Longrightarrow> n \<le> 2 ^ 64 \<Longrightarrow>
   count_list (map (\<lambda>i. category (stamped_order i)) [0..<n]) (CATEGORIES ! k) = (n + 4 - k) div 5"
proof (induction n)
  case (Suc n)
  have "CATEGORIES ! (n mod 5) = CATEGORIES ! k \<longleftrightarrow> n mod 5 = k"
    using nth_eq_iff_index_eq [OF distinct_CATEGORIES, of "n mod 5" k] Suc.prems(1) by simp
  moreover have "category (stamped_order n) = CATEGORIES ! (n mod 5)"
    using Suc.prems(2) by (intro stamped_category) simp
  ultimately show ?case
    using Suc residue_step [OF Suc.prems(1), of n] by simp
qed simp

text \<open>
  C30: from the producer to the streams gauges: when a run acknowledged all its orders and the
  topology counted the record of each order once, the gauge of the category with index \<open>k\<close> shows how
  many of the orders up to the acknowledged number fall on it; a category without an order has no
  gauge.
\<close>

theorem stream_gauges_show_production:
  assumes "send_reachable period m s" and "phase s = Finished (Inr rep)" and "length (started s) < 2 ^ 64"
    and "failed rep = 0" and "last_counts (map category (started s)) us" and "k < 5"
  shows "\<exists>es. trace (snd (run_state (peek_all us) w)) = trace w @ es \<and>
    gauge_value (CATEGORIES ! k) (calls es) =
      (if k < unat (acknowledged rep) then Some (of_nat ((unat (acknowledged rep) + 4 - k) div 5)) else None)"
proof -
  let ?n = "length (started s)"
  have d: "data_inv m s" using assms(1) by (rule reachable_inv)
  have n: "unat (acknowledged rep) = ?n"
    using report_accounts [OF assms(1-3)] assms(4) by simp
  have "started s = map stamped_order [0..<?n]" using d unfolding data_inv_def by blast
  then have keys: "map category (started s) = map (\<lambda>i. category (stamped_order i)) [0..<?n]"
    by (metis (no_types, lifting) comp_apply map_eq_conv map_map)
  have count: "count_list (map category (started s)) (CATEGORIES ! k) = (?n + 4 - k) div 5"
    unfolding keys using assms(3,6) by (intro count_category) simp_all
  moreover have "CATEGORIES ! k \<in> set (map category (started s)) \<longleftrightarrow> 0 < (?n + 4 - k) div 5"
    unfolding count [symmetric] by (metis count_list_0_iff neq0_conv)
  moreover have "0 < (?n + 4 - k) div 5 \<longleftrightarrow> k < ?n"
    using assms(6) by (auto simp: div_greater_zero_iff)
  ultimately have "map_of (rev us) (CATEGORIES ! k) = (if k < ?n then Some (of_nat ((?n + 4 - k) div 5)) else None)"
    using last_counts_lookup [OF assms(5), of "CATEGORIES ! k"] by simp
  then show ?thesis using peek_all_gauge [of us w "CATEGORIES ! k"] n by metis
qed

theorem stream_gauges_show_production_witness:
  "\<exists>s :: string sched. phase s = Finished (Inr \<lparr>acknowledged = 5, failed = 0\<rparr>) \<and>
     (\<exists>es. trace (snd (run_state (peek_all (running_counts (map category (started s)))) demo_world)) = es \<and>
        gauge_value ''books'' (calls es) = Some 1)"
proof -
  have l: "from_millis 5 = 5000000" "stop_at retried_load = 25000000"
    by (simp_all add: retried_load_def from_millis_def)
  have dl: "delay retried_load (stamped_order i) = 60000000 \<and> succeeds retried_load (stamped_order i) = True" for i
    by (simp add: retried_load_def from_millis_def)
  have b: "0 < from_millis 5" "stop_at retried_load \<le> 2 ^ 63 * from_millis 5" by (simp_all add: l)
  obtain s f where run: "tested retried_load (from_millis 5) 5 (skip_next (from_millis 5))
      (burst_next report_period) 30 = Some (s, f)"
    "phase (core (loop s)) = Finished (Inr \<lparr>acknowledged = 5, failed = 0\<rparr>)"
    using tested_end [OF b dl retried_light [folded l]] by auto
  from stream_gauges_show_production [OF tested_simulated(1) [OF b dl run(1)] run(2)
      tested_simulated(2) [OF b dl run(1)] _ last_counts_running, of 0 demo_world] run(2)
  show ?thesis by (auto simp: CATEGORIES_def demo_world_def)
qed

section \<open>From the producer to the consumer\<close>

text \<open>
  C1: an order end to end. Let the delivery of the \<open>n\<close>-th order succeed with a record, let the
  broker hand its value and headers to the consumer, and let the schema codec read back what it
  wrote for this order. Then the consumer counts the order once, under the category, region and
  outcome that its index determines, and its stages are slowed exactly when \<open>n mod 10000\<close> is below
  the configured share.
\<close>

theorem produced_order_processed:
  assumes codec: "deserialize (input_topic c) (serialize (input_topic c) (stamped_order n)) = Inr (stamped_order n)"
    and sent: "trace (snd (run_state (deliver U Tp err_p transmit th serialize c (stamped_order n)) w0)) = trace w0 @ es0"
      "(p, True) \<in> set (sends es0)"
    and broker: "rec_value r = pr_value p"
    and range: "n < 2 ^ 64"
    and share: "slow_order_fraction c' = f64_lit (of_nat k / 10000)" "k \<le> 10000"
    and same_topic: "input_topic c' = input_topic c"
    and fits: "work_fits U c'"
  shows "\<exists>w' es. process_order_record U Tc deserialize err_c c' r w = Some w' \<and> trace w' = trace w @ es \<and>
    filter is_count (calls es) = [Orders_processed_inc
      \<lparr>processed_category = CATEGORIES ! (n mod 5), processed_region = REGIONS ! (n div 2 mod 4),
       processed_outcome =
         (if n mod 17 = 0 then ''anomalous''
          else if n div 3 mod 4 = 3 \<and> 150 \<le> n mod 200 then ''fraud_rejected'' else ''fulfilled'')\<rparr>] \<and>
    sleeps es = map (\<lambda>t. to_std U t + (if n mod 10000 < k then 30000000 else 0))
      [validate_work c', enrich_work c', fraud_check_work c', fulfill_work c']"
proof -
  let ?o = "stamped_order n"
  have p: "p = order_record (th ?o) (input_topic c) (serialize (input_topic c) ?o) ?o"
    using sent by (intro deliver_sends) 
  have n: "unat (of_nat n :: u64) = n" using range by (simp add: unat_of_nat)
  have dec: "decoded deserialize (input_topic c') r = Some ?o"
    "record_count deserialize (input_topic c') r = Orders_processed_inc
      \<lparr>processed_category = category ?o, processed_region = region ?o, processed_outcome = classify_outcome ?o\<rparr>"
    using codec by (simp_all add: decoded_def record_count_def decode_order_def broker p order_record_def same_topic)
  have "order_id ?o = order_id (order_at (of_nat n))" by (simp add: stamped_order_def)
  then have idx: "order_index ?o = of_nat n" by (rule order_index_order_at)
  have outcome: "classify_outcome ?o = classify_outcome (order_at (of_nat n))"
    by (simp add: stamped_order_def classify_outcome_def is_anomalous_def is_suspicious_def)
  have inj: "injected c' ?o = (if n mod 10000 < k then 30000000 else 0)"
    using share by (simp add: injected_def idx inject_latency_iff n)
  obtain w' es where out: "process_order_record U Tc deserialize err_c c' r w = Some w'"
    "trace w' = trace w @ es" "record_trace U deserialize c' r es"
    using process_record_trace [OF fits] by metis
  have "sleeps es = map (\<lambda>t. to_std U t + (if n mod 10000 < k then 30000000 else 0))
      [validate_work c', enrich_work c', fraud_check_work c', fulfill_work c']"
    using out(3) by (simp only: record_trace_def dec(1) option.case inj stage_sleeps)
  moreover have "filter is_count (calls es) = [Orders_processed_inc
      \<lparr>processed_category = CATEGORIES ! (n mod 5), processed_region = REGIONS ! (n div 2 mod 4),
       processed_outcome =
         (if n mod 17 = 0 then ''anomalous''
          else if n div 3 mod 4 = 3 \<and> 150 \<le> n mod 200 then ''fraud_rejected'' else ''fulfilled'')\<rparr>]"
    using out(3) by (simp add: record_trace_def dec(2) outcome classify_order_at n) (simp add: stamped_order_def n)
  ultimately show ?thesis using out(1,2) by blast
qed

text \<open>A codec over the identifier, a broker that accepts every record, and the order with index five.\<close>

definition demo_serialize :: "string \<Rightarrow> order \<Rightarrow> bytes" where
  "demo_serialize topic ord = string_bytes (order_id ord)"

definition demo_deserialize :: "string \<Rightarrow> bytes \<Rightarrow> string + order" where
  "demo_deserialize topic v =
     (case Option.bind (from_utf8 v) (strip_prefix ''o-'') of
        None \<Rightarrow> Inl ''not an order''
      | Some s \<Rightarrow> map_err int_error_text (bind_res (parse_u64 s) (\<lambda>i. Inr (stamped_order (unat i)))))"

definition demo_transmit :: "producer_record \<Rightarrow> nat \<Rightarrow> (string + unit) \<times> nat" where
  "demo_transmit r e = (Inr (), e + 1)"

definition demo_record :: producer_record where
  "demo_record = order_record [] ''orders'' (demo_serialize ''orders'' (stamped_order 5)) (stamped_order 5)"

lemma demo_codec: "demo_deserialize topic (demo_serialize topic (stamped_order 5)) = Inr (stamped_order 5)"
proof -
  have id: "order_id (stamped_order 5) = ''o-0000000005''"
  proof -
    have "show_padded 10 5 = ''0000000005''" by code_simp
    then show ?thesis by (simp add: stamped_order_def)
  qed
  have "valid_str ''o-0000000005''" by (simp add: ascii_valid_str)
  moreover have "parse_u64 ''0000000005'' = Inr 5"
    by (simp add: parse_u64_def parse_unsigned_def char_digit_def)
  ultimately show ?thesis
    by (simp add: demo_deserialize_def demo_serialize_def id from_utf8_string_bytes)
qed

lemma demo_delivery:
  "\<exists>es. trace (snd (run_state (deliver demo_units demo_timer id demo_transmit (\<lambda>_. []) demo_serialize
      (demo_cli Produce) (stamped_order 5)) demo_world)) = trace demo_world @ es \<and>
     (demo_record, True) \<in> set (sends es)"
proof -
  have topic: "input_topic (demo_cli Produce) = ''orders''" by (simp add: demo_cli_def)
  have ok: "fst (run_state (publish_order demo_units demo_timer id demo_transmit [] (stamped_order 5) ''orders''
      (demo_serialize ''orders'' (stamped_order 5))) demo_world)"
    by (simp add: publish_order_run(1) send_with_retry_iff less_three demo_transmit_def)
  show ?thesis
    using publish_order_trace [of "[]" "''orders''" "demo_serialize ''orders'' (stamped_order 5)" "stamped_order 5"
        demo_units demo_timer id demo_transmit demo_world] ok
    unfolding deliver_def topic Let_def split_beta demo_record_def by auto
qed

theorem produced_order_processed_witness:
  "\<exists>w' es. process_order_record demo_units demo_timer demo_deserialize id (demo_cli Consume)
       \<lparr>rec_partition = 0, rec_offset = 0, rec_value = pr_value demo_record, rec_headers = pr_headers demo_record\<rparr>
       demo_world = Some w' \<and> trace w' = es \<and>
     filter is_count (calls es) = [Orders_processed_inc
       \<lparr>processed_category = ''books'', processed_region = ''eu-west'', processed_outcome = ''fulfilled''\<rparr>]"
proof -
  let ?r = "\<lparr>rec_partition = 0, rec_offset = 0, rec_value = pr_value demo_record, rec_headers = pr_headers demo_record\<rparr>"
  obtain es0 where sent: "trace (snd (run_state (deliver demo_units demo_timer id demo_transmit (\<lambda>_. []) demo_serialize
      (demo_cli Produce) (stamped_order 5)) demo_world)) = trace demo_world @ es0" "(demo_record, True) \<in> set (sends es0)"
    using demo_delivery by blast
  have c: "rec_value ?r = pr_value demo_record" "(5::nat) < 2 ^ 64"
    "slow_order_fraction (demo_cli Consume) = f64_lit (of_nat 200 / 10000)" "(200::nat) \<le> 10000"
    "input_topic (demo_cli Consume) = input_topic (demo_cli Produce)"
    by (simp_all add: demo_cli_def)
  have tables: "CATEGORIES ! 0 = ''books''" "REGIONS ! 2 = ''eu-west''"
    by (simp_all add: CATEGORIES_def REGIONS_def)
  show ?thesis
    using produced_order_processed [where deserialize = demo_deserialize and serialize = demo_serialize
        and c = "demo_cli Produce" and c' = "demo_cli Consume" and U = demo_units and n = 5 and k = 200
        and Tc = demo_timer and err_c = id and w = demo_world, OF demo_codec sent c demo_work_fits] tables
    by (auto simp: demo_world_def)
qed

end
